(* ===== verification/Prelude.thy ===== *)
theory Prelude
  imports Main "HOL-Library.Word" "HOL-Library.Monad_Syntax"
begin

unbundle bit_operations_syntax

text \<open>
  Shared vocabulary of the development: the machine integer types, byte buffers and
  the segment calculus on them, and C strings. No definition here models a function
  of the repository; the C library functions the sources call (\<open>strlen\<close>, \<open>strncmp\<close>,
  \<open>memcpy\<close>, \<open>snprintf\<close>) get the meaning the C standard gives them.
\<close>

section \<open>Types\<close>

type_synonym byte = "8 word"
type_synonym u8 = "8 word"
type_synonym u16 = "16 word"
type_synonym u32 = "32 word"
type_synonym u64 = "64 word"

text \<open>
  Collections: \<open>buf_simps\<close> evaluates reads of overwritten buffers, \<open>frame\<close> holds the
  facts that say what an operation leaves alone.
\<close>

named_theorems buf_simps
named_theorems frame

section \<open>Segments of a buffer\<close>

definition seg :: "nat \<Rightarrow> nat \<Rightarrow> 'a list \<Rightarrow> 'a list" where
  "seg off n xs = take n (drop off xs)"

definition overwrite :: "nat \<Rightarrow> 'a list \<Rightarrow> 'a list \<Rightarrow> 'a list" where
  "overwrite off ys xs = take off xs @ ys @ drop (off + length ys) xs"

lemma length_seg [simp]: "length (seg off n xs) = min n (length xs - off)"
  by (simp add: seg_def)

lemma length_overwrite [simp]:
  "off + length ys \<le> length xs \<Longrightarrow> length (overwrite off ys xs) = length xs"
  by (simp add: overwrite_def)

lemma nth_overwrite:
  "off + length ys \<le> length xs \<Longrightarrow> i < length xs \<Longrightarrow>
   overwrite off ys xs ! i = (if off \<le> i \<and> i < off + length ys then ys ! (i - off) else xs ! i)"
  by (auto simp: overwrite_def nth_append min_def)

lemma nth_seg: "off + n \<le> length xs \<Longrightarrow> i < n \<Longrightarrow> seg off n xs ! i = xs ! (off + i)"
  by (simp add: seg_def)

lemma overwrite_Nil [simp]: "overwrite off [] xs = xs"
  by (simp add: overwrite_def)

lemma seg_full [simp]: "seg 0 (length xs) xs = xs"
  by (simp add: seg_def)

lemma seg_overwrite_same [buf_simps]:
  "off + length ys \<le> length xs \<Longrightarrow> n = length ys \<Longrightarrow> seg off n (overwrite off ys xs) = ys"
  by (simp add: seg_def overwrite_def)

lemma seg_overwrite_disjoint [buf_simps]:
  assumes "off + length ys \<le> length xs" and "a + n \<le> off \<or> off + length ys \<le> a"
    and "a + n \<le> length xs"
  shows "seg a n (overwrite off ys xs) = seg a n xs"
proof (rule nth_equalityI)
  show "length (seg a n (overwrite off ys xs)) = length (seg a n xs)"
    using assms(1) by simp
  fix i assume "i < length (seg a n (overwrite off ys xs))"
  then have "i < n" by simp
  then show "seg a n (overwrite off ys xs) ! i = seg a n xs ! i"
    using assms by (auto simp: nth_seg nth_overwrite)
qed

lemma seg_overwrite_inside:
  assumes "off + length ys \<le> length xs" and "off \<le> a" and "a + n \<le> off + length ys"
  shows "seg a n (overwrite off ys xs) = seg (a - off) n ys"
proof (rule nth_equalityI)
  show "length (seg a n (overwrite off ys xs)) = length (seg (a - off) n ys)"
    using assms by simp
  fix i assume "i < length (seg a n (overwrite off ys xs))"
  then have "i < n" by simp
  then show "seg a n (overwrite off ys xs) ! i = seg (a - off) n ys ! i"
    using assms by (auto simp: nth_seg nth_overwrite)
qed

lemma overwrite_overwrite_same [buf_simps]:
  "length ys = length zs \<Longrightarrow> off + length ys \<le> length xs \<Longrightarrow>
   overwrite off zs (overwrite off ys xs) = overwrite off zs xs"
  by (simp add: overwrite_def)

lemma overwrite_seg_id:
  "off + n \<le> length xs \<Longrightarrow> overwrite off (seg off n xs) xs = xs"
  by (rule nth_equalityI) (auto simp: nth_overwrite nth_seg)

lemma overwrite_commute:
  assumes "off + length ys \<le> length xs" "off' + length zs \<le> length xs"
    and "off + length ys \<le> off' \<or> off' + length zs \<le> off"
  shows "overwrite off ys (overwrite off' zs xs) = overwrite off' zs (overwrite off ys xs)"
  using assms by (intro nth_equalityI) (auto simp: nth_overwrite)

section \<open>C strings\<close>

text \<open>
  A \<open>char\<close> array holds a string up to its first NUL. \<open>strncmp_eq\<close> and \<open>strcmp_eq\<close> are the
  tests \<open>!strncmp(a, b, n)\<close> and \<open>!strcmp(a, b)\<close>; the sources never use the sign.
\<close>

definition NUL :: char where "NUL = CHR 0x00"

definition cstr :: "string \<Rightarrow> string" where
  "cstr s = takeWhile (\<lambda>c. c \<noteq> NUL) s"

definition strncmp_eq :: "string \<Rightarrow> string \<Rightarrow> nat \<Rightarrow> bool" where
  "strncmp_eq a b n \<longleftrightarrow> take n (cstr a) = take n (cstr b)"

definition strcmp_eq :: "string \<Rightarrow> string \<Rightarrow> bool" where
  "strcmp_eq a b \<longleftrightarrow> cstr a = cstr b"

definition strlen :: "string \<Rightarrow> nat" where
  "strlen s = length (cstr s)"

text \<open>\<open>snprintf(buf, size, ...)\<close> and \<open>strlcpy\<close> keep at most \<open>size - 1\<close> characters.\<close>

definition snprintf :: "nat \<Rightarrow> string \<Rightarrow> string" where
  "snprintf sz s = take (sz - 1) (cstr s)"

definition char_of_byte :: "byte \<Rightarrow> char" where
  "char_of_byte b = char_of (unat b)"

lemma cstr_id [simp]: "NUL \<notin> set s \<Longrightarrow> cstr s = s"
  by (auto simp: cstr_def takeWhile_eq_all_conv)

lemma NUL_notin_cstr [simp]: "NUL \<notin> set (cstr s)"
  by (auto simp: cstr_def dest: set_takeWhileD)

lemma strncmp_eq_prefix:
  "NUL \<notin> set a \<Longrightarrow> strncmp_eq a b (length a) \<longleftrightarrow> take (length a) (cstr b) = a"
  by (auto simp: strncmp_eq_def)

lemma strncmp_eq_same_length:
  "NUL \<notin> set a \<Longrightarrow> NUL \<notin> set b \<Longrightarrow> length a = length b \<Longrightarrow>
   strncmp_eq a b (length b) \<longleftrightarrow> a = b"
  by (simp add: strncmp_eq_def)

section \<open>The option monad as undefined behaviour\<close>

text \<open>
  Functions that can read or write outside a buffer return an \<open>option\<close>; \<open>None\<close> is
  undefined behaviour (or, where said, a loop that never ends). A theorem that such a
  function returns \<open>Some\<close> is a memory-safety theorem.
\<close>

text \<open>
  \<open>runs m Q\<close>: the computation is defined and its result satisfies \<open>Q\<close> (total correctness).
  It distributes over the monad's sequencing, so that the triple of a function follows from
  the triples of the functions it calls.
\<close>

definition runs :: "'a option \<Rightarrow> ('a \<Rightarrow> bool) \<Rightarrow> bool" where
  "runs m Q \<longleftrightarrow> (case m of None \<Rightarrow> False | Some x \<Rightarrow> Q x)"

named_theorems runs_intro

lemma runs_Some [simp]: "runs (Some x) Q \<longleftrightarrow> Q x"
  by (simp add: runs_def)

lemma runs_None [simp]: "\<not> runs None Q"
  by (simp add: runs_def)

lemma runs_bind [simp]: "runs (m \<bind> f) Q \<longleftrightarrow> runs m (\<lambda>x. runs (f x) Q)"
  by (cases m) simp_all

lemma runs_if [simp]: "runs (if b then m else n) Q \<longleftrightarrow> (if b then runs m Q else runs n Q)"
  by simp

lemma runs_mono: "runs m Q \<Longrightarrow> (\<And>x. Q x \<Longrightarrow> Q' x) \<Longrightarrow> runs m Q'"
  by (cases m) simp_all

lemma runs_iff: "runs m Q \<longleftrightarrow> (\<exists>x. m = Some x \<and> Q x)"
  by (cases m) simp_all

lemma runsD: "runs m Q \<Longrightarrow> m = Some x \<Longrightarrow> Q x"
  by simp

lemma runs_conj: "runs m P \<Longrightarrow> runs m Q \<Longrightarrow> runs m (\<lambda>x. P x \<and> Q x)"
  by (cases m) simp_all

text \<open>Partial correctness: whatever the result is, it satisfies the predicate.\<close>

definition ends :: "'a option \<Rightarrow> ('a \<Rightarrow> bool) \<Rightarrow> bool" where
  "ends m Q \<longleftrightarrow> (\<forall>x. m = Some x \<longrightarrow> Q x)"

lemma ends_simps [simp]:
  "ends None Q" "ends (Some x) Q \<longleftrightarrow> Q x" "ends (if b then m else m') Q \<longleftrightarrow> (if b then ends m Q else ends m' Q)"
  by (simp_all add: ends_def)

lemma ends_val: "(\<And>x. m = Some x \<Longrightarrow> ends (f x) Q) \<Longrightarrow> ends (m \<bind> f) Q"
  by (cases m) (simp_all add: ends_def)

lemma ends_bind: "ends m P \<Longrightarrow> (\<And>x. P x \<Longrightarrow> ends (f x) Q) \<Longrightarrow> ends (m \<bind> f) Q"
  by (cases m) (simp_all add: ends_def)

lemma ends_mono: "ends m P \<Longrightarrow> (\<And>x. P x \<Longrightarrow> Q x) \<Longrightarrow> ends m Q"
  by (simp add: ends_def)

section \<open>Requests in turn\<close>

text \<open>
  Whether a sequence starts and stops something strictly in turn, and if so whether it is started at the end.
\<close>

fun turns :: "'a \<Rightarrow> 'a \<Rightarrow> bool \<Rightarrow> 'a list \<Rightarrow> bool option" where
  "turns start stop on [] = Some on"
| "turns start stop on (e # es) =
     (if e = start then if on then None else turns start stop True es
      else if e = stop then if on then turns start stop False es else None
      else turns start stop on es)"

lemma turns_append: "turns start stop on (es @ es') = do { on \<leftarrow> turns start stop on es; turns start stop on es' }"
  by (induction es arbitrary: on) auto

lemma turns_other: "start \<notin> set es \<Longrightarrow> stop \<notin> set es \<Longrightarrow> turns start stop on es = Some on"
  by (induction es) auto

end
