(* ===== verification/Gpt_Bytes.thy ===== *)
theory Gpt_Bytes
  imports Prelude
begin

unbundle bit_operations_syntax

text \<open>
  The byte access macros of \<open>gpt-utils.cpp\<close> and the field offsets of \<open>gpt-utils.h\<close>.
  A pointer \<open>ptr\<close> into a heap block is the block and an offset; an access outside the
  block is \<open>None\<close>.
\<close>

section \<open>Field offsets\<close>

definition HEADER_SIZE_OFFSET :: nat where "HEADER_SIZE_OFFSET = 12"
definition HEADER_CRC_OFFSET :: nat where "HEADER_CRC_OFFSET = 16"
definition PENTRIES_OFFSET :: nat where "PENTRIES_OFFSET = 72"
definition PARTITION_COUNT_OFFSET :: nat where "PARTITION_COUNT_OFFSET = 80"
definition PENTRY_SIZE_OFFSET :: nat where "PENTRY_SIZE_OFFSET = 84"
definition PARTITION_CRC_OFFSET :: nat where "PARTITION_CRC_OFFSET = 88"
definition PTN_ENTRY_SIZE :: nat where "PTN_ENTRY_SIZE = 128"
definition PARTITION_NAME_OFFSET :: nat where "PARTITION_NAME_OFFSET = 56"
definition MAX_GPT_NAME_SIZE :: nat where "MAX_GPT_NAME_SIZE = 72"

lemmas gpt_offsets =
  HEADER_SIZE_OFFSET_def HEADER_CRC_OFFSET_def PENTRIES_OFFSET_def PARTITION_COUNT_OFFSET_def
  PENTRY_SIZE_OFFSET_def PARTITION_CRC_OFFSET_def PTN_ENTRY_SIZE_def PARTITION_NAME_OFFSET_def
  MAX_GPT_NAME_SIZE_def

text \<open>\<open>GPT_SIGNATURE\<close> with its terminating NUL: the sources compare and copy \<open>sizeof\<close> of it.\<close>

definition GPT_SIGNATURE :: "byte list" where
  "GPT_SIGNATURE = [0x45, 0x46, 0x49, 0x20, 0x50, 0x41, 0x52, 0x54, 0x00]"

lemma length_GPT_SIGNATURE [simp]: "length GPT_SIGNATURE = 9"
  by (simp add: GPT_SIGNATURE_def)

section \<open>The macros\<close>

definition GET_4_BYTES :: "byte list \<Rightarrow> nat \<Rightarrow> u32 option" where
  "GET_4_BYTES buf ptr =
     (if ptr + 4 \<le> length buf then
        Some (ucast (buf ! ptr) OR
              push_bit 8 (ucast (buf ! (ptr + 1))) OR
              push_bit 16 (ucast (buf ! (ptr + 2))) OR
              push_bit 24 (ucast (buf ! (ptr + 3))))
      else None)"

definition GET_8_BYTES :: "byte list \<Rightarrow> nat \<Rightarrow> u64 option" where
  "GET_8_BYTES buf ptr =
     (if ptr + 8 \<le> length buf then
        Some (ucast (buf ! ptr) OR
              push_bit 8 (ucast (buf ! (ptr + 1))) OR
              push_bit 16 (ucast (buf ! (ptr + 2))) OR
              push_bit 24 (ucast (buf ! (ptr + 3))) OR
              push_bit 32 (ucast (buf ! (ptr + 4))) OR
              push_bit 40 (ucast (buf ! (ptr + 5))) OR
              push_bit 48 (ucast (buf ! (ptr + 6))) OR
              push_bit 56 (ucast (buf ! (ptr + 7))))
      else None)"

definition PUT_4_BYTES :: "byte list \<Rightarrow> nat \<Rightarrow> u32 \<Rightarrow> byte list option" where
  "PUT_4_BYTES buf ptr y =
     (if ptr + 4 \<le> length buf then
        Some (buf[ptr := ucast (y AND 0xff),
                  ptr + 1 := ucast (drop_bit 8 y AND 0xff),
                  ptr + 2 := ucast (drop_bit 16 y AND 0xff),
                  ptr + 3 := ucast (drop_bit 24 y AND 0xff)])
      else None)"

section \<open>Total versions and their laws\<close>

text \<open>
  \<open>le32\<close> and \<open>le64\<close> read a little-endian number at an offset that is known to be inside the block,
  \<open>bytes32\<close> are the four bytes \<open>PUT_4_BYTES\<close> stores.
\<close>

definition bytes32 :: "u32 \<Rightarrow> byte list" where
  "bytes32 y = [ucast y, ucast (drop_bit 8 y), ucast (drop_bit 16 y), ucast (drop_bit 24 y)]"

definition le32 :: "byte list \<Rightarrow> nat \<Rightarrow> u32" where
  "le32 buf p = the (GET_4_BYTES buf p)"

definition le64 :: "byte list \<Rightarrow> nat \<Rightarrow> u64" where
  "le64 buf p = the (GET_8_BYTES buf p)"

definition put32 :: "nat \<Rightarrow> u32 \<Rightarrow> byte list \<Rightarrow> byte list" where
  "put32 p y buf = overwrite p (bytes32 y) buf"

lemma length_bytes32 [simp]: "length (bytes32 y) = 4"
  by (simp add: bytes32_def)

lemma GET_4_BYTES_Some [simp]: "ptr + 4 \<le> length buf \<Longrightarrow> GET_4_BYTES buf ptr = Some (le32 buf ptr)"
  by (simp add: GET_4_BYTES_def le32_def)

lemma GET_8_BYTES_Some [simp]: "ptr + 8 \<le> length buf \<Longrightarrow> GET_8_BYTES buf ptr = Some (le64 buf ptr)"
  by (simp add: GET_8_BYTES_def le64_def)

lemma GET_4_BYTES_None [simp]: "\<not> ptr + 4 \<le> length buf \<Longrightarrow> GET_4_BYTES buf ptr = None"
  by (simp add: GET_4_BYTES_def)

lemma ucast_and_ff: "(ucast (y AND 0xff :: u32) :: byte) = ucast y"
proof -
  have "y AND 0xff = take_bit 8 y" by (simp add: take_bit_eq_mask mask_eq_exp_minus_1)
  then show ?thesis by (auto intro!: bit_word_eqI simp: bit_simps)
qed

lemma PUT_4_BYTES_Some [simp]:
  assumes "ptr + 4 \<le> length buf"
  shows "PUT_4_BYTES buf ptr y = Some (put32 ptr y buf)"
proof -
  have "buf[ptr := a, ptr + 1 := b, ptr + 2 := c, ptr + 3 := d] = overwrite ptr [a, b, c, d] buf"
    for a b c d
    using assms
    by (intro nth_equalityI)
      (auto simp: nth_overwrite nth_list_update nth_Cons' less_Suc_eq_le numeral_eq_Suc)
  then show ?thesis
    using assms by (simp add: PUT_4_BYTES_def put32_def bytes32_def ucast_and_ff)
qed

lemma length_put32 [simp]: "p + 4 \<le> length buf \<Longrightarrow> length (put32 p y buf) = length buf"
  by (simp add: put32_def)

text \<open>A number depends on its own bytes only.\<close>

lemma seg_eq_nth:
  assumes "seg p n xs = seg q n ys" and "p + n \<le> length xs" and "q + n \<le> length ys" and "i < n"
  shows "xs ! (p + i) = ys ! (q + i)"
  using assms nth_seg [of p n xs i] nth_seg [of q n ys i] by simp

lemma le32_cong:
  assumes "seg p 4 xs = seg q 4 ys" and "p + 4 \<le> length xs" and "q + 4 \<le> length ys"
  shows "le32 xs p = le32 ys q"
proof -
  note e = seg_eq_nth [OF assms]
  show ?thesis
    using assms(2,3) e [of 0] e [of 1] e [of 2] e [of 3] by (simp add: le32_def GET_4_BYTES_def)
qed

lemma le64_cong:
  assumes "seg p 8 xs = seg q 8 ys" and "p + 8 \<le> length xs" and "q + 8 \<le> length ys"
  shows "le64 xs p = le64 ys q"
proof -
  note e = seg_eq_nth [OF assms]
  show ?thesis
    using assms(2,3) e [of 0] e [of 1] e [of 2] e [of 3] e [of 4] e [of 5] e [of 6] e [of 7]
    by (simp add: le64_def GET_8_BYTES_def)
qed

lemma bytes32_le:
  "(ucast (ucast y :: byte) :: u32) OR
   push_bit 8 (ucast (ucast (drop_bit 8 y) :: byte)) OR
   push_bit 16 (ucast (ucast (drop_bit 16 y) :: byte)) OR
   push_bit 24 (ucast (ucast (drop_bit 24 y) :: byte)) = y"
proof (rule bit_word_eqI)
  fix n assume "n < LENGTH(32)"
  then have "n < 8 \<or> (8 \<le> n \<and> n < 16) \<or> (16 \<le> n \<and> n < 24) \<or> (24 \<le> n \<and> n < 32)" by auto
  then show "bit ((ucast (ucast y :: byte) :: u32) OR
   push_bit 8 (ucast (ucast (drop_bit 8 y) :: byte)) OR
   push_bit 16 (ucast (ucast (drop_bit 16 y) :: byte)) OR
   push_bit 24 (ucast (ucast (drop_bit 24 y) :: byte))) n = bit y n"
    by (elim disjE conjE) (simp_all add: bit_simps, linarith+)
qed

lemma le32_put32_same [buf_simps]:
  assumes "p + 4 \<le> length buf"
  shows "le32 (put32 p y buf) p = y"
proof -
  have "seg p 4 (put32 p y buf) = seg 0 4 (bytes32 y)"
    using assms by (simp add: put32_def seg_overwrite_same) (simp add: seg_def)
  then have "le32 (put32 p y buf) p = le32 (bytes32 y) 0"
    using assms by (intro le32_cong) simp_all
  also have "\<dots> = y"
    using bytes32_le [of y] by (simp add: le32_def GET_4_BYTES_def bytes32_def numeral_eq_Suc)
  finally show ?thesis .
qed

lemma seg_put32_disjoint [buf_simps]:
  "q + 4 \<le> length buf \<Longrightarrow> p + n \<le> q \<or> q + 4 \<le> p \<Longrightarrow> p + n \<le> length buf \<Longrightarrow>
   seg p n (put32 q y buf) = seg p n buf"
  by (simp add: put32_def seg_overwrite_disjoint)

lemma le32_put32_disjoint [buf_simps]:
  "q + 4 \<le> length buf \<Longrightarrow> p + 4 \<le> q \<or> q + 4 \<le> p \<Longrightarrow> p + 4 \<le> length buf \<Longrightarrow>
   le32 (put32 q y buf) p = le32 buf p"
  by (rule le32_cong) (simp_all add: seg_put32_disjoint)

lemma le64_put32_disjoint [buf_simps]:
  "q + 4 \<le> length buf \<Longrightarrow> p + 8 \<le> q \<or> q + 4 \<le> p \<Longrightarrow> p + 8 \<le> length buf \<Longrightarrow>
   le64 (put32 q y buf) p = le64 buf p"
  by (rule le64_cong) (simp_all add: seg_put32_disjoint)

lemma put32_put32_same [buf_simps]:
  "p + 4 \<le> length buf \<Longrightarrow> put32 p y (put32 p x buf) = put32 p y buf"
  by (simp add: put32_def overwrite_overwrite_same)

lemma le32_bytes:
  fixes b0 b1 b2 b3 :: byte
  shows "bytes32 ((ucast b0 :: u32) OR push_bit 8 (ucast b1) OR push_bit 16 (ucast b2) OR push_bit 24 (ucast b3)) =
    [b0, b1, b2, b3]"
  unfolding bytes32_def list.inject
  by (intro conjI bit_word_eqI refl; auto simp: bit_simps dest: bit_imp_le_length)

lemma put32_le32 [buf_simps]:
  assumes "p + 4 \<le> length h"
  shows "put32 p (le32 h p) h = h"
proof -
  have "seg p 4 h = [h ! p, h ! (p + 1), h ! (p + 2), h ! (p + 3)]"
  proof (rule nth_equalityI)
    fix i assume "i < length (seg p 4 h)"
    then consider "i = 0" | "i = 1" | "i = 2" | "i = 3" by fastforce
    then show "seg p 4 h ! i = [h ! p, h ! (p + 1), h ! (p + 2), h ! (p + 3)] ! i"
      using assms by cases (simp_all add: nth_seg)
  qed (use assms in simp)
  moreover have "bytes32 (le32 h p) = [h ! p, h ! (p + 1), h ! (p + 2), h ! (p + 3)]"
    using assms le32_bytes by (simp add: le32_def GET_4_BYTES_def)
  ultimately have "bytes32 (le32 h p) = seg p 4 h" by simp
  then show ?thesis using assms by (simp add: put32_def overwrite_seg_id)
qed

lemma put32_commute:
  "p + 4 \<le> length h \<Longrightarrow> q + 4 \<le> length h \<Longrightarrow> p + 4 \<le> q \<or> q + 4 \<le> p \<Longrightarrow>
   put32 p y (put32 q z h) = put32 q z (put32 p y h)"
  unfolding put32_def by (rule overwrite_commute) simp_all

text \<open>
  The macros as one round trip: a stored number is read back, whatever the offset, and a read
  elsewhere is not disturbed.
\<close>

lemma put_get_roundtrip:
  assumes "PUT_4_BYTES buf p y = Some buf'"
  shows "GET_4_BYTES buf' p = Some y" and "length buf' = length buf"
    and "q + 4 \<le> p \<or> p + 4 \<le> q \<Longrightarrow> GET_4_BYTES buf' q = GET_4_BYTES buf q"
proof -
  have p: "p + 4 \<le> length buf"
    using assms by (simp add: PUT_4_BYTES_def split: if_splits)
  then have buf': "buf' = put32 p y buf" using assms by simp
  show "GET_4_BYTES buf' p = Some y" "length buf' = length buf"
    using p by (simp_all add: buf' buf_simps)
  show "GET_4_BYTES buf' q = GET_4_BYTES buf q" if "q + 4 \<le> p \<or> p + 4 \<le> q"
    using p that by (cases "q + 4 \<le> length buf") (auto simp: buf' buf_simps)
qed

end
