(* ===== verification/Block_Device.thy ===== *)
theory Block_Device
  imports Gpt_Bytes
begin

text \<open>
  The block device under a file descriptor, the system calls \<open>gpt-utils.cpp\<close> makes on it, and
  \<open>blk_rw\<close>. Every system call and allocation takes the next event of \<open>evs\<close>: it succeeds,
  transfers only some of the bytes, or fails. An empty list means that everything succeeds
  from then on, so a list is a finite schedule of faults and every error path of the sources
  is a run of the model. A crash between two writes leaves the device as a failure of the second
  write does.
\<close>

section \<open>Devices and events\<close>

datatype sys_event = SysOk | SysShort nat | SysFail

record dev =
  bytes :: "byte list"          \<comment> \<open>the medium\<close>
  ssz :: u32                    \<comment> \<open>logical sector size, what \<open>BLKSSZGET\<close> reports\<close>
  evs :: "sys_event list"       \<comment> \<open>what happens to the next calls\<close>
  junk :: "nat \<Rightarrow> byte"         \<comment> \<open>what a fresh \<open>malloc\<close> block holds\<close>

definition next_ev :: "dev \<Rightarrow> sys_event \<times> dev" where
  "next_ev d = (case evs d of [] \<Rightarrow> (SysOk, d) | e # es \<Rightarrow> (e, d\<lparr>evs := es\<rparr>))"

definition ioctl_BLKSSZGET :: "dev \<Rightarrow> u32 option \<times> dev" where
  "ioctl_BLKSSZGET d =
     (let (e, d) = next_ev d in (if e = SysFail then None else Some (ssz d), d))"

definition sys_malloc :: "nat \<Rightarrow> dev \<Rightarrow> byte list option \<times> dev" where
  "sys_malloc n d =
     (let (e, d) = next_ev d in (if e = SysFail then None else Some (map (junk d) [0..<n]), d))"

definition sys_calloc :: "nat \<Rightarrow> dev \<Rightarrow> byte list option \<times> dev" where
  "sys_calloc n d =
     (let (e, d) = next_ev d in (if e = SysFail then None else Some (replicate n 0), d))"

definition lseek64_end :: "dev \<Rightarrow> int \<times> dev" where
  "lseek64_end d =
     (let (e, d) = next_ev d in (if e = SysFail then -1 else int (length (bytes d)), d))"

text \<open>A block device refuses a position outside \<open>0 .. size\<close>.\<close>

definition lseek64_set :: "int \<Rightarrow> dev \<Rightarrow> int \<times> dev" where
  "lseek64_set off d =
     (let (e, d) = next_ev d in
      (if e = SysFail \<or> off < 0 \<or> int (length (bytes d)) < off then -1 else off, d))"

fun transferred :: "sys_event \<Rightarrow> nat \<Rightarrow> nat" where
  "transferred (SysShort k) n = min k n"
| "transferred _ n = n"

text \<open>\<open>sys_read\<close> gives the bytes read (\<open>None\<close> for a return of -1), \<open>sys_write\<close> their number.\<close>

definition sys_read :: "nat \<Rightarrow> nat \<Rightarrow> dev \<Rightarrow> byte list option \<times> dev" where
  "sys_read pos n d =
     (let (e, d) = next_ev d in
      (if e = SysFail then None else Some (seg pos (transferred e n) (bytes d)), d))"

definition sys_write :: "nat \<Rightarrow> byte list \<Rightarrow> dev \<Rightarrow> int \<times> dev" where
  "sys_write pos data d =
     (let (e, d) = next_ev d;
          room = length (bytes d) - pos;
          n = transferred e (min (length data) room) in
      if e = SysFail \<or> (data \<noteq> [] \<and> room = 0) then (-1, d)
      else (int n, d\<lparr>bytes := overwrite pos (take n data) (bytes d)\<rparr>))"

section \<open>blk_rw\<close>

text \<open>
  \<open>blk_rw\<close> returns its status, the buffer (changed by a read) and the device. It asks only whether
  the count is negative: a short transfer is success. A buffer smaller than \<open>len\<close> is overrun.
\<close>

definition blk_rw ::
  "dev \<Rightarrow> bool \<Rightarrow> int \<Rightarrow> byte list \<Rightarrow> nat \<Rightarrow> (int \<times> byte list \<times> dev) option" where
  "blk_rw d rw offset buf len =
     (if length buf < len then None else
      (let (pos, d) = lseek64_set offset d in
       if pos < 0 then Some (-1, buf, d)
       else if rw then
         (let (r, d) = sys_write (nat pos) (take len buf) d in
          Some (if r < 0 then r else 0, buf, d))
       else
         (case sys_read (nat pos) len d of
            (None, d) \<Rightarrow> Some (-1, buf, d)
          | (Some data, d) \<Rightarrow> Some (0, overwrite 0 data buf, d))))"

section \<open>Schedules\<close>

definition no_short :: "dev \<Rightarrow> bool" where
  "no_short d \<longleftrightarrow> list_all (\<lambda>e. \<forall>k. e \<noteq> SysShort k) (evs d)"

text \<open>
  \<open>same_dev d d'\<close>: the same medium and geometry, later in the schedule. \<open>later d d'\<close> also allows the medium
  to have changed, not its size.
\<close>

definition later :: "dev \<Rightarrow> dev \<Rightarrow> bool" where
  "later d d' \<longleftrightarrow> length (bytes d') = length (bytes d) \<and> ssz d' = ssz d \<and>
     (no_short d \<longrightarrow> no_short d') \<and> (evs d = [] \<longrightarrow> evs d' = [])"

definition same_dev :: "dev \<Rightarrow> dev \<Rightarrow> bool" where
  "same_dev d d' \<longleftrightarrow> later d d' \<and> bytes d' = bytes d"

lemma later_refl [simp]: "later d d"
  by (simp add: later_def)

lemma later_trans [trans]: "later a b \<Longrightarrow> later b c \<Longrightarrow> later a c"
  by (auto simp: later_def)

lemma same_dev_refl [simp]: "same_dev d d"
  by (simp add: same_dev_def)

lemma same_dev_trans [trans]: "same_dev a b \<Longrightarrow> same_dev b c \<Longrightarrow> same_dev a c"
  by (auto simp: same_dev_def intro: later_trans)

lemma same_dev_later: "same_dev d d' \<Longrightarrow> later d d'"
  by (simp add: same_dev_def)

lemmas dev_rel = same_dev_def later_def

lemma next_ev_same:
  "next_ev d = (e, d') \<Longrightarrow>
   same_dev d d' \<and> (evs d = [] \<longrightarrow> e = SysOk) \<and> (no_short d \<longrightarrow> e = SysOk \<or> e = SysFail)"
  by (cases "evs d"; cases e) (auto simp: next_ev_def dev_rel no_short_def)

section \<open>Rules for the calls\<close>

text \<open>
  One rule per call, for \<open>runs\<close> goals: the failure, possible only while the schedule is not
  empty, and the success. Used as introduction rules they walk through a function body.
\<close>

lemma runs_ioctl [runs_intro]:
  assumes "\<And>d'. same_dev d d' \<Longrightarrow> evs d \<noteq> [] \<Longrightarrow> runs (f None d') Q"
    and "\<And>d'. same_dev d d' \<Longrightarrow> runs (f (Some (ssz d)) d') Q"
  shows "runs (let (r, d') = ioctl_BLKSSZGET d in f r d') Q"
proof (cases "next_ev d")
  case (Pair e d')
  from next_ev_same [OF this] have "same_dev d d'" "evs d = [] \<longrightarrow> e = SysOk" by auto
  with assms show ?thesis
    by (auto simp: ioctl_BLKSSZGET_def Pair dev_rel)
qed

lemma runs_malloc [runs_intro]:
  assumes "\<And>d'. same_dev d d' \<Longrightarrow> evs d \<noteq> [] \<Longrightarrow> runs (f None d') Q"
    and "\<And>d' m. same_dev d d' \<Longrightarrow> length m = n \<Longrightarrow> runs (f (Some m) d') Q"
  shows "runs (let (r, d') = sys_malloc n d in f r d') Q"
proof (cases "next_ev d")
  case (Pair e d')
  from next_ev_same [OF this] have "same_dev d d'" "evs d = [] \<longrightarrow> e = SysOk" by auto
  with assms show ?thesis
    by (auto simp: sys_malloc_def Pair)
qed

lemma runs_calloc [runs_intro]:
  assumes "\<And>d'. same_dev d d' \<Longrightarrow> evs d \<noteq> [] \<Longrightarrow> runs (f None d') Q"
    and "\<And>d'. same_dev d d' \<Longrightarrow> runs (f (Some (replicate n 0)) d') Q"
  shows "runs (let (r, d') = sys_calloc n d in f r d') Q"
proof (cases "next_ev d")
  case (Pair e d')
  from next_ev_same [OF this] have "same_dev d d'" "evs d = [] \<longrightarrow> e = SysOk" by auto
  with assms show ?thesis
    by (auto simp: sys_calloc_def Pair)
qed

lemma runs_lseek_end [runs_intro]:
  assumes "\<And>d'. same_dev d d' \<Longrightarrow> evs d \<noteq> [] \<Longrightarrow> runs (f (-1) d') Q"
    and "\<And>d'. same_dev d d' \<Longrightarrow> runs (f (int (length (bytes d))) d') Q"
  shows "runs (let (r, d') = lseek64_end d in f r d') Q"
proof (cases "next_ev d")
  case (Pair e d')
  from next_ev_same [OF this] have "same_dev d d'" "evs d = [] \<longrightarrow> e = SysOk" by auto
  with assms show ?thesis
    by (auto simp: lseek64_end_def Pair dev_rel)
qed

lemma lseek64_set_cases:
  assumes "lseek64_set off d = (pos, d')"
  shows "same_dev d d'" and "pos = -1 \<or> pos = off \<and> 0 \<le> off \<and> off \<le> int (length (bytes d))"
    and "evs d = [] \<Longrightarrow> 0 \<le> off \<Longrightarrow> off \<le> int (length (bytes d)) \<Longrightarrow> pos = off"
proof -
  obtain e d1 where e: "next_ev d = (e, d1)" by (cases "next_ev d")
  note n = next_ev_same [OF e]
  from assms have "d' = d1" by (simp add: lseek64_set_def e)
  with n assms show "same_dev d d'" and "pos = -1 \<or> pos = off \<and> 0 \<le> off \<and> off \<le> int (length (bytes d))"
    and "evs d = [] \<Longrightarrow> 0 \<le> off \<Longrightarrow> off \<le> int (length (bytes d)) \<Longrightarrow> pos = off"
    by (auto simp: lseek64_set_def e dev_rel split: if_splits)
qed

lemma sys_read_cases:
  assumes "sys_read pos n d = (r, d')"
  shows "same_dev d d'" and "r = None \<or> (\<exists>k \<le> n. r = Some (seg pos k (bytes d)))"
    and "no_short d \<Longrightarrow> r = None \<or> r = Some (seg pos n (bytes d))"
    and "evs d = [] \<Longrightarrow> r \<noteq> None"
proof -
  obtain e d1 where e: "next_ev d = (e, d1)" by (cases "next_ev d")
  note s = next_ev_same [OF e]
  have d': "d' = d1" and r: "r = (if e = SysFail then None else Some (seg pos (transferred e n) (bytes d)))"
    using assms s by (auto simp: sys_read_def e dev_rel)
  show "same_dev d d'" using s d' by simp
  have "transferred e n \<le> n" by (cases e) simp_all
  then show "r = None \<or> (\<exists>k \<le> n. r = Some (seg pos k (bytes d)))" using r by auto
  show "no_short d \<Longrightarrow> r = None \<or> r = Some (seg pos n (bytes d))" using s r by auto
  show "evs d = [] \<Longrightarrow> r \<noteq> None" using s r by auto
qed

lemma sys_write_cases:
  assumes "sys_write pos data d = (r, d')"
  shows "r = -1 \<and> same_dev d d' \<or>
     (\<exists>n \<le> length data. r = int n \<and> later d d' \<and> (data = [] \<or> pos < length (bytes d)) \<and>
        n \<le> length (bytes d) - pos \<and> bytes d' = overwrite pos (take n data) (bytes d) \<and>
        (no_short d \<longrightarrow> n = min (length data) (length (bytes d) - pos)))"
    and "evs d = [] \<Longrightarrow> data = [] \<or> pos < length (bytes d) \<Longrightarrow> r \<noteq> -1"
proof -
  obtain e d1 where e: "next_ev d = (e, d1)" by (cases "next_ev d")
  note s = next_ev_same [OF e]
  then have b: "bytes d1 = bytes d" by (simp add: dev_rel)
  define n where "n = transferred e (min (length data) (length (bytes d) - pos))"
  have n: "n \<le> length data" "n \<le> length (bytes d) - pos"
    unfolding n_def by (cases e; simp)+
  have r: "(r, d') = (if e = SysFail \<or> data \<noteq> [] \<and> length (bytes d) - pos = 0 then (-1, d1)
     else (int n, d1\<lparr>bytes := overwrite pos (take n data) (bytes d)\<rparr>))"
    using assms by (auto simp: sys_write_def e b n_def Let_def)
  have l: "data = [] \<or> pos < length (bytes d) \<Longrightarrow>
      length (overwrite pos (take n data) (bytes d)) = length (bytes d)"
    using n by (cases "data = []") auto
  have m: "no_short d \<Longrightarrow> e \<noteq> SysFail \<Longrightarrow> n = min (length data) (length (bytes d) - pos)"
    using s by (auto simp: n_def)
  show "evs d = [] \<Longrightarrow> data = [] \<or> pos < length (bytes d) \<Longrightarrow> r \<noteq> -1"
    using r s by (auto split: if_splits)
  show "r = -1 \<and> same_dev d d' \<or>
     (\<exists>n \<le> length data. r = int n \<and> later d d' \<and> (data = [] \<or> pos < length (bytes d)) \<and>
        n \<le> length (bytes d) - pos \<and> bytes d' = overwrite pos (take n data) (bytes d) \<and>
        (no_short d \<longrightarrow> n = min (length data) (length (bytes d) - pos)))"
  proof (cases "e = SysFail \<or> data \<noteq> [] \<and> length (bytes d) - pos = 0")
    case True
    then show ?thesis using r s by simp
  next
    case False
    then have "later d d'" using r s l by (auto simp: dev_rel no_short_def)
    then show ?thesis using False r n m by (intro disjI2 exI [of _ n]) auto
  qed
qed

text \<open>A transfer that lies inside the device, with no short transfers in the schedule.\<close>

lemma runs_blk_read:
  assumes "no_short d" and "length buf = len" and "0 \<le> off" and "nat off + len \<le> length (bytes d)"
    and fail: "\<And>d'. same_dev d d' \<Longrightarrow> evs d \<noteq> [] \<Longrightarrow> Q (-1, buf, d')"
    and ok: "\<And>d'. same_dev d d' \<Longrightarrow> Q (0, seg (nat off) len (bytes d), d')"
  shows "runs (blk_rw d False off buf len) Q"
proof -
  obtain pos d1 where p: "lseek64_set off d = (pos, d1)" by (cases "lseek64_set off d")
  note c = lseek64_set_cases [OF p]
  obtain r d2 where r: "sys_read (nat off) len d1 = (r, d2)" by (cases "sys_read (nat off) len d1")
  note R = sys_read_cases [OF r]
  have s: "same_dev d d2" using c(1) R(1) same_dev_trans by blast
  have full: "overwrite 0 (seg (nat off) len (bytes d)) buf = seg (nat off) len (bytes d)"
    using assms(2,4) by (simp add: overwrite_def min_def)
  consider "pos < 0" "evs d \<noteq> []" | "pos = off" "r = None" "evs d \<noteq> []"
    | "pos = off" "r = Some (seg (nat off) len (bytes d))"
  proof (cases "pos = off")
    case True
    have "no_short d1" "bytes d1 = bytes d" "evs d = [] \<Longrightarrow> evs d1 = []"
      using c(1) assms(1) by (auto simp: dev_rel)
    then show ?thesis using R(3,4) that(2,3) True by auto
  next
    case False
    moreover have "off \<le> int (length (bytes d))" using assms(3,4) by linarith
    ultimately show ?thesis using that(1) c(2,3) assms(3) by auto
  qed
  then show ?thesis
  proof cases
    case 1
    then show ?thesis using assms(2) fail [OF c(1)] by (simp add: blk_rw_def p)
  next
    case 2
    then show ?thesis using assms(2,3) fail [OF s] by (simp add: blk_rw_def p r)
  next
    case 3
    then show ?thesis using assms(2,3) ok [OF s] full by (simp add: blk_rw_def p r)
  qed
qed

lemma runs_blk_write:
  assumes "no_short d" and "len \<le> length buf" and "0 \<le> off" and "nat off + len \<le> length (bytes d)"
    and fail: "\<And>d'. same_dev d d' \<Longrightarrow> evs d \<noteq> [] \<Longrightarrow> Q (-1, buf, d')"
    and ok: "\<And>d'. later d d' \<Longrightarrow> bytes d' = overwrite (nat off) (take len buf) (bytes d) \<Longrightarrow> Q (0, buf, d')"
  shows "runs (blk_rw d True off buf len) Q"
proof -
  obtain pos d1 where p: "lseek64_set off d = (pos, d1)" by (cases "lseek64_set off d")
  note c = lseek64_set_cases [OF p]
  obtain r d2 where r: "sys_write (nat off) (take len buf) d1 = (r, d2)"
    by (cases "sys_write (nat off) (take len buf) d1")
  note W = sys_write_cases [OF r]
  have d1: "bytes d1 = bytes d" "no_short d1" "evs d = [] \<Longrightarrow> evs d1 = []"
    using c(1) assms(1) by (auto simp: dev_rel)
  consider "pos < 0" "evs d \<noteq> []" | "pos = off" "r = -1" "same_dev d1 d2" "evs d \<noteq> []"
    | "pos = off" "r = int len" "later d1 d2" "bytes d2 = overwrite (nat off) (take len buf) (bytes d)"
  proof (cases "pos = off")
    case True
    show ?thesis
    proof (cases "r = -1")
      case True
      then have "same_dev d1 d2" using W(1) by auto
      moreover have "evs d \<noteq> []" using W(2) d1 assms(2,4) True by (cases "len = 0") auto
      ultimately show ?thesis using that(2) True \<open>pos = off\<close> by blast
    next
      case False
      then show ?thesis using W(1) d1 assms(2,4) that(3) True by auto
    qed
  next
    case False
    moreover have "off \<le> int (length (bytes d))" using assms(3,4) by linarith
    ultimately show ?thesis using that(1) c(2,3) assms(3) by auto
  qed
  then show ?thesis
  proof cases
    case 1
    then show ?thesis using assms(2) fail [OF c(1)] by (simp add: blk_rw_def p)
  next
    case 2
    then show ?thesis using assms(2,3) fail [OF same_dev_trans [OF c(1)]] by (simp add: blk_rw_def p r)
  next
    case 3
    moreover have "later d d2" using c(1) 3(3) later_trans by (auto simp: same_dev_def)
    ultimately show ?thesis using assms(2,3) ok by (simp add: blk_rw_def p r)
  qed
qed

text \<open>
  The same rules relative to a device \<open>d0\<close> at which a function started and whose medium has not changed
  since: applied one after the other they keep every fact about \<open>d0\<close>.
\<close>

lemma same_dev_facts:
  assumes "same_dev d0 d"
  shows "ssz d = ssz d0" "bytes d = bytes d0" "evs d \<noteq> [] \<Longrightarrow> evs d0 \<noteq> []" "no_short d0 \<Longrightarrow> no_short d"
  using assms by (auto simp: dev_rel)

lemma runs_ioctl_from:
  assumes "same_dev d0 d"
    and "\<And>d'. same_dev d0 d' \<Longrightarrow> evs d0 \<noteq> [] \<Longrightarrow> runs (f None d') Q"
    and "\<And>d'. same_dev d0 d' \<Longrightarrow> runs (f (Some (ssz d0)) d') Q"
  shows "runs (let (r, d') = ioctl_BLKSSZGET d in f r d') Q"
  using assms same_dev_trans [OF assms(1)] same_dev_facts [OF assms(1)] by (intro runs_ioctl) auto

lemma runs_malloc_from:
  assumes "same_dev d0 d"
    and "\<And>d'. same_dev d0 d' \<Longrightarrow> evs d0 \<noteq> [] \<Longrightarrow> runs (f None d') Q"
    and "\<And>d' m. same_dev d0 d' \<Longrightarrow> length m = n \<Longrightarrow> runs (f (Some m) d') Q"
  shows "runs (let (r, d') = sys_malloc n d in f r d') Q"
  using assms same_dev_trans [OF assms(1)] same_dev_facts [OF assms(1)] by (intro runs_malloc) auto

lemma runs_calloc_from:
  assumes "same_dev d0 d"
    and "\<And>d'. same_dev d0 d' \<Longrightarrow> evs d0 \<noteq> [] \<Longrightarrow> runs (f None d') Q"
    and "\<And>d'. same_dev d0 d' \<Longrightarrow> runs (f (Some (replicate n 0)) d') Q"
  shows "runs (let (r, d') = sys_calloc n d in f r d') Q"
  using assms same_dev_trans [OF assms(1)] same_dev_facts [OF assms(1)] by (intro runs_calloc) auto

lemma runs_lseek_end_from:
  assumes "same_dev d0 d"
    and "\<And>d'. same_dev d0 d' \<Longrightarrow> evs d0 \<noteq> [] \<Longrightarrow> runs (f (-1) d') Q"
    and "\<And>d'. same_dev d0 d' \<Longrightarrow> runs (f (int (length (bytes d0))) d') Q"
  shows "runs (let (r, d') = lseek64_end d in f r d') Q"
  using assms same_dev_trans [OF assms(1)] same_dev_facts [OF assms(1)] by (intro runs_lseek_end) auto

lemma runs_blk_read_from:
  assumes "same_dev d0 d" and "no_short d0" and "length buf = len" and "0 \<le> off" and "nat off + len \<le> length (bytes d0)"
    and "\<And>d'. same_dev d0 d' \<Longrightarrow> evs d0 \<noteq> [] \<Longrightarrow> Q (-1, buf, d')"
    and "\<And>d'. same_dev d0 d' \<Longrightarrow> Q (0, seg (nat off) len (bytes d0), d')"
  shows "runs (blk_rw d False off buf len) Q"
  using assms same_dev_trans [OF assms(1)] same_dev_facts [OF assms(1)] by (intro runs_blk_read) auto

lemma runs_blk_write_from:
  assumes "same_dev d0 d" and "no_short d0" and "len \<le> length buf" and "0 \<le> off" and "nat off + len \<le> length (bytes d0)"
    and "\<And>d'. same_dev d0 d' \<Longrightarrow> evs d0 \<noteq> [] \<Longrightarrow> Q (-1, buf, d')"
    and "\<And>d'. later d0 d' \<Longrightarrow> bytes d' = overwrite (nat off) (take len buf) (bytes d0) \<Longrightarrow> Q (0, buf, d')"
  shows "runs (blk_rw d True off buf len) Q"
proof -
  have "later d0 d" using assms(1) by (simp add: same_dev_def)
  from later_trans [OF this] assms same_dev_trans [OF assms(1)] same_dev_facts [OF assms(1)]
  show ?thesis by (intro runs_blk_write) auto
qed

text \<open>
  Without the hypothesis on the schedule: whatever happens, \<open>blk_rw\<close> keeps the size of the medium
  and of the buffer, and a read keeps the medium.
\<close>

lemma blk_rw_frame:
  assumes "blk_rw d rw off buf len = Some (r, buf', d')"
  shows "later d d'" and "length buf' = length buf" and "\<not> rw \<Longrightarrow> same_dev d d'" and "r = 0 \<or> r = -1"
proof -
  have len: "len \<le> length buf" using assms by (simp add: blk_rw_def split: if_splits)
  obtain pos d1 where p: "lseek64_set off d = (pos, d1)" by (cases "lseek64_set off d")
  note c = lseek64_set_cases [OF p]
  have l: "later d d1" using c(1) by (simp add: same_dev_def)
  have "later d d' \<and> length buf' = length buf \<and> (\<not> rw \<longrightarrow> same_dev d d') \<and> (r = 0 \<or> r = -1)"
  proof (cases "pos < 0")
    case True
    then show ?thesis using assms len c(1) l by (simp add: blk_rw_def p)
  next
    case pos: False
    show ?thesis
    proof (cases rw)
      case True
      obtain r2 d2 where r2: "sys_write (nat pos) (take len buf) d1 = (r2, d2)"
        by (cases "sys_write (nat pos) (take len buf) d1")
      with assms len pos True have "r = (if r2 < 0 then r2 else 0)" "buf' = buf" "d' = d2"
        by (auto simp: blk_rw_def p)
      moreover have "later d1 d2" "r2 = -1 \<or> 0 \<le> r2"
        using sys_write_cases(1) [OF r2] by (auto simp: same_dev_def)
      ultimately show ?thesis using True later_trans [OF l, of d2] by auto
    next
      case False
      obtain r2 d2 where r2: "sys_read (nat pos) len d1 = (r2, d2)"
        by (cases "sys_read (nat pos) len d1")
      note R = sys_read_cases [OF r2]
      have s: "same_dev d d2" using c(1) R(1) same_dev_trans by blast
      show ?thesis
      proof (cases r2)
        case None
        then show ?thesis using assms len pos False r2 s by (simp add: blk_rw_def p same_dev_def)
      next
        case (Some dat)
        then have "length dat \<le> length buf" using R(2) len by auto
        then show ?thesis using assms len pos False r2 s Some by (auto simp: blk_rw_def p same_dev_def)
      qed
    qed
  qed
  then show "later d d'" "length buf' = length buf" "\<not> rw \<Longrightarrow> same_dev d d'" "r = 0 \<or> r = -1" by auto
qed

end
