(* ===== verification/Gpt_Entries.thy ===== *)
theory Gpt_Entries
  imports Block_Device "HOL-Library.Multiset"
begin

text \<open>
  The partition entry array: \<open>gpt_pentry_seek\<close> and \<open>gpt_boot_chain_swap\<close> of \<open>gpt-utils.cpp\<close>, an abstract
  specification of both on a list of entries, and the refinement between the two.
\<close>

section \<open>The functions\<close>

definition BAK_PTN_NAME_EXT :: string where "BAK_PTN_NAME_EXT = ''bak''"
definition PTN_XBL :: string where "PTN_XBL = ''xbl''"
definition PTN_XBL_CFG :: string where "PTN_XBL_CFG = ''xbl_config''"
definition PTN_MULTIIMGOEM :: string where "PTN_MULTIIMGOEM = ''multiimgoem''"
definition PTN_MULTIIMGQTI :: string where "PTN_MULTIIMGQTI = ''multiimgqti''"

definition PTN_SWAP_LIST :: "string list" where
  "PTN_SWAP_LIST =
     [PTN_XBL, PTN_XBL_CFG, PTN_MULTIIMGOEM, PTN_MULTIIMGQTI, ''sbl1'', ''rpm'', ''tz'', ''aboot'', ''abl'',
      ''hyp'', ''lksecapp'', ''keymaster'', ''cmnlib'', ''cmnlib32'', ''cmnlib64'', ''pmic'', ''apdp'',
      ''devcfg'', ''hosd'', ''keystore'', ''msadp'', ''mdtp'', ''mdtpsecapp'', ''dsp'', ''aop'', ''qupfw'',
      ''vbmeta'', ''dtbo'', ''imagefv'', ''ImageFv'', ''vm-bootsys'', ''shrm'', ''cpucp'']"

text \<open>
  The local \<open>name8\<close>: the low bytes of the 36 UTF-16 units of the name, then NULs. The last byte
  read is at offset 70 of the name.
\<close>

definition name8_at :: "byte list \<Rightarrow> nat \<Rightarrow> string option" where
  "name8_at buf pentry_name =
     (if pentry_name + 70 < length buf then
        Some (map (\<lambda>i. char_of_byte (buf ! (pentry_name + i * 2))) [0..<MAX_GPT_NAME_SIZE div 2]
              @ replicate (MAX_GPT_NAME_SIZE - MAX_GPT_NAME_SIZE div 2) NUL)
      else None)"

text \<open>\<open>name8[len]\<close> is read only when the first \<open>len\<close> characters agree, so it is inside the array.\<close>

definition ptn_name_matches :: "string \<Rightarrow> string \<Rightarrow> bool" where
  "ptn_name_matches ptn_name name8 \<longleftrightarrow>
     strncmp_eq ptn_name name8 (strlen ptn_name) \<and>
     (name8 ! strlen ptn_name = NUL \<or> strcmp_eq (drop (strlen ptn_name) name8) BAK_PTN_NAME_EXT)"

text \<open>
  The loop. A pointer into the array is an offset; \<open>Some None\<close> is NULL. With an entry size of 0 a
  round that does not match is repeated for ever: \<open>None\<close>, as for a read outside the array.
\<close>

function gpt_pentry_loop :: "string \<Rightarrow> byte list \<Rightarrow> nat \<Rightarrow> nat \<Rightarrow> nat \<Rightarrow> nat option option" where
  "gpt_pentry_loop ptn_name buf pentry_name pentries_end pentry_size =
     (if pentry_name < pentries_end then
        (case name8_at buf pentry_name of
           None \<Rightarrow> None
         | Some name8 \<Rightarrow>
             if ptn_name_matches ptn_name name8
             then Some (Some (pentry_name - PARTITION_NAME_OFFSET))
             else if pentry_size = 0 then None
             else gpt_pentry_loop ptn_name buf (pentry_name + pentry_size) pentries_end pentry_size)
      else Some None)"
  by pat_completeness auto
termination
  by (relation "measure (\<lambda>(n, b, p, e, s). e - p)") auto

declare gpt_pentry_loop.simps [simp del]

definition gpt_pentry_seek :: "string \<Rightarrow> byte list \<Rightarrow> nat \<Rightarrow> nat \<Rightarrow> nat \<Rightarrow> nat option option" where
  "gpt_pentry_seek ptn_name buf pentries_start pentries_end pentry_size =
     gpt_pentry_loop ptn_name buf (pentries_start + PARTITION_NAME_OFFSET) pentries_end pentry_size"

text \<open>\<open>memcpy\<close> between two places of one block: both inside it and not overlapping.\<close>

definition memcpy_in :: "byte list \<Rightarrow> nat \<Rightarrow> nat \<Rightarrow> nat \<Rightarrow> byte list option" where
  "memcpy_in buf dst src n =
     (if dst + n \<le> length buf \<and> src + n \<le> length buf \<and> (dst + n \<le> src \<or> src + n \<le> dst)
      then Some (overwrite dst (seg src n buf) buf) else None)"

definition swap_pentries :: "byte list \<Rightarrow> nat \<Rightarrow> nat \<Rightarrow> byte list option" where
  "swap_pentries buf ptn_entry ptn_bak_entry =
     (if ptn_entry + PTN_ENTRY_SIZE \<le> length buf then
        (let ptn_swap = seg ptn_entry PTN_ENTRY_SIZE buf in
         do {
           buf \<leftarrow> memcpy_in buf ptn_entry ptn_bak_entry PTN_ENTRY_SIZE;
           Some (overwrite ptn_bak_entry ptn_swap buf)
         })
      else None)"

definition xbl_or_multiimg :: "string \<Rightarrow> bool" where
  "xbl_or_multiimg ptn \<longleftrightarrow>
     strncmp_eq ptn PTN_XBL (strlen PTN_XBL) \<or>
     strncmp_eq ptn PTN_MULTIIMGOEM (strlen PTN_MULTIIMGOEM) \<or>
     strncmp_eq ptn PTN_MULTIIMGQTI (strlen PTN_MULTIIMGQTI)"

fun boot_chain_swap_loop ::
  "bool \<Rightarrow> string list \<Rightarrow> byte list \<Rightarrow> nat \<Rightarrow> nat \<Rightarrow> nat \<Rightarrow> int \<Rightarrow> (int \<times> byte list) option" where
  "boot_chain_swap_loop is_ufs [] buf pstart pend psize backup_not_found = Some (backup_not_found, buf)"
| "boot_chain_swap_loop is_ufs (ptn # ptns) buf pstart pend psize backup_not_found =
     (if is_ufs \<and> xbl_or_multiimg ptn
      then boot_chain_swap_loop is_ufs ptns buf pstart pend psize backup_not_found
      else do {
        ptn_entry \<leftarrow> gpt_pentry_seek ptn buf pstart pend psize;
        (case ptn_entry of
           None \<Rightarrow> boot_chain_swap_loop is_ufs ptns buf pstart pend psize backup_not_found
         | Some e \<Rightarrow> do {
             ptn_bak_entry \<leftarrow> gpt_pentry_seek ptn buf (e + psize) pend psize;
             (case ptn_bak_entry of
                None \<Rightarrow> boot_chain_swap_loop is_ufs ptns buf pstart pend psize backup_not_found
              | Some b \<Rightarrow> do {
                  buf \<leftarrow> swap_pentries buf e b;
                  boot_chain_swap_loop is_ufs ptns buf pstart pend psize 0
                })
           })
      })"

definition gpt_boot_chain_swap ::
  "bool \<Rightarrow> byte list \<Rightarrow> nat \<Rightarrow> nat \<Rightarrow> nat \<Rightarrow> (int \<times> byte list) option" where
  "gpt_boot_chain_swap is_ufs buf pentries_start pentries_end pentry_size =
     boot_chain_swap_loop is_ufs PTN_SWAP_LIST buf pentries_start pentries_end pentry_size 1"

section \<open>Names\<close>

lemma cstr_drop:
  assumes "k \<le> length (cstr s)"
  shows "cstr (drop k s) = drop k (cstr s)"
  using assms
proof (induction k arbitrary: s)
  case (Suc k)
  then obtain c s' where "s = c # s'" "c \<noteq> NUL"
    by (cases s) (auto simp: cstr_def split: if_splits)
  with Suc show ?case by (simp add: cstr_def)
qed simp

lemma length_cstr_nth:
  assumes "k \<le> length (cstr s)" and "k < length s"
  shows "s ! k = NUL \<longleftrightarrow> length (cstr s) = k"
proof
  assume "s ! k = NUL"
  have "\<not> k < length (cstr s)"
  proof
    assume "k < length (cstr s)"
    then have "cstr s ! k = s ! k" by (simp add: cstr_def takeWhile_nth)
    with \<open>s ! k = NUL\<close> \<open>k < length (cstr s)\<close> NUL_notin_cstr nth_mem show False by metis
  qed
  with assms show "length (cstr s) = k" by simp
next
  assume "length (cstr s) = k"
  with assms show "s ! k = NUL" by (auto simp: cstr_def dest: nth_length_takeWhile)
qed

text \<open>What the two tests mean together: the entry is called \<open>n\<close>, or \<open>n\<close> followed by \<open>bak\<close>.\<close>

lemma ptn_name_matches_iff:
  assumes "NUL \<notin> set n" and "length (cstr name8) < length name8"
  shows "ptn_name_matches n name8 \<longleftrightarrow> cstr name8 = n \<or> cstr name8 = n @ ''bak''"
proof (cases "take (length n) (cstr name8) = n")
  case True
  then have le: "length n \<le> length (cstr name8)" by (metis length_take min.cobounded1 min.commute)
  have split: "cstr name8 = n @ drop (length n) (cstr name8)"
    using True append_take_drop_id by metis
  have "name8 ! length n = NUL \<longleftrightarrow> cstr name8 = n"
    using length_cstr_nth [OF le] le assms(2) True by auto
  moreover have "strcmp_eq (drop (length n) name8) ''bak'' \<longleftrightarrow> cstr name8 = n @ ''bak''"
    using cstr_drop [OF le] split by (auto simp: strcmp_eq_def NUL_def)
  ultimately show ?thesis
    using True assms(1) by (simp add: ptn_name_matches_def strncmp_eq_prefix strlen_def BAK_PTN_NAME_EXT_def)
next
  case False
  then show ?thesis
    using assms(1) by (auto simp: ptn_name_matches_def strncmp_eq_prefix strlen_def)
qed

section \<open>The array as a list of entries\<close>

definition pentry_list :: "byte list \<Rightarrow> byte list list" where
  "pentry_list buf = map (\<lambda>k. seg (PTN_ENTRY_SIZE * k) PTN_ENTRY_SIZE buf) [0..<length buf div PTN_ENTRY_SIZE]"

definition pentry_name :: "byte list \<Rightarrow> string" where
  "pentry_name e = cstr (map (\<lambda>i. char_of_byte (e ! (PARTITION_NAME_OFFSET + i * 2)))
       [0..<MAX_GPT_NAME_SIZE div 2])"

definition named :: "string \<Rightarrow> byte list \<Rightarrow> bool" where
  "named n e \<longleftrightarrow> pentry_name e = n \<or> pentry_name e = n @ ''bak''"

definition first_from :: "('a \<Rightarrow> bool) \<Rightarrow> nat \<Rightarrow> 'a list \<Rightarrow> nat option" where
  "first_from P k xs = find (\<lambda>j. P (xs ! j)) [k..<length xs]"

lemma first_from_rec:
  "first_from P k xs =
     (if k < length xs then (if P (xs ! k) then Some k else first_from P (Suc k) xs) else None)"
  by (auto simp: first_from_def upt_rec)

lemma first_from_Some:
  "first_from P k xs = Some j \<longleftrightarrow>
     k \<le> j \<and> j < length xs \<and> P (xs ! j) \<and> (\<forall>i. k \<le> i \<and> i < j \<longrightarrow> \<not> P (xs ! i))"
proof
  assume "first_from P k xs = Some j"
  then obtain i where i: "i < length xs - k" "P (xs ! ([k..<length xs] ! i))" "j = [k..<length xs] ! i"
    "\<forall>l<i. \<not> P (xs ! ([k..<length xs] ! l))"
    by (auto simp: first_from_def find_Some_iff)
  have "\<not> P (xs ! m)" if "k \<le> m" "m < j" for m
  proof -
    have "m - k < i" using that i by auto
    moreover have "[k..<length xs] ! (m - k) = m" using \<open>m - k < i\<close> i(1) that(1) by simp
    ultimately show ?thesis using i(4) by metis
  qed
  then show "k \<le> j \<and> j < length xs \<and> P (xs ! j) \<and> (\<forall>i. k \<le> i \<and> i < j \<longrightarrow> \<not> P (xs ! i))"
    using i by auto
next
  assume "k \<le> j \<and> j < length xs \<and> P (xs ! j) \<and> (\<forall>i. k \<le> i \<and> i < j \<longrightarrow> \<not> P (xs ! i))"
  then show "first_from P k xs = Some j"
    by (auto simp: first_from_def find_Some_iff intro!: exI [of _ "j - k"])
qed

lemma first_from_None:
  "first_from P k xs = None \<longleftrightarrow> (\<forall>i. k \<le> i \<and> i < length xs \<longrightarrow> \<not> P (xs ! i))"
  by (auto simp: first_from_def find_None_iff)

lemma length_pentry_list [simp]: "length (pentry_list buf) = length buf div 128"
  by (simp add: pentry_list_def gpt_offsets)

lemma nth_pentries: "k < length buf div 128 \<Longrightarrow> pentry_list buf ! k = seg (128 * k) 128 buf"
  by (simp add: pentry_list_def gpt_offsets)

lemma cstr_append_NUL: "cstr (xs @ replicate m NUL) = cstr xs"
proof (induction xs)
  case Nil
  show ?case by (cases m) (simp_all add: cstr_def)
qed (simp add: cstr_def)

lemma length_cstr_name8:
  "length (cstr (xs @ replicate (Suc m) NUL)) < length (xs @ replicate (Suc m) NUL)"
  using length_takeWhile_le [of "\<lambda>c. c \<noteq> NUL" xs]
  by (subst cstr_append_NUL) (simp add: cstr_def)

lemma name8_at_pentry:
  assumes "k < length buf div 128"
  shows "\<exists>name8. name8_at buf (128 * k + 56) = Some name8 \<and>
     length (cstr name8) < length name8 \<and> cstr name8 = pentry_name (pentry_list buf ! k)"
proof -
  let ?h = "MAX_GPT_NAME_SIZE div 2"
  let ?xs = "map (\<lambda>i. char_of_byte (buf ! (128 * k + 56 + i * 2))) [0..<?h]"
  have in_range: "128 * k + 128 \<le> length buf" using assms by linarith
  have h: "?h = 36" and rest: "MAX_GPT_NAME_SIZE - ?h = Suc 35" by (simp_all add: MAX_GPT_NAME_SIZE_def)
  have name8: "name8_at buf (128 * k + 56) = Some (?xs @ replicate (Suc 35) NUL)"
    using in_range rest by (simp add: name8_at_def)
  have "buf ! (128 * k + 56 + i * 2) = pentry_list buf ! k ! (PARTITION_NAME_OFFSET + i * 2)" if "i < ?h" for i
    using that assms in_range h by (simp add: nth_pentries nth_seg PARTITION_NAME_OFFSET_def add.assoc)
  then have "cstr ?xs = pentry_name (pentry_list buf ! k)"
    unfolding pentry_name_def by (intro arg_cong [of _ _ cstr] map_cong) auto
  then show ?thesis
    using name8 length_cstr_name8 [of ?xs 35] cstr_append_NUL [of ?xs "Suc 35"]
    by (intro exI [of _ "?xs @ replicate (Suc 35) NUL"] conjI) (simp_all only:)
qed

section \<open>The search\<close>

text \<open>
  On an array of whole 128-byte entries the search is the search for the first named entry from
  the given index on.
\<close>

lemma gpt_pentry_seek_refines:
  assumes "length buf = 128 * m" and "NUL \<notin> set n"
  shows "gpt_pentry_seek n buf (128 * k) (length buf) 128 =
    Some (map_option ((*) 128) (first_from (named n) k (pentry_list buf)))"
proof -
  have "gpt_pentry_loop n buf (128 * k + 56) (length buf) 128 =
      Some (map_option ((*) 128) (first_from (named n) k (pentry_list buf)))"
  proof (induction "m - k" arbitrary: k)
    case 0
    then have "\<not> 128 * k + 56 < length buf" using assms(1) by simp
    moreover have "first_from (named n) k (pentry_list buf) = None"
      using 0 assms(1) by (subst first_from_rec) simp
    ultimately show ?case by (subst gpt_pentry_loop.simps) simp
  next
    case (Suc l)
    then have k: "k < length buf div 128" and lt: "128 * k + 56 < length buf"
      using assms(1) by auto
    from name8_at_pentry [OF k] obtain name8 where name8: "name8_at buf (128 * k + 56) = Some name8"
      "length (cstr name8) < length name8" "cstr name8 = pentry_name (pentry_list buf ! k)" by blast
    then have match: "ptn_name_matches n name8 \<longleftrightarrow> named n (pentry_list buf ! k)"
      using ptn_name_matches_iff [OF assms(2)] by (simp add: named_def)
    have "gpt_pentry_loop n buf (128 * Suc k + 56) (length buf) 128 =
        Some (map_option ((*) 128) (first_from (named n) (Suc k) (pentry_list buf)))"
      using Suc.hyps by (intro Suc.hyps(1)) simp
    then show ?case
      using k lt name8(1) match
      by (subst gpt_pentry_loop.simps, subst first_from_rec)
        (simp add: PARTITION_NAME_OFFSET_def algebra_simps)
  qed
  then show ?thesis by (simp add: gpt_pentry_seek_def PARTITION_NAME_OFFSET_def)
qed

section \<open>The swap\<close>

text \<open>
  The specification: for every name, in order, exchange the first two entries that carry it. Its
  status is 0 once some pair has been exchanged.
\<close>

definition first_pair :: "('a \<Rightarrow> bool) \<Rightarrow> 'a list \<Rightarrow> (nat \<times> nat) option" where
  "first_pair P es =
     (case first_from P 0 es of
        None \<Rightarrow> None
      | Some i \<Rightarrow> map_option (Pair i) (first_from P (Suc i) es))"

definition exchange :: "('a \<Rightarrow> bool) \<Rightarrow> 'a list \<Rightarrow> 'a list" where
  "exchange P es = (case first_pair P es of None \<Rightarrow> es | Some (i, j) \<Rightarrow> es[i := es ! j, j := es ! i])"

definition backup_pair :: "string \<Rightarrow> byte list list \<Rightarrow> (nat \<times> nat) option" where
  "backup_pair n = first_pair (named n)"

definition swap_step :: "string \<Rightarrow> byte list list \<Rightarrow> byte list list" where
  "swap_step n = exchange (named n)"

fun chain_swap :: "string list \<Rightarrow> byte list list \<Rightarrow> int \<Rightarrow> int \<times> byte list list" where
  "chain_swap [] es f = (f, es)"
| "chain_swap (n # ns) es f =
     chain_swap ns (swap_step n es) (if backup_pair n es = None then f else 0)"

definition swapped_names :: "bool \<Rightarrow> string list" where
  "swapped_names is_ufs = filter (\<lambda>n. \<not> (is_ufs \<and> xbl_or_multiimg n)) PTN_SWAP_LIST"

lemma first_pair_SomeD:
  "first_pair P es = Some (i, j) \<Longrightarrow> i < j \<and> j < length es \<and> P (es ! i) \<and> P (es ! j)"
  by (auto simp: first_pair_def first_from_Some split: option.splits)

lemma pentry_list_overwrite:
  assumes "length buf = 128 * m" and "k < m" and "length e = 128"
  shows "pentry_list (overwrite (128 * k) e buf) = (pentry_list buf)[k := e]"
proof (rule nth_equalityI)
  have len: "128 * k + length e \<le> length buf" using assms by simp
  then show "length (pentry_list (overwrite (128 * k) e buf)) = length ((pentry_list buf)[k := e])" by simp
  fix i assume "i < length (pentry_list (overwrite (128 * k) e buf))"
  then have i: "i < m" using len assms(1) by simp
  show "pentry_list (overwrite (128 * k) e buf) ! i = (pentry_list buf)[k := e] ! i"
  proof (cases "i = k")
    case True
    then show ?thesis using i len assms by (simp add: nth_pentries seg_overwrite_same)
  next
    case False
    then have "128 * i + 128 \<le> 128 * k \<or> 128 * k + length e \<le> 128 * i" using assms(3) by linarith
    then show ?thesis using i len assms False by (simp add: nth_pentries seg_overwrite_disjoint)
  qed
qed

lemma swap_pentries_refines:
  assumes "length buf = 128 * m" and "i < j" and "j < m"
  shows "\<exists>buf'. swap_pentries buf (128 * i) (128 * j) = Some buf' \<and> length buf' = length buf \<and>
     pentry_list buf' = (pentry_list buf)[i := pentry_list buf ! j, j := pentry_list buf ! i]"
proof -
  let ?b1 = "overwrite (128 * i) (seg (128 * j) 128 buf) buf"
  let ?b2 = "overwrite (128 * j) (seg (128 * i) 128 buf) ?b1"
  have ij: "128 * i + 128 \<le> 128 * j" "128 * j + 128 \<le> length buf" using assms by linarith+
  then have l: "length (seg (128 * j) 128 buf) = 128" "length (seg (128 * i) 128 buf) = 128" by simp_all
  then have l1: "length ?b1 = length buf" using ij by simp
  have l2: "length ?b2 = length buf" using ij l l1 by simp
  have "pentry_list ?b1 = (pentry_list buf)[i := seg (128 * j) 128 buf]"
    using assms l by (intro pentry_list_overwrite [OF assms(1)]) auto
  moreover have "pentry_list ?b2 = (pentry_list ?b1)[j := seg (128 * i) 128 buf]"
    using assms l by (intro pentry_list_overwrite [OF trans [OF l1 assms(1)]]) auto
  moreover have "seg (128 * j) 128 buf = pentry_list buf ! j" "seg (128 * i) 128 buf = pentry_list buf ! i"
    using assms by (simp_all add: nth_pentries)
  ultimately have "pentry_list ?b2 = (pentry_list buf)[i := pentry_list buf ! j, j := pentry_list buf ! i]"
    by (simp only:)
  moreover have "swap_pentries buf (128 * i) (128 * j) = Some ?b2"
    using ij by (simp add: swap_pentries_def memcpy_in_def PTN_ENTRY_SIZE_def)
  ultimately show ?thesis using l2 by blast
qed

text \<open>The code's loop computes the specification, and never leaves the array.\<close>

lemma boot_chain_swap_loop_refines:
  assumes "length buf = 128 * m" and "\<forall>n \<in> set ns. NUL \<notin> set n"
  shows "\<exists>f' buf'. boot_chain_swap_loop is_ufs ns buf 0 (length buf) 128 f = Some (f', buf') \<and>
     length buf' = length buf \<and>
     (f', pentry_list buf') = chain_swap (filter (\<lambda>n. \<not> (is_ufs \<and> xbl_or_multiimg n)) ns) (pentry_list buf) f"
  using assms
proof (induction ns arbitrary: buf f)
  case (Cons n ns)
  show ?case
  proof (cases "is_ufs \<and> xbl_or_multiimg n")
    case True
    then show ?thesis using Cons by simp
  next
    case False
    have NUL: "NUL \<notin> set n" using Cons.prems by simp
    note seek = gpt_pentry_seek_refines [OF Cons.prems(1) NUL]
    show ?thesis
    proof (cases "backup_pair n (pentry_list buf)")
      case None
      then show ?thesis
        using False Cons seek [of 0] seek [of "Suc i" for i]
        by (auto simp: backup_pair_def first_pair_def swap_step_def exchange_def algebra_simps
            split: option.splits)
    next
      case (Some p)
      then obtain i j where p: "backup_pair n (pentry_list buf) = Some (i, j)" by (cases p) auto
      then have "i < j" "j < m" using first_pair_SomeD Cons.prems(1) by (force simp: backup_pair_def)+
      from swap_pentries_refines [OF Cons.prems(1) this] obtain buf1 where
        buf1: "swap_pentries buf (128 * i) (128 * j) = Some buf1" "length buf1 = length buf"
        "pentry_list buf1 = (pentry_list buf)[i := pentry_list buf ! j, j := pentry_list buf ! i]" by blast
      have "first_from (named n) 0 (pentry_list buf) = Some i"
        "first_from (named n) (Suc i) (pentry_list buf) = Some j"
        using p by (auto simp: backup_pair_def first_pair_def split: option.splits)
      then have seeks: "gpt_pentry_seek n buf 0 (length buf) 128 = Some (Some (128 * i))"
        "gpt_pentry_seek n buf (128 * i + 128) (length buf) 128 = Some (Some (128 * j))"
        using seek [of 0] seek [of "Suc i"] by (simp_all add: algebra_simps)
      show ?thesis
        using False p seeks buf1 Cons.IH [of buf1 0] Cons.prems
        by (auto simp: swap_step_def exchange_def backup_pair_def)
    qed
  qed
qed simp

section \<open>Laws of the swap\<close>

lemma exchange_cases:
  obtains "first_pair P es = None" and "exchange P es = es"
  | i j where "first_pair P es = Some (i, j)" and "i < j" and "j < length es" and "P (es ! i)" and "P (es ! j)"
      and "exchange P es = es[i := es ! j, j := es ! i]"
proof (cases "first_pair P es")
  case None
  then show ?thesis using that(1) by (simp add: exchange_def)
next
  case (Some p)
  then obtain i j where "first_pair P es = Some (i, j)" by (cases p) auto
  then show ?thesis using that(2) [of i j] first_pair_SomeD [of P es i j] by (simp add: exchange_def)
qed

lemma exchange_None: "first_pair P es = None \<Longrightarrow> exchange P es = es"
  by (simp add: exchange_def)

lemma length_exchange [simp]: "length (exchange P es) = length es"
  by (rule exchange_cases [of P es]) simp_all

lemma mset_exchange: "mset (exchange P es) = mset es"
  by (rule exchange_cases [of P es]) (simp_all add: mset_swap)

lemma exchange_other: "k < length es \<Longrightarrow> \<not> P (es ! k) \<Longrightarrow> exchange P es ! k = es ! k"
  by (rule exchange_cases [of P es]) (auto simp: nth_list_update)

lemma first_pair_cong:
  assumes "length xs = length ys" and "\<And>k. k < length ys \<Longrightarrow> P (xs ! k) = P (ys ! k)"
  shows "first_pair P xs = first_pair P ys"
proof -
  have "first_from P k xs = first_from P k ys" for k
    using assms unfolding first_from_def by (intro find_cong) auto
  then show ?thesis by (simp add: first_pair_def cong: option.case_cong)
qed

text \<open>
  The interface the laws need: a list of names, and for every name the elements it covers, with
  no element covered by two names.
\<close>

locale name_classes =
  fixes cls :: "'n \<Rightarrow> 'e \<Rightarrow> bool" and names :: "'n list"
  assumes distinct_names: "distinct names"
    and exclusive: "m \<in> set names \<Longrightarrow> n \<in> set names \<Longrightarrow> cls m e \<Longrightarrow> cls n e \<Longrightarrow> m = n"
begin

lemma cls_exchange:
  assumes "m \<in> set names" and "n \<in> set names" and "k < length es"
  shows "cls m (exchange (cls n) es ! k) = cls m (es ! k)"
proof (rule exchange_cases [of "cls n" es])
  fix i j assume "i < j" "j < length es" "cls n (es ! i)" "cls n (es ! j)"
    and "exchange (cls n) es = es[i := es ! j, j := es ! i]"
  with assms exclusive [of m n] show ?thesis
    by (cases "m = n") (auto simp: nth_list_update)
qed simp

lemma first_pair_exchange:
  "m \<in> set names \<Longrightarrow> n \<in> set names \<Longrightarrow> first_pair (cls m) (exchange (cls n) es) = first_pair (cls m) es"
  by (rule first_pair_cong) (simp_all add: cls_exchange)

lemma exchange_exchange: "n \<in> set names \<Longrightarrow> exchange (cls n) (exchange (cls n) es) = es"
proof (rule exchange_cases [of "cls n" es])
  fix i j assume n: "n \<in> set names" and ij: "first_pair (cls n) es = Some (i, j)" "i < j" "j < length es"
    and e: "exchange (cls n) es = es[i := es ! j, j := es ! i]"
  let ?xs = "es[i := es ! j, j := es ! i]"
  have "first_pair (cls n) ?xs = Some (i, j)"
    using first_pair_exchange [OF n n, of es] ij(1) by (simp only: e)
  then have "exchange (cls n) ?xs = ?xs[i := ?xs ! j, j := ?xs ! i]"
    by (simp add: exchange_def)
  also have "\<dots> = es"
    using ij by (intro nth_equalityI) (auto simp: nth_list_update)
  finally show ?thesis by (simp only: e)
qed simp

lemma exchange_commute:
  assumes "m \<in> set names" and "n \<in> set names"
  shows "exchange (cls m) (exchange (cls n) es) = exchange (cls n) (exchange (cls m) es)"
proof (cases "m = n")
  case False
  have fp: "first_pair (cls m) (exchange (cls n) es) = first_pair (cls m) es"
    "first_pair (cls n) (exchange (cls m) es) = first_pair (cls n) es"
    using assms by (simp_all add: first_pair_exchange)
  show ?thesis
  proof (rule exchange_cases [of "cls m" es]; rule exchange_cases [of "cls n" es])
    fix i j k l
    assume P: "first_pair (cls m) es = Some (i, j)" "i < j" "j < length es" "cls m (es ! i)" "cls m (es ! j)"
        "exchange (cls m) es = es[i := es ! j, j := es ! i]"
      and Q: "first_pair (cls n) es = Some (k, l)" "k < l" "l < length es" "cls n (es ! k)" "cls n (es ! l)"
        "exchange (cls n) es = es[k := es ! l, l := es ! k]"
    have "i \<noteq> k" "i \<noteq> l" "j \<noteq> k" "j \<noteq> l"
      using P(4,5) Q(4,5) exclusive [OF assms] False by metis+
    moreover have "exchange (cls m) (es[k := es ! l, l := es ! k]) =
        (let xs = es[k := es ! l, l := es ! k] in xs[i := xs ! j, j := xs ! i])"
      using fp(1) P(1) Q(6) by (simp add: exchange_def [of "cls m"] Let_def)
    moreover have "exchange (cls n) (es[i := es ! j, j := es ! i]) =
        (let xs = es[i := es ! j, j := es ! i] in xs[k := xs ! l, l := xs ! k])"
      using fp(2) Q(1) P(6) by (simp add: exchange_def [of "cls n"] Let_def)
    ultimately show ?thesis
      using P(2,3,6) Q(2,3,6) by (auto simp: Let_def nth_list_update intro!: nth_equalityI)
  qed (use fp in \<open>simp_all add: exchange_None\<close>)
qed simp

lemma exchange_fold:
  "n \<in> set names \<Longrightarrow> set ns \<subseteq> set names \<Longrightarrow>
   exchange (cls n) (fold (\<lambda>n. exchange (cls n)) ns es) = fold (\<lambda>n. exchange (cls n)) ns (exchange (cls n) es)"
  by (induction ns arbitrary: es) (simp_all add: exchange_commute)

lemma first_pair_fold:
  "m \<in> set names \<Longrightarrow> set ns \<subseteq> set names \<Longrightarrow>
   first_pair (cls m) (fold (\<lambda>n. exchange (cls n)) ns es) = first_pair (cls m) es"
  by (induction ns arbitrary: es) (simp_all add: first_pair_exchange)

lemma fold_exchange_involution:
  "set ns \<subseteq> set names \<Longrightarrow>
   fold (\<lambda>n. exchange (cls n)) ns (fold (\<lambda>n. exchange (cls n)) ns es) = es"
  by (induction ns arbitrary: es) (simp_all add: exchange_fold exchange_exchange)

text \<open>What one run does to the elements: every pair is exchanged, nothing else moves.\<close>

lemma fold_exchange_pair:
  assumes "n \<in> set ns" and "set ns \<subseteq> set names" and "distinct ns"
    and "first_pair (cls n) es = Some (i, j)"
  shows "fold (\<lambda>n. exchange (cls n)) ns es ! i = es ! j" and "fold (\<lambda>n. exchange (cls n)) ns es ! j = es ! i"
proof -
  have untouched: "fold (\<lambda>n. exchange (cls n)) ms es ! k = es ! k"
    if "set ms \<subseteq> set names" "n \<notin> set ms" "k < length es" "cls n (es ! k)" "n \<in> set names" for ms k es
    using that
  proof (induction ms arbitrary: es)
    case (Cons m ms)
    have "exchange (cls m) es ! k = es ! k"
      using Cons.prems exclusive [of m n] by (auto intro: exchange_other)
    then show ?case using Cons by simp
  qed simp
  obtain as bs where ns: "ns = as @ n # bs" using split_list [OF assms(1)] by blast
  let ?f = "fold (\<lambda>n. exchange (cls n))"
  note P = first_pair_SomeD [OF assms(4)]
  have n: "n \<in> set names" "n \<notin> set as" "n \<notin> set bs" "set as \<subseteq> set names" "set bs \<subseteq> set names"
    using assms(1-3) ns by auto
  have "?f ns es = ?f bs (?f as (exchange (cls n) es))"
    using n by (simp add: ns exchange_fold)
  moreover have "exchange (cls n) es = es[i := es ! j, j := es ! i]"
    using assms(4) by (simp add: exchange_def)
  ultimately have *: "?f ns es = ?f (as @ bs) (es[i := es ! j, j := es ! i])" by simp
  show "?f ns es ! i = es ! j" "?f ns es ! j = es ! i"
    unfolding * using n P by (subst untouched; auto simp: nth_list_update)+
qed

lemma fold_exchange_other:
  assumes "set ns \<subseteq> set names" and "k < length es" and "\<And>n. n \<in> set ns \<Longrightarrow> \<not> cls n (es ! k)"
  shows "fold (\<lambda>n. exchange (cls n)) ns es ! k = es ! k"
  using assms
proof (induction ns arbitrary: es)
  case (Cons n ns)
  have "exchange (cls n) es ! k = es ! k"
    using Cons.prems by (auto intro: exchange_other)
  then show ?case using Cons by simp
qed simp

end

text \<open>The partition names of the code: no entry name belongs to two of them.\<close>

lemma PTN_SWAP_LIST_plain: "\<forall>n \<in> set PTN_SWAP_LIST. NUL \<notin> set n"
  by code_simp

lemma PTN_SWAP_LIST_distinct: "distinct (PTN_SWAP_LIST @ map (\<lambda>n. n @ ''bak'') PTN_SWAP_LIST)"
  by code_simp

interpretation ptn: name_classes named PTN_SWAP_LIST
proof
  show "distinct PTN_SWAP_LIST" using PTN_SWAP_LIST_distinct by simp
  fix m n e
  assume "m \<in> set PTN_SWAP_LIST" "n \<in> set PTN_SWAP_LIST" "named m e" "named n e"
  then show "m = n" using PTN_SWAP_LIST_distinct by (fastforce simp: named_def distinct_map inj_on_def)
qed

lemma swapped_names_subset: "set (swapped_names is_ufs) \<subseteq> set PTN_SWAP_LIST"
  by (auto simp: swapped_names_def)

lemma chain_swap_snd: "snd (chain_swap ns es f) = fold swap_step ns es"
  by (induction ns arbitrary: es f) simp_all

lemma chain_swap_fst:
  assumes "set ns \<subseteq> set PTN_SWAP_LIST"
  shows "fst (chain_swap ns es f) = (if \<forall>n \<in> set ns. backup_pair n es = None then f else 0)"
  using assms
proof (induction ns arbitrary: es f)
  case (Cons n ns)
  then have "\<forall>m \<in> set ns. backup_pair m (swap_step n es) = backup_pair m es"
    by (auto simp: backup_pair_def swap_step_def ptn.first_pair_exchange)
  with Cons show ?case by simp
qed simp

lemma swap_step_fold: "fold swap_step ns = fold (\<lambda>n. exchange (named n)) ns"
  by (simp add: swap_step_def [abs_def])

text \<open>The whole function against the specification.\<close>

lemma gpt_boot_chain_swap_refines:
  assumes "length buf = 128 * m"
  shows "\<exists>r buf'. gpt_boot_chain_swap is_ufs buf 0 (length buf) 128 = Some (r, buf') \<and>
     length buf' = length buf \<and> pentry_list buf' = fold swap_step (swapped_names is_ufs) (pentry_list buf) \<and>
     r = (if \<forall>n \<in> set (swapped_names is_ufs). backup_pair n (pentry_list buf) = None then 1 else 0)"
proof -
  from boot_chain_swap_loop_refines [OF assms PTN_SWAP_LIST_plain, of is_ufs 1]
  obtain r buf' where *: "gpt_boot_chain_swap is_ufs buf 0 (length buf) 128 = Some (r, buf')"
    "length buf' = length buf" "(r, pentry_list buf') = chain_swap (swapped_names is_ufs) (pentry_list buf) 1"
    by (auto simp: gpt_boot_chain_swap_def swapped_names_def)
  then have "pentry_list buf' = snd (chain_swap (swapped_names is_ufs) (pentry_list buf) 1)"
    "r = fst (chain_swap (swapped_names is_ufs) (pentry_list buf) 1)" by (metis fst_conv snd_conv)+
  with * show ?thesis
    by (simp add: chain_swap_snd chain_swap_fst [OF swapped_names_subset])
qed

lemma concat_pentry_list:
  assumes "length buf = 128 * m"
  shows "concat (pentry_list buf) = buf"
proof -
  have "concat (map (\<lambda>k. seg (128 * k) 128 buf) [0..<n]) = take (128 * n) buf" for n
  proof (induction n)
    case (Suc n)
    have "take (128 * n) buf @ take 128 (drop (128 * n) buf) = take (128 * n + 128) buf"
      by (simp add: take_add)
    with Suc show ?case by (simp add: seg_def algebra_simps)
  qed simp
  from this [of m] show ?thesis using assms by (simp add: pentry_list_def PTN_ENTRY_SIZE_def)
qed

lemma pentry_list_inject:
  assumes "length a = 128 * m" and "length b = 128 * m" and "pentry_list a = pentry_list b"
  shows "a = b"
  using assms concat_pentry_list by metis

section \<open>Properties\<close>

text \<open>
  The search is exact on an array of whole 128-byte entries: from the index it is given it
  returns the offset of the first entry whose name is \<open>n\<close> or \<open>n\<close> followed by \<open>bak\<close>, and NULL when there is
  none; it reads inside the array only and ends.
\<close>

theorem gpt_pentry_seek_first:
  assumes "length buf = 128 * m" and "NUL \<notin> set n"
  shows "\<exists>res. gpt_pentry_seek n buf (128 * k) (length buf) 128 = Some res \<and>
     (case res of
        None \<Rightarrow> \<forall>i. k \<le> i \<and> i < m \<longrightarrow> pentry_name (pentry_list buf ! i) \<notin> {n, n @ ''bak''}
      | Some off \<Rightarrow> \<exists>j. off = 128 * j \<and> k \<le> j \<and> j < m \<and> pentry_name (pentry_list buf ! j) \<in> {n, n @ ''bak''} \<and>
          (\<forall>i. k \<le> i \<and> i < j \<longrightarrow> pentry_name (pentry_list buf ! i) \<notin> {n, n @ ''bak''}))"
  using gpt_pentry_seek_refines [OF assms, of k] assms(1)
  by (cases "first_from (named n) k (pentry_list buf)")
    (auto simp: first_from_None first_from_Some named_def)

text \<open>An entry that carries a name, for the concrete instances.\<close>

definition sample_pentry :: "string \<Rightarrow> byte \<Rightarrow> byte list" where
  "sample_pentry n b = replicate 56 b @ concat (map (\<lambda>c. [of_char c, 0]) n) @ replicate (72 - 2 * length n) 0"

definition sample_array :: "byte list" where
  "sample_array = sample_pentry ''tz'' 1 @ sample_pentry ''boot'' 2 @ sample_pentry ''tzbak'' 3"

lemma length_sample_array: "length sample_array = 128 * 3"
  by code_simp

lemma sample_array_names: "map pentry_name (pentry_list sample_array) = [''tz'', ''boot'', ''tzbak'']"
  by code_simp

lemma sample_array_pair: "backup_pair ''tz'' (pentry_list sample_array) = Some (0, 2)"
proof -
  have l: "length (pentry_list sample_array) = 3" by (simp add: length_sample_array)
  have "pentry_name (pentry_list sample_array ! k) = [''tz'', ''boot'', ''tzbak''] ! k" if "k < 3" for k
    using that l sample_array_names nth_map [of k "pentry_list sample_array" pentry_name] by simp
  from this [of 0] this [of 1] this [of 2] show ?thesis
    by (simp add: backup_pair_def first_pair_def length_sample_array named_def first_from_rec [of _ 0]
        first_from_rec [of _ "Suc 0"] first_from_rec [of _ "Suc (Suc 0)"] numeral_2_eq_2)
qed

theorem gpt_pentry_seek_first_witness:
  "NUL \<notin> set ''tz'' \<and> gpt_pentry_seek ''tz'' sample_array 128 384 128 = Some (Some 256) \<and>
   (\<exists>res. gpt_pentry_seek ''tz'' sample_array (128 * 1) (length sample_array) 128 = Some res)"
proof -
  have n: "NUL \<notin> set ''tz''" by (simp add: NUL_def)
  have "gpt_pentry_seek ''tz'' sample_array 128 384 128 = Some (Some 256)" by code_simp
  then show ?thesis using n gpt_pentry_seek_first [OF length_sample_array n, of 1] by blast
qed



text \<open>
  Swapping twice is the identity: the status is the same and the array is restored byte for byte,
  so that the change of the secondary table in the first update stage can be undone.
\<close>

theorem boot_chain_swap_involution:
  assumes "length buf = 128 * m" and "gpt_boot_chain_swap is_ufs buf 0 (length buf) 128 = Some (r, buf')"
  shows "gpt_boot_chain_swap is_ufs buf' 0 (length buf') 128 = Some (r, buf)"
proof -
  note R = gpt_boot_chain_swap_refines [of _ m is_ufs, unfolded swap_step_fold]
  let ?ns = "swapped_names is_ufs"
  let ?f = "fold (\<lambda>n. exchange (named n)) ?ns"
  from R [OF assms(1)] assms(2) have 1: "length buf' = 128 * m" "pentry_list buf' = ?f (pentry_list buf)"
    "r = (if \<forall>n \<in> set ?ns. backup_pair n (pentry_list buf) = None then 1 else 0)" using assms(1) by auto
  from R [OF 1(1)] obtain r2 buf2 where
    2: "gpt_boot_chain_swap is_ufs buf' 0 (length buf') 128 = Some (r2, buf2)" "length buf2 = length buf'"
    "pentry_list buf2 = ?f (pentry_list buf')"
    "r2 = (if \<forall>n \<in> set ?ns. backup_pair n (pentry_list buf') = None then 1 else 0)" by blast
  have "pentry_list buf2 = pentry_list buf"
    using 1(2) 2(3) ptn.fold_exchange_involution [OF swapped_names_subset] by simp
  then have "buf2 = buf" using 1(1) 2(2) assms(1) pentry_list_inject by metis
  moreover have "backup_pair n (pentry_list buf') = backup_pair n (pentry_list buf)" if "n \<in> set ?ns" for n
    unfolding backup_pair_def 1(2)
    by (rule ptn.first_pair_fold [OF subsetD [OF swapped_names_subset that] swapped_names_subset])
  ultimately show ?thesis using 1(3) 2(1,4) by simp
qed

theorem boot_chain_swap_involution_witness:
  "\<exists>r buf'. gpt_boot_chain_swap False sample_array 0 (length sample_array) 128 = Some (r, buf') \<and>
     gpt_boot_chain_swap False buf' 0 (length buf') 128 = Some (r, sample_array)"
  using gpt_boot_chain_swap_refines [OF length_sample_array, of False]
    boot_chain_swap_involution [OF length_sample_array, of False] by blast

end
