(* ===== verification/Gpt_Header.thy ===== *)
theory Gpt_Header
  imports Gpt_Entries
begin

text \<open>
  The GPT headers: \<open>gpt_get_state\<close>, \<open>gpt_set_state\<close> and \<open>gpt2_set_boot_chain\<close> of \<open>gpt-utils.cpp\<close>, on a
  device that holds a primary copy (header in the second sector) and a secondary one (header in the
  last sector). \<open>crc32\<close> of zlib is the parameter \<open>crc32\<close> of every definition; nothing is assumed of it.
\<close>

section \<open>The functions\<close>

datatype gpt_instance = PRIMARY_GPT | SECONDARY_GPT

datatype gpt_state = GPT_OK | GPT_BAD_SIGNATURE | GPT_BAD_CRC

datatype boot_chain = NORMAL_BOOT | BACKUP_BOOT

type_synonym crc_fun = "u32 \<Rightarrow> byte list \<Rightarrow> u32"

text \<open>\<open>crc32(crc_zero, buf, n)\<close>; reading past the end of the buffer is undefined.\<close>

definition crc32_over :: "crc_fun \<Rightarrow> byte list \<Rightarrow> u32 \<Rightarrow> u32 option" where
  "crc32_over crc32 buf n =
     (let crc_zero = crc32 0 [] in
      if length buf < unat n then None else Some (crc32 crc_zero (take (unat n) buf)))"

definition memcmp_signature :: "byte list \<Rightarrow> bool option" where
  "memcmp_signature gpt_header =
     (if length gpt_header < length GPT_SIGNATURE then None
      else Some (take (length GPT_SIGNATURE) gpt_header \<noteq> GPT_SIGNATURE))"

definition gpt_header_pos :: "gpt_instance \<Rightarrow> u32 \<Rightarrow> dev \<Rightarrow> int \<times> dev" where
  "gpt_header_pos gpt blk_size d =
     (case gpt of
        PRIMARY_GPT \<Rightarrow> (uint blk_size, d)
      | SECONDARY_GPT \<Rightarrow> (let (e, d) = lseek64_end d in (e - uint blk_size, d)))"

definition gpt_get_state ::
  "crc_fun \<Rightarrow> dev \<Rightarrow> gpt_instance \<Rightarrow> (int \<times> gpt_state \<times> dev) option" where
  "gpt_get_state crc32 d gpt =
     (let (blk, d) = ioctl_BLKSSZGET d in
      case blk of
        None \<Rightarrow> Some (-1, GPT_OK, d)
      | Some blk_size \<Rightarrow>
     (let (m, d) = sys_malloc (unat blk_size) d in
      case m of
        None \<Rightarrow> Some (-1, GPT_OK, d)
      | Some gpt_header \<Rightarrow>
     (let (gpt_header_offset, d) = gpt_header_pos gpt blk_size d in
      if gpt_header_offset < 0 then Some (-1, GPT_OK, d)
      else do {
        (r, gpt_header, d) \<leftarrow> blk_rw d False gpt_header_offset gpt_header (unat blk_size);
        if r \<noteq> 0 then Some (-1, GPT_OK, d)
        else do {
          differs \<leftarrow> memcmp_signature gpt_header;
          gpt_header_size \<leftarrow> GET_4_BYTES gpt_header HEADER_SIZE_OFFSET;
          crc \<leftarrow> GET_4_BYTES gpt_header HEADER_CRC_OFFSET;
          gpt_header \<leftarrow> PUT_4_BYTES gpt_header HEADER_CRC_OFFSET 0;
          c \<leftarrow> crc32_over crc32 gpt_header gpt_header_size;
          Some (0, if c \<noteq> crc then GPT_BAD_CRC
                   else if differs then GPT_BAD_SIGNATURE else GPT_OK, d)
        }
      })))"

definition write_state :: "gpt_state \<Rightarrow> byte list \<Rightarrow> byte list option option" where
  "write_state state gpt_header =
     (case state of
        GPT_OK \<Rightarrow>
          if length gpt_header < length GPT_SIGNATURE then None
          else Some (Some (overwrite 0 GPT_SIGNATURE gpt_header))
      | GPT_BAD_SIGNATURE \<Rightarrow>
          if gpt_header = [] then None else Some (Some (gpt_header[0 := 0]))
      | GPT_BAD_CRC \<Rightarrow> Some None)"

definition gpt_set_state ::
  "crc_fun \<Rightarrow> dev \<Rightarrow> gpt_instance \<Rightarrow> gpt_state \<Rightarrow> (int \<times> dev) option" where
  "gpt_set_state crc32 d gpt state =
     (let (blk, d) = ioctl_BLKSSZGET d in
      case blk of
        None \<Rightarrow> Some (-1, d)
      | Some blk_size \<Rightarrow>
     (let (m, d) = sys_malloc (unat blk_size) d in
      case m of
        None \<Rightarrow> Some (-1, d)
      | Some gpt_header \<Rightarrow>
     (let (gpt_header_offset, d) = gpt_header_pos gpt blk_size d in
      if gpt_header_offset < 0 then Some (-1, d)
      else do {
        (r, gpt_header, d) \<leftarrow> blk_rw d False gpt_header_offset gpt_header (unat blk_size);
        if r \<noteq> 0 then Some (-1, d)
        else do {
          w \<leftarrow> write_state state gpt_header;
          case w of
            None \<Rightarrow> Some (-1, d)
          | Some gpt_header \<Rightarrow> do {
              gpt_header_size \<leftarrow> GET_4_BYTES gpt_header HEADER_SIZE_OFFSET;
              gpt_header \<leftarrow> PUT_4_BYTES gpt_header HEADER_CRC_OFFSET 0;
              crc \<leftarrow> crc32_over crc32 gpt_header gpt_header_size;
              gpt_header \<leftarrow> PUT_4_BYTES gpt_header HEADER_CRC_OFFSET crc;
              (r, gpt_header, d) \<leftarrow> blk_rw d True gpt_header_offset gpt_header (unat blk_size);
              Some (if r \<noteq> 0 then -1 else 0, d)
            }
        }
      })))"

text \<open>
  The second half of \<open>gpt2_set_boot_chain\<close>: from the read of the secondary header to the two
  writes, the header first. A status other than 0 of the swap ends the function before any write.
\<close>

definition set_secondary ::
  "crc_fun \<Rightarrow> bool \<Rightarrow> dev \<Rightarrow> boot_chain \<Rightarrow> u32 \<Rightarrow> int \<Rightarrow> byte list \<Rightarrow> byte list \<Rightarrow> u32 \<Rightarrow> u32 \<Rightarrow>
   (int \<times> dev) option" where
  "set_secondary crc32 is_ufs d boot blk_size gpt2_header_offset gpt_header pentries pentry_size
     pentries_array_size = do {
      (r, gpt_header, d) \<leftarrow> blk_rw d False gpt2_header_offset gpt_header (unat blk_size);
      if r \<noteq> 0 then Some (r, d)
      else do {
        gpt_header_size \<leftarrow> GET_4_BYTES gpt_header HEADER_SIZE_OFFSET;
        lba \<leftarrow> GET_8_BYTES gpt_header PENTRIES_OFFSET;
        let pentries_start_offset = lba * ucast blk_size;
        (r, pentries) \<leftarrow>
          (if boot = BACKUP_BOOT
           then gpt_boot_chain_swap is_ufs pentries 0 (unat pentries_array_size) (unat pentry_size)
           else Some (0, pentries));
        if r \<noteq> 0 then Some (r, d)
        else do {
          crc \<leftarrow> crc32_over crc32 pentries pentries_array_size;
          gpt_header \<leftarrow> PUT_4_BYTES gpt_header PARTITION_CRC_OFFSET crc;
          gpt_header \<leftarrow> PUT_4_BYTES gpt_header HEADER_CRC_OFFSET 0;
          crc \<leftarrow> crc32_over crc32 gpt_header gpt_header_size;
          gpt_header \<leftarrow> PUT_4_BYTES gpt_header HEADER_CRC_OFFSET crc;
          (r, gpt_header, d) \<leftarrow> blk_rw d True gpt2_header_offset gpt_header (unat blk_size);
          if r \<noteq> 0 then Some (r, d)
          else do {
            (r, pentries, d) \<leftarrow>
              blk_rw d True (sint pentries_start_offset) pentries (unat pentries_array_size);
            Some (r, d)
          }
        }
      }
    }"

text \<open>
  The offset of an entry array is computed in \<open>uint64_t\<close> and passed as \<open>int64_t\<close>, its size is
  computed in \<open>uint32_t\<close>; both wrap. \<open>is_ufs\<close> is the result of \<open>gpt_utils_is_ufs_device\<close>.
\<close>

definition gpt2_set_boot_chain ::
  "crc_fun \<Rightarrow> bool \<Rightarrow> dev \<Rightarrow> boot_chain \<Rightarrow> (int \<times> dev) option" where
  "gpt2_set_boot_chain crc32 is_ufs d boot =
     (let (blk, d) = ioctl_BLKSSZGET d in
      case blk of
        None \<Rightarrow> Some (-1, d)
      | Some blk_size \<Rightarrow>
     (let (m, d) = sys_malloc (unat blk_size) d in
      case m of
        None \<Rightarrow> Some (-1, d)
      | Some gpt_header \<Rightarrow>
     (let (gpt2_header_offset, d) = gpt_header_pos SECONDARY_GPT blk_size d in
      if gpt2_header_offset < 0 then Some (-1, d)
      else do {
        (r, gpt_header, d) \<leftarrow> blk_rw d False (uint blk_size) gpt_header (unat blk_size);
        if r \<noteq> 0 then Some (r, d)
        else do {
          lba \<leftarrow> GET_8_BYTES gpt_header PENTRIES_OFFSET;
          let pentries_start_offset = lba * ucast blk_size;
          pentry_size \<leftarrow> GET_4_BYTES gpt_header PENTRY_SIZE_OFFSET;
          cnt \<leftarrow> GET_4_BYTES gpt_header PARTITION_COUNT_OFFSET;
          let pentries_array_size = cnt * pentry_size;
          (let (p, d) = sys_calloc (unat pentries_array_size) d in
           case p of
             None \<Rightarrow> Some (-1, d)
           | Some pentries \<Rightarrow> do {
               (r, pentries, d) \<leftarrow> blk_rw d False (sint pentries_start_offset) pentries (unat pentries_array_size);
               if r \<noteq> 0 then Some (r, d)
               else do {
                 crc \<leftarrow> crc32_over crc32 pentries pentries_array_size;
                 stored \<leftarrow> GET_4_BYTES gpt_header PARTITION_CRC_OFFSET;
                 if stored \<noteq> crc then Some (-1, d)
                 else set_secondary crc32 is_ufs d boot blk_size gpt2_header_offset gpt_header
                        pentries pentry_size pentries_array_size
               }
             })
        }
      })))"

section \<open>The specification of a copy\<close>

text \<open>
  What a header says, as a function of its bytes: its CRC (computed with the CRC field cleared),
  its state, and the header with a fresh CRC.
\<close>

definition header_crc :: "crc_fun \<Rightarrow> byte list \<Rightarrow> u32" where
  "header_crc crc32 h =
     crc32 (crc32 0 []) (take (unat (le32 h HEADER_SIZE_OFFSET)) (put32 HEADER_CRC_OFFSET 0 h))"

definition header_state :: "crc_fun \<Rightarrow> byte list \<Rightarrow> gpt_state" where
  "header_state crc32 h =
     (if le32 h HEADER_CRC_OFFSET \<noteq> header_crc crc32 h then GPT_BAD_CRC
      else if seg 0 9 h = GPT_SIGNATURE then GPT_OK else GPT_BAD_SIGNATURE)"

definition sealed :: "crc_fun \<Rightarrow> byte list \<Rightarrow> byte list" where
  "sealed crc32 h = put32 HEADER_CRC_OFFSET (header_crc crc32 h) h"

definition marked :: "gpt_state \<Rightarrow> byte list \<Rightarrow> byte list" where
  "marked s h = (if s = GPT_OK then overwrite 0 GPT_SIGNATURE h else h[0 := 0])"

text \<open>The fields of a header that say where things are; no function here changes them.\<close>

definition geometry :: "byte list \<Rightarrow> u32 \<times> u64 \<times> u32 \<times> u32" where
  "geometry h = (le32 h HEADER_SIZE_OFFSET, le64 h PENTRIES_OFFSET, le32 h PARTITION_COUNT_OFFSET,
                 le32 h PENTRY_SIZE_OFFSET)"

lemma length_marked [simp]: "9 \<le> length h \<Longrightarrow> length (marked s h) = length h"
  by (simp add: marked_def GPT_SIGNATURE_def)

lemma length_sealed [simp]: "20 \<le> length h \<Longrightarrow> length (sealed crc32 h) = length h"
  by (simp add: sealed_def gpt_offsets)

lemma geometry_cong:
  assumes "seg 12 4 h' = seg 12 4 h" and "seg 72 16 h' = seg 72 16 h" and "92 \<le> length h" and "length h' = length h"
  shows "geometry h' = geometry h"
proof -
  have "seg a n h' = seg a n h" if "72 \<le> a" "a + n \<le> 88" for a n
  proof (rule nth_equalityI)
    show "length (seg a n h') = length (seg a n h)" using assms(4) by simp
    fix i assume "i < length (seg a n h')"
    then have "i < n" by simp
    then show "seg a n h' ! i = seg a n h ! i"
      using that assms(3,4) seg_eq_nth [OF assms(2), of "a + i - 72"] by (simp add: nth_seg)
  qed
  then show ?thesis
    using assms by (auto simp: geometry_def gpt_offsets intro!: le32_cong le64_cong)
qed

lemma geometry_put32 [simp]:
  "92 \<le> length h \<Longrightarrow> p = HEADER_CRC_OFFSET \<or> p = PARTITION_CRC_OFFSET \<Longrightarrow> geometry (put32 p y h) = geometry h"
  by (rule geometry_cong) (auto simp: gpt_offsets buf_simps)

lemma geometry_sealed [simp]: "92 \<le> length h \<Longrightarrow> geometry (sealed crc32 h) = geometry h"
  by (simp add: sealed_def)

lemma seg_marked:
  assumes "9 \<le> a" and "a + n \<le> length h"
  shows "seg a n (marked s h) = seg a n h"
proof (cases "s = GPT_OK")
  case True
  then show ?thesis using assms
    by (simp add: marked_def) (subst seg_overwrite_disjoint, auto simp: GPT_SIGNATURE_def)
next
  case False
  then show ?thesis using assms by (simp add: marked_def seg_def drop_update_cancel)
qed

lemma geometry_marked [simp]: "92 \<le> length h \<Longrightarrow> geometry (marked s h) = geometry h"
  by (rule geometry_cong) (simp_all add: seg_marked)

lemma header_crc_put32 [simp]:
  assumes "92 \<le> length h"
  shows "header_crc crc32 (put32 HEADER_CRC_OFFSET y h) = header_crc crc32 h"
  using assms by (simp add: header_crc_def gpt_offsets buf_simps)

lemma header_state_sealed:
  assumes "92 \<le> length h"
  shows "header_state crc32 (sealed crc32 h) = (if seg 0 9 h = GPT_SIGNATURE then GPT_OK else GPT_BAD_SIGNATURE)"
  using assms by (simp add: header_state_def sealed_def) (simp add: gpt_offsets buf_simps)

lemma header_state_marked:
  assumes "92 \<le> length h" and "s \<noteq> GPT_BAD_CRC"
  shows "header_state crc32 (sealed crc32 (marked s h)) = s"
proof -
  have "seg 0 9 (marked s h) = GPT_SIGNATURE \<longleftrightarrow> s = GPT_OK"
  proof (cases "s = GPT_OK")
    case True
    then show ?thesis using assms(1) by (simp add: marked_def seg_overwrite_same GPT_SIGNATURE_def)
  next
    case False
    then have "hd (seg 0 9 (marked s h)) = 0"
      using assms(1) by (cases h) (simp_all add: marked_def seg_def)
    moreover have "hd GPT_SIGNATURE \<noteq> 0" by (simp add: GPT_SIGNATURE_def)
    ultimately show ?thesis using False by metis
  qed
  then show ?thesis using assms by (cases s) (simp_all add: header_state_sealed)
qed

section \<open>The two copies on a device\<close>

definition hdr_off :: "dev \<Rightarrow> gpt_instance \<Rightarrow> nat" where
  "hdr_off d gpt = (case gpt of PRIMARY_GPT \<Rightarrow> unat (ssz d) | SECONDARY_GPT \<Rightarrow> length (bytes d) - unat (ssz d))"

definition hdr :: "dev \<Rightarrow> gpt_instance \<Rightarrow> byte list" where
  "hdr d gpt = seg (hdr_off d gpt) (unat (ssz d)) (bytes d)"

definition ent_off :: "dev \<Rightarrow> gpt_instance \<Rightarrow> nat" where
  "ent_off d gpt = unat (le64 (hdr d gpt) PENTRIES_OFFSET * ucast (ssz d))"

definition ent_len :: "dev \<Rightarrow> nat" where
  "ent_len d = unat (le32 (hdr d PRIMARY_GPT) PARTITION_COUNT_OFFSET * le32 (hdr d PRIMARY_GPT) PENTRY_SIZE_OFFSET)"

definition entries :: "dev \<Rightarrow> gpt_instance \<Rightarrow> byte list" where
  "entries d gpt = seg (ent_off d gpt) (ent_len d) (bytes d)"

text \<open>
  What the code takes for granted of the disk: sectors that hold a header, header sizes that fit a
  sector, entries of 128 bytes, and the order primary header, primary entries, secondary
  entries, secondary header without overlaps.
\<close>

definition hdr_fits :: "dev \<Rightarrow> gpt_instance \<Rightarrow> bool" where
  "hdr_fits d gpt \<longleftrightarrow> 92 \<le> unat (ssz d) \<and> 2 * unat (ssz d) \<le> length (bytes d) \<and>
     unat (le32 (hdr d gpt) HEADER_SIZE_OFFSET) \<le> unat (ssz d)"

definition gpt_layout :: "dev \<Rightarrow> bool" where
  "gpt_layout d \<longleftrightarrow> hdr_fits d PRIMARY_GPT \<and> hdr_fits d SECONDARY_GPT \<and> length (bytes d) < 2 ^ 63 \<and>
     le32 (hdr d PRIMARY_GPT) PENTRY_SIZE_OFFSET = 128 \<and>
     2 * unat (ssz d) \<le> ent_off d PRIMARY_GPT \<and>
     ent_off d PRIMARY_GPT + ent_len d \<le> ent_off d SECONDARY_GPT \<and>
     ent_off d SECONDARY_GPT + ent_len d + unat (ssz d) \<le> length (bytes d)"

lemma hdr_off_later: "later d d' \<Longrightarrow> hdr_off d' gpt = hdr_off d gpt"
  by (cases gpt) (simp_all add: hdr_off_def later_def)

lemma hdr_same: "same_dev d d' \<Longrightarrow> hdr d' gpt = hdr d gpt"
  using hdr_off_later [of d d'] by (simp add: hdr_def dev_rel)

lemma ent_same: "same_dev d d' \<Longrightarrow> ent_off d' gpt = ent_off d gpt" "same_dev d d' \<Longrightarrow> ent_len d' = ent_len d"
  "same_dev d d' \<Longrightarrow> entries d' gpt = entries d gpt"
  by (simp_all add: ent_off_def ent_len_def entries_def hdr_same) (simp_all add: dev_rel)

lemma hdr_fits_same: "same_dev d d' \<Longrightarrow> hdr_fits d' gpt = hdr_fits d gpt"
  by (simp add: hdr_fits_def hdr_same) (simp add: dev_rel)

lemma gpt_layout_same: "same_dev d d' \<Longrightarrow> gpt_layout d' = gpt_layout d"
  by (simp add: gpt_layout_def hdr_fits_same ent_same hdr_same) (simp add: dev_rel)

lemmas dev_same = hdr_same ent_same hdr_fits_same gpt_layout_same

lemma length_hdr [simp]: "hdr_fits d gpt \<Longrightarrow> length (hdr d gpt) = unat (ssz d)"
  by (cases gpt) (auto simp: hdr_def hdr_off_def hdr_fits_def)

lemma hdr_in_range: "hdr_fits d gpt \<Longrightarrow> hdr_off d g + unat (ssz d) \<le> length (bytes d)"
  by (cases g) (auto simp: hdr_off_def hdr_fits_def)

lemma hdr_long: "hdr_fits d gpt \<Longrightarrow> 92 \<le> length (hdr d gpt)"
  by (simp add: hdr_fits_def [of d gpt])

section \<open>gpt_get_state and gpt_set_state\<close>

lemma runs_header_pos_from:
  assumes "same_dev d0 d" and "unat (ssz d0) \<le> length (bytes d0)"
    and neg: "\<And>p d'. same_dev d0 d' \<Longrightarrow> evs d0 \<noteq> [] \<Longrightarrow> p < 0 \<Longrightarrow> runs (f p d') Q"
    and pos: "\<And>d'. same_dev d0 d' \<Longrightarrow> runs (f (int (hdr_off d0 gpt)) d') Q"
  shows "runs (let (p, d') = gpt_header_pos gpt (ssz d0) d in f p d') Q"
proof (cases gpt)
  case PRIMARY_GPT
  then show ?thesis using pos [OF assms(1)] by (simp add: gpt_header_pos_def hdr_off_def)
next
  case SECONDARY_GPT
  have "runs (let (e, d') = lseek64_end d in f (e - uint (ssz d0)) d') Q"
  proof (rule runs_lseek_end_from [OF assms(1)])
    fix d' assume "same_dev d0 d'" "evs d0 \<noteq> []"
    moreover have "- 1 - uint (ssz d0) < 0" using uint_ge_0 [of "ssz d0"] by linarith
    ultimately show "runs (f (- 1 - uint (ssz d0)) d') Q" by (rule neg)
  next
    fix d' assume "same_dev d0 d'"
    from pos [OF this] assms(2) show "runs (f (int (length (bytes d0)) - uint (ssz d0)) d') Q"
      by (simp add: SECONDARY_GPT hdr_off_def of_nat_diff)
  qed
  then show ?thesis by (simp add: SECONDARY_GPT gpt_header_pos_def case_prod_beta Let_def)
qed

text \<open>How both functions begin: the header of the copy is read into a fresh buffer.\<close>

lemma runs_read_header:
  assumes "no_short d" and "hdr_fits d gpt"
    and fail: "\<And>d'. same_dev d d' \<Longrightarrow> evs d \<noteq> [] \<Longrightarrow> runs (E d') Q"
    and ok: "\<And>d'. same_dev d d' \<Longrightarrow> runs (K (ssz d) (int (hdr_off d gpt)) (hdr d gpt) d') Q"
  shows "runs
    (let (blk, d) = ioctl_BLKSSZGET d in
     case blk of
       None \<Rightarrow> E d
     | Some blk_size \<Rightarrow>
    (let (m, d) = sys_malloc (unat blk_size) d in
     case m of
       None \<Rightarrow> E d
     | Some gpt_header \<Rightarrow>
    (let (off, d) = gpt_header_pos gpt blk_size d in
     if off < 0 then E d
     else do {
       (r, gpt_header, d) \<leftarrow> blk_rw d False off gpt_header (unat blk_size);
       if r \<noteq> 0 then E d else K blk_size off gpt_header d
     }))) Q"
proof -
  have l: "unat (ssz d) \<le> length (bytes d)" using assms(2) by (simp add: hdr_fits_def)
  show ?thesis
    apply (rule runs_ioctl_from [OF same_dev_refl])
     apply (simp add: fail)
    apply (unfold option.case)
    apply (erule runs_malloc_from)
     apply (simp add: fail)
    apply (unfold option.case)
    apply (erule runs_header_pos_from [OF _ l])
     apply (simp add: fail)
    apply simp
    apply (erule runs_blk_read_from)
    using assms(1,2) hdr_in_range [OF assms(2), of gpt] by (simp_all add: fail ok flip: hdr_def)
qed

text \<open>\<open>gpt_get_state\<close> reports the state of the copy and changes nothing.\<close>

lemma runs_get_state:
  assumes "no_short d" and "hdr_fits d gpt"
    and fail: "\<And>d'. same_dev d d' \<Longrightarrow> evs d \<noteq> [] \<Longrightarrow> Q (-1, GPT_OK, d')"
    and ok: "\<And>d'. same_dev d d' \<Longrightarrow> Q (0, header_state crc32 (hdr d gpt), d')"
  shows "runs (gpt_get_state crc32 d gpt) Q"
  unfolding gpt_get_state_def
  apply (rule runs_read_header [OF assms(1,2)])
   apply (simp add: fail)
  subgoal for d'
    using assms(2) hdr_long [OF assms(2)] ok [of d']
    by (auto simp: gpt_offsets memcmp_signature_def crc32_over_def hdr_fits_def header_state_def
        header_crc_def seg_def)
  done

text \<open>\<open>gpt_set_state\<close> replaces the header of the copy by one that has the wanted state, or changes nothing.\<close>

lemma write_state_marked:
  "9 \<le> length h \<Longrightarrow> s \<noteq> GPT_BAD_CRC \<Longrightarrow> write_state s h = Some (Some (marked s h))"
  by (cases s) (auto simp: write_state_def marked_def)

lemma header_size_marked: "92 \<le> length h \<Longrightarrow> le32 (marked s h) HEADER_SIZE_OFFSET = le32 h HEADER_SIZE_OFFSET"
  using geometry_marked [of h s] by (simp add: geometry_def)

lemma sealed_marked:
  "92 \<le> length h \<Longrightarrow>
   put32 16 (crc32 (crc32 0 []) (take (unat (le32 h 12)) (put32 16 0 (marked s h)))) (marked s h) =
   sealed crc32 (marked s h)"
  using header_size_marked [of h s] by (simp add: sealed_def header_crc_def gpt_offsets)

lemma runs_set_state:
  assumes "no_short d" and "hdr_fits d gpt" and "s \<noteq> GPT_BAD_CRC"
    and fail: "\<And>d'. same_dev d d' \<Longrightarrow> evs d \<noteq> [] \<Longrightarrow> Q (-1, d')"
    and ok: "\<And>d'. later d d' \<Longrightarrow>
       bytes d' = overwrite (hdr_off d gpt) (sealed crc32 (marked s (hdr d gpt))) (bytes d) \<Longrightarrow> Q (0, d')"
  shows "runs (gpt_set_state crc32 d gpt s) Q"
  unfolding gpt_set_state_def
  apply (rule runs_read_header [OF assms(1,2)])
   apply (simp add: fail)
  subgoal for d'
    using assms(2) hdr_long [OF assms(2)] header_size_marked [OF hdr_long [OF assms(2)], of s]
    apply (simp add: gpt_offsets write_state_marked assms(3) crc32_over_def hdr_fits_def put32_put32_same
        sealed_marked)
    apply (erule runs_blk_write_from)
    using assms(1,2) hdr_in_range [OF assms(2), of gpt] by (simp_all add: fail ok)
  done

text \<open>The one state that cannot be set is refused, and the device is left alone.\<close>

lemma runs_set_bad_crc:
  assumes "no_short d" and "hdr_fits d gpt" and "\<And>d'. same_dev d d' \<Longrightarrow> Q (-1, d')"
  shows "runs (gpt_set_state crc32 d gpt GPT_BAD_CRC) Q"
  unfolding gpt_set_state_def
  by (rule runs_read_header [OF assms(1,2)]) (simp_all add: assms(3) write_state_def)

section \<open>What a write does to the copies\<close>

text \<open>The regions of a disk with a sound layout, in order.\<close>

lemma layout_order:
  assumes "gpt_layout d"
  shows "hdr_off d PRIMARY_GPT = unat (ssz d)" "hdr_off d PRIMARY_GPT + unat (ssz d) \<le> ent_off d PRIMARY_GPT"
    "ent_off d PRIMARY_GPT + ent_len d \<le> ent_off d SECONDARY_GPT"
    "ent_off d SECONDARY_GPT + ent_len d \<le> hdr_off d SECONDARY_GPT"
    "hdr_off d SECONDARY_GPT + unat (ssz d) = length (bytes d)"
  using assms by (auto simp: gpt_layout_def hdr_off_def)

lemma layout_fits: "gpt_layout d \<Longrightarrow> hdr_fits d gpt"
  by (cases gpt) (simp_all add: gpt_layout_def)

lemma length_entries [simp]: "gpt_layout d \<Longrightarrow> length (entries d gpt) = ent_len d"
  using layout_order [of d] by (cases gpt) (simp_all add: entries_def)

text \<open>A header is replaced by one with the same geometry: nothing else changes.\<close>

lemma header_written:
  assumes "gpt_layout d" and z: "ssz d' = ssz d" and "bytes d' = overwrite (hdr_off d gpt) h (bytes d)"
    and "length h = unat (ssz d)" and "geometry h = geometry (hdr d gpt)"
  shows "hdr d' gpt = h" and "g \<noteq> gpt \<Longrightarrow> hdr d' g = hdr d g" and "entries d' g = entries d g"
    and "ent_off d' g = ent_off d g" and "ent_len d' = ent_len d" and "gpt_layout d'"
proof -
  note o = layout_order [OF assms(1)]
  note fits = layout_fits [OF assms(1)]
  have len: "length (bytes d') = length (bytes d)"
    using assms(3,4) hdr_in_range [OF fits, of gpt] by simp
  have off: "hdr_off d' g = hdr_off d g" for g by (cases g) (simp_all add: hdr_off_def len z)
  show 1: "hdr d' gpt = h"
    unfolding hdr_def off z assms(3) using assms(4) hdr_in_range [OF fits, of gpt]
    by (auto intro!: seg_overwrite_same)
  have 2: "hdr d' g = hdr d g" if "g \<noteq> gpt" for g
    unfolding hdr_def off z assms(3) using that o assms(4)
    by (cases g; cases gpt) (auto intro!: seg_overwrite_disjoint)
  then show "g \<noteq> gpt \<Longrightarrow> hdr d' g = hdr d g" .
  have "geometry (hdr d' g) = geometry (hdr d g)" for g
    using 1 2 assms(5) by (cases "g = gpt") simp_all
  then have geo: "le32 (hdr d' g) HEADER_SIZE_OFFSET = le32 (hdr d g) HEADER_SIZE_OFFSET"
    "le64 (hdr d' g) PENTRIES_OFFSET = le64 (hdr d g) PENTRIES_OFFSET"
    "le32 (hdr d' g) PARTITION_COUNT_OFFSET = le32 (hdr d g) PARTITION_COUNT_OFFSET"
    "le32 (hdr d' g) PENTRY_SIZE_OFFSET = le32 (hdr d g) PENTRY_SIZE_OFFSET" for g
    by (simp_all add: geometry_def)
  show eo: "ent_off d' g = ent_off d g" for g by (simp add: ent_off_def geo z)
  show el: "ent_len d' = ent_len d" by (simp add: ent_len_def geo)
  show "entries d' g = entries d g"
    unfolding entries_def eo el assms(3) using o assms(4)
    by (cases g; cases gpt) (auto intro!: seg_overwrite_disjoint)
  show "gpt_layout d'"
    using assms(1) by (simp add: gpt_layout_def hdr_fits_def eo el geo z len)
qed

text \<open>The entries of a copy are replaced: the headers and the other entries stay.\<close>

lemma entries_written:
  assumes "gpt_layout d" and z: "ssz d' = ssz d" and "bytes d' = overwrite (ent_off d gpt) es (bytes d)"
    and "length es = ent_len d"
  shows "hdr d' g = hdr d g" and "entries d' gpt = es" and "g \<noteq> gpt \<Longrightarrow> entries d' g = entries d g"
    and "gpt_layout d'"
proof -
  note o = layout_order [OF assms(1)]
  have len: "length (bytes d') = length (bytes d)" using assms(3,4) o by (cases gpt) simp_all
  have off: "hdr_off d' g = hdr_off d g" for g by (cases g) (simp_all add: hdr_off_def len z)
  show h: "hdr d' g = hdr d g" for g
    unfolding hdr_def off z assms(3) using o assms(4)
    by (cases g; cases gpt) (auto intro!: seg_overwrite_disjoint)
  have eo: "ent_off d' g = ent_off d g" "ent_len d' = ent_len d" for g by (simp_all add: ent_off_def ent_len_def h z)
  show "entries d' gpt = es"
    unfolding entries_def eo assms(3) using o assms(4) by (cases gpt) (auto intro!: seg_overwrite_same)
  show "g \<noteq> gpt \<Longrightarrow> entries d' g = entries d g"
    unfolding entries_def eo assms(3) using o assms(4) by (cases g; cases gpt) (auto intro!: seg_overwrite_disjoint)
  show "gpt_layout d'"
    using assms(1) by (simp add: gpt_layout_def hdr_fits_def eo h z len)
qed

section \<open>gpt2_set_boot_chain\<close>

definition chain_entries :: "bool \<Rightarrow> boot_chain \<Rightarrow> byte list \<Rightarrow> (int \<times> byte list) option" where
  "chain_entries is_ufs boot es =
     (if boot = BACKUP_BOOT then gpt_boot_chain_swap is_ufs es 0 (length es) 128 else Some (0, es))"

definition secondary_header :: "crc_fun \<Rightarrow> byte list \<Rightarrow> byte list \<Rightarrow> byte list" where
  "secondary_header crc32 es h = sealed crc32 (put32 PARTITION_CRC_OFFSET (crc32 (crc32 0 []) es) h)"

lemma chain_entries_defined:
  assumes "length es = 128 * m"
  shows "\<exists>r es'. chain_entries is_ufs boot es = Some (r, es') \<and> length es' = length es \<and> (r = 0 \<or> r = 1)"
  using gpt_boot_chain_swap_refines [OF assms, of is_ufs] by (auto simp: chain_entries_def)

lemma sint_small: "unat (w :: u64) < 2 ^ 63 \<Longrightarrow> sint w = int (unat w)"
proof -
  assume "unat w < 2 ^ 63"
  then have "uint w < 2 ^ 63" by (metis of_nat_less_iff of_nat_numeral of_nat_power uint_nat)
  then have "signed_take_bit 63 (uint w) = uint w" using uint_ge_0 [of w]
    by (intro signed_take_bit_int_eq_self) linarith+
  then show ?thesis by (simp add: sint_uint)
qed

lemma ent_len_128: "gpt_layout d \<Longrightarrow> \<exists>m. ent_len d = 128 * m"
proof -
  assume "gpt_layout d"
  then have "ent_len d = unat (le32 (hdr d PRIMARY_GPT) PARTITION_COUNT_OFFSET * (128 :: u32))"
    by (simp add: ent_len_def gpt_layout_def)
  also have "\<dots> = (unat (le32 (hdr d PRIMARY_GPT) PARTITION_COUNT_OFFSET) * 128) mod (128 * 2 ^ 25)"
    by (simp add: unat_word_ariths)
  also have "\<dots> = 128 * (unat (le32 (hdr d PRIMARY_GPT) PARTITION_COUNT_OFFSET) mod 2 ^ 25)"
    by (simp only: mult.commute [of _ 128] mult_mod_right)
  finally show ?thesis by blast
qed

lemma secondary_header_steps:
  "92 \<le> length h \<Longrightarrow>
   put32 16 (crc32 (crc32 0 []) (take (unat (le32 h 12)) (put32 16 0 (put32 88 y h)))) (put32 88 y h) =
   sealed crc32 (put32 88 y h)"
  by (simp add: sealed_def header_crc_def gpt_offsets buf_simps)

lemma length_secondary_header [simp]: "92 \<le> length h \<Longrightarrow> length (secondary_header crc32 es h) = length h"
  by (simp add: secondary_header_def gpt_offsets)

lemma geometry_secondary_header [simp]:
  "92 \<le> length h \<Longrightarrow> geometry (secondary_header crc32 es h) = geometry h"
  by (simp add: secondary_header_def gpt_offsets)

lemma ent_off_sint:
  assumes "gpt_layout d"
  shows "sint (le64 (hdr d gpt) 72 * ucast (ssz d)) = int (ent_off d gpt)"
proof -
  have "ent_off d gpt < 2 ^ 63"
    using layout_order [OF assms] assms by (cases gpt) (simp_all add: gpt_layout_def)
  from sint_small [OF this [unfolded ent_off_def]] show ?thesis by (simp add: ent_off_def gpt_offsets)
qed

lemma runs_set_secondary:
  assumes "no_short d" and lay: "gpt_layout d" and "same_dev d d1" and "length h = unat (ssz d)"
    and es: "length es = ent_len d" and n: "unat n = ent_len d"
    and ce: "chain_entries is_ufs boot es = Some (r, es')" "length es' = length es" "r = 0 \<or> r = 1"
    and fail: "\<And>d'. same_dev d d' \<Longrightarrow> evs d \<noteq> [] \<Longrightarrow> Q (-1, d')"
    and none: "\<And>d'. same_dev d d' \<Longrightarrow> r = 1 \<Longrightarrow> Q (1, d')"
    and half: "\<And>d'. later d d' \<Longrightarrow> r = 0 \<Longrightarrow> evs d \<noteq> [] \<Longrightarrow>
       bytes d' = overwrite (hdr_off d SECONDARY_GPT) (secondary_header crc32 es' (hdr d SECONDARY_GPT)) (bytes d) \<Longrightarrow>
       Q (-1, d')"
    and ok: "\<And>d'. later d d' \<Longrightarrow> r = 0 \<Longrightarrow>
       bytes d' = overwrite (ent_off d SECONDARY_GPT) es'
         (overwrite (hdr_off d SECONDARY_GPT) (secondary_header crc32 es' (hdr d SECONDARY_GPT)) (bytes d)) \<Longrightarrow> Q (0, d')"
  shows "runs (set_secondary crc32 is_ufs d1 boot (ssz d) (int (hdr_off d SECONDARY_GPT)) h es 128 n) Q"
proof -
  let ?h = "hdr d SECONDARY_GPT"
  note o = layout_order [OF lay]
  note fits = layout_fits [OF lay, of SECONDARY_GPT]
  note off = ent_off_sint [OF lay, of SECONDARY_GPT]
  have ce': "(if boot = BACKUP_BOOT then gpt_boot_chain_swap is_ufs es 0 (unat n) (unat (128 :: u32)) else Some (0, es)) =
     Some (r, es')"
    using ce(1) by (auto simp: chain_entries_def n es split: if_splits)
  have size: "unat (le32 ?h 12) \<le> unat (ssz d)" using fits by (simp add: hdr_fits_def gpt_offsets)
  have sh: "sealed crc32 (put32 88 (crc32 (crc32 0 []) es') ?h) = secondary_header crc32 es' ?h"
    by (simp add: secondary_header_def gpt_offsets)
  have lh: "length (secondary_header crc32 es' ?h) = unat (ssz d)"
    using fits hdr_long [OF fits] by simp
  have no_short: "later d d' \<Longrightarrow> no_short d' \<and> length (bytes d') = length (bytes d) \<and> (evs d' \<noteq> [] \<longrightarrow> evs d \<noteq> [])" for d'
    using assms(1) by (auto simp: later_def)
  show ?thesis
    unfolding set_secondary_def runs_bind
    apply (rule runs_blk_read_from [OF assms(3,1)])
        apply (simp_all add: fail assms ce' o)
    apply (unfold hdr_def [symmetric])
    using ce(3)
    apply (elim disjE)
    using fits hdr_long [OF fits] size
     apply (simp_all add: gpt_offsets none)
    apply (simp add: crc32_over_def ce(2) n es buf_simps secondary_header_steps off sh)
    apply (erule runs_blk_write_from)
    using assms(1) o lh apply (simp_all add: fail)
    subgoal for d3
      apply (rule runs_blk_write)
      using no_short [of d3] o half ok later_trans [of d d3]
           apply (simp_all add: n es ce(2) off same_dev_def)
      done
    done
qed

definition entries_crc_ok :: "crc_fun \<Rightarrow> dev \<Rightarrow> gpt_instance \<Rightarrow> bool" where
  "entries_crc_ok crc32 d gpt \<longleftrightarrow> le32 (hdr d gpt) PARTITION_CRC_OFFSET = crc32 (crc32 0 []) (entries d gpt)"

lemma runs_set_boot_chain:
  assumes "no_short d" and lay: "gpt_layout d"
    and ce: "chain_entries is_ufs boot (entries d PRIMARY_GPT) = Some (r, es')"
    and fail: "\<And>d'. same_dev d d' \<Longrightarrow> evs d \<noteq> [] \<or> \<not> entries_crc_ok crc32 d PRIMARY_GPT \<Longrightarrow> Q (-1, d')"
    and none: "\<And>d'. same_dev d d' \<Longrightarrow> r = 1 \<Longrightarrow> entries_crc_ok crc32 d PRIMARY_GPT \<Longrightarrow> Q (1, d')"
    and half: "\<And>d'. later d d' \<Longrightarrow> r = 0 \<Longrightarrow> entries_crc_ok crc32 d PRIMARY_GPT \<Longrightarrow> evs d \<noteq> [] \<Longrightarrow>
       bytes d' = overwrite (hdr_off d SECONDARY_GPT) (secondary_header crc32 es' (hdr d SECONDARY_GPT)) (bytes d) \<Longrightarrow>
       Q (-1, d')"
    and ok: "\<And>d'. later d d' \<Longrightarrow> r = 0 \<Longrightarrow> entries_crc_ok crc32 d PRIMARY_GPT \<Longrightarrow>
       bytes d' = overwrite (ent_off d SECONDARY_GPT) es'
         (overwrite (hdr_off d SECONDARY_GPT) (secondary_header crc32 es' (hdr d SECONDARY_GPT)) (bytes d)) \<Longrightarrow> Q (0, d')"
  shows "runs (gpt2_set_boot_chain crc32 is_ufs d boot) Q"
proof -
  let ?h = "hdr d PRIMARY_GPT"
  let ?es = "entries d PRIMARY_GPT"
  note o = layout_order [OF lay]
  note fits = layout_fits [OF lay, of PRIMARY_GPT]
  have l: "unat (ssz d) \<le> length (bytes d)" and psize: "le32 ?h 84 = 128"
    using lay by (simp_all add: gpt_layout_def hdr_fits_def gpt_offsets)
  note off = ent_off_sint [OF lay, of PRIMARY_GPT]
  have len: "unat (le32 ?h 80 * 128) = ent_len d" using psize by (simp add: ent_len_def gpt_offsets)
  obtain m where "length ?es = 128 * m" using ent_len_128 [OF lay] lay by auto
  from chain_entries_defined [OF this, of is_ufs boot] ce have
    ce': "length es' = length ?es" "r = 0 \<or> r = 1" by auto
  have hdr: "seg (unat (ssz d)) (unat (ssz d)) (bytes d) = ?h" by (simp add: hdr_def hdr_off_def)
  have crc: "entries_crc_ok crc32 d PRIMARY_GPT \<longleftrightarrow> le32 ?h 88 = crc32 (crc32 0 []) ?es"
    by (simp add: entries_crc_ok_def gpt_offsets)
  show ?thesis
    unfolding gpt2_set_boot_chain_def
    apply (rule runs_ioctl_from [OF same_dev_refl])
     apply (simp add: fail)
    apply (unfold option.case)
    apply (erule runs_malloc_from)
     apply (simp add: fail)
    apply (unfold option.case)
    apply (erule runs_header_pos_from [OF _ l])
     apply (simp add: fail)
    apply simp
    apply (erule runs_blk_read_from)
    using assms(1) o apply (simp_all add: fail hdr)
    using fits hdr_long [OF fits]
    apply (simp add: gpt_offsets psize Let_def)
    apply (erule runs_calloc_from [unfolded Let_def])
     apply (simp add: fail)
    apply (simp add: off len)
    apply (erule runs_blk_read_from)
    using assms(1) o apply (simp_all add: fail crc32_over_def len flip: entries_def)
    apply (simp add: lay gpt_offsets)
    apply (intro conjI impI)
     apply (simp add: fail crc)
    apply (rule runs_set_secondary [OF assms(1) lay _ _ _ _ ce ce'])
    using fits lay by (simp_all add: fail none half ok crc len)
qed

lemma header_state_secondary:
  assumes "92 \<le> length h"
  shows "header_state crc32 (secondary_header crc32 es h) =
     (if seg 0 9 h = GPT_SIGNATURE then GPT_OK else GPT_BAD_SIGNATURE)"
    and "le32 (secondary_header crc32 es h) PARTITION_CRC_OFFSET = crc32 (crc32 0 []) es"
  using assms unfolding secondary_header_def
  by (simp_all add: header_state_sealed gpt_offsets buf_simps) (simp add: sealed_def gpt_offsets buf_simps)

text \<open>The effect of the two writes: the header alone, and both.\<close>

lemma secondary_written:
  assumes lay: "gpt_layout d" and es: "length es = ent_len d" and z: "ssz d' = ssz d"
    and b: "bytes d' = overwrite (ent_off d SECONDARY_GPT) es
         (overwrite (hdr_off d SECONDARY_GPT) (secondary_header crc32 es (hdr d SECONDARY_GPT)) (bytes d))"
  shows "gpt_layout d'" "hdr d' PRIMARY_GPT = hdr d PRIMARY_GPT" "entries d' PRIMARY_GPT = entries d PRIMARY_GPT"
    "entries d' SECONDARY_GPT = es" "hdr d' SECONDARY_GPT = secondary_header crc32 es (hdr d SECONDARY_GPT)"
    "entries_crc_ok crc32 d' SECONDARY_GPT"
proof -
  let ?h = "secondary_header crc32 es (hdr d SECONDARY_GPT)"
  note fits = layout_fits [OF lay, of SECONDARY_GPT]
  note long = hdr_long [OF fits]
  define d1 where "d1 = d\<lparr>bytes := overwrite (hdr_off d SECONDARY_GPT) ?h (bytes d)\<rparr>"
  have h: "length ?h = unat (ssz d)" "geometry ?h = geometry (hdr d SECONDARY_GPT)" using fits long by simp_all
  have z1: "ssz d1 = ssz d" "ssz d' = ssz d1" using z by (simp_all add: d1_def)
  have b1: "bytes d1 = overwrite (hdr_off d SECONDARY_GPT) ?h (bytes d)" by (simp add: d1_def)
  note w = header_written [OF lay z1(1) b1 h]
  have "bytes d' = overwrite (ent_off d1 SECONDARY_GPT) es (bytes d1)" using b w(4) b1 by simp
  note e = entries_written [OF w(6) z1(2) this]
  show 1: "gpt_layout d'" "hdr d' PRIMARY_GPT = hdr d PRIMARY_GPT" "entries d' PRIMARY_GPT = entries d PRIMARY_GPT"
    "entries d' SECONDARY_GPT = es" "hdr d' SECONDARY_GPT = ?h"
    using e es w(1-3,5) by simp_all
  show "entries_crc_ok crc32 d' SECONDARY_GPT"
    unfolding entries_crc_ok_def 1 using header_state_secondary(2) [OF long] .
qed

text \<open>
  The algebra of header updates: marking, sealing and storing the array CRC commute, and each undoes
  itself on a header that was in order.
\<close>

lemma marked_put32:
  assumes "9 \<le> p" and "p + 4 \<le> length h"
  shows "marked s (put32 p y h) = put32 p y (marked s h)"
proof (cases "s = GPT_OK")
  case True
  then show ?thesis using assms by (simp add: marked_def put32_def) (subst overwrite_commute; simp)
next
  case False
  have u: "g[0 := 0] = overwrite 0 [0] g" if "g \<noteq> []" for g :: "byte list"
    using that by (cases g) (auto simp: overwrite_def)
  have "h \<noteq> []" "put32 p y h \<noteq> []" using assms by (auto simp flip: length_greater_0_conv)
  then show ?thesis using False assms by (simp add: marked_def u) (simp add: put32_def, subst overwrite_commute; simp)
qed

lemma marked_marked:
  assumes "9 \<le> length h" and "seg 0 9 h = GPT_SIGNATURE"
  shows "marked GPT_OK (marked s h) = h"
proof -
  have "overwrite 0 GPT_SIGNATURE (h[0 := 0]) = overwrite 0 GPT_SIGNATURE h"
    using assms(1) by (intro nth_equalityI) (simp_all add: nth_overwrite)
  moreover have "overwrite 0 GPT_SIGNATURE h = h"
    using overwrite_seg_id [of 0 9 h] assms by simp
  ultimately show ?thesis using assms(1) by (simp add: marked_def)
qed

lemma length_put32_crc [simp]: "92 \<le> length h \<Longrightarrow> length (put32 PARTITION_CRC_OFFSET y h) = length h"
  by (simp add: gpt_offsets)

lemma sealed_put32 [simp]: "92 \<le> length h \<Longrightarrow> sealed crc32 (put32 HEADER_CRC_OFFSET y h) = sealed crc32 h"
  by (simp add: sealed_def) (simp add: gpt_offsets buf_simps)

lemma sealed_marked_sealed [simp]:
  "92 \<le> length h \<Longrightarrow> sealed crc32 (marked s (sealed crc32 h)) = sealed crc32 (marked s h)"
  by (simp add: sealed_def [of _ h] marked_put32 gpt_offsets) (simp add: flip: HEADER_CRC_OFFSET_def)

lemma sealed_crc_sealed [simp]:
  "92 \<le> length h \<Longrightarrow>
   sealed crc32 (put32 PARTITION_CRC_OFFSET y (sealed crc32 h)) = sealed crc32 (put32 PARTITION_CRC_OFFSET y h)"
proof -
  assume "92 \<le> length h"
  then have "put32 PARTITION_CRC_OFFSET y (sealed crc32 h) =
      put32 HEADER_CRC_OFFSET (header_crc crc32 h) (put32 PARTITION_CRC_OFFSET y h)"
    unfolding sealed_def by (intro put32_commute) (simp_all add: gpt_offsets)
  with \<open>92 \<le> length h\<close> show ?thesis by (simp add: gpt_offsets flip: HEADER_CRC_OFFSET_def)
qed

lemma sealed_id:
  assumes "92 \<le> length h" and "header_state crc32 h \<noteq> GPT_BAD_CRC"
  shows "sealed crc32 h = h"
proof -
  have "le32 h HEADER_CRC_OFFSET = header_crc crc32 h"
    using assms(2) by (auto simp: header_state_def split: if_splits)
  then show ?thesis using assms(1) put32_le32 [of HEADER_CRC_OFFSET h] by (simp add: sealed_def gpt_offsets)
qed

lemma header_ok_signature: "header_state crc32 h = GPT_OK \<Longrightarrow> seg 0 9 h = GPT_SIGNATURE"
  by (auto simp: header_state_def split: if_splits)

text \<open>Spoiling the signature of a good header and repairing it gives the header back.\<close>

lemma header_restored:
  assumes "92 \<le> length h" and "header_state crc32 h = GPT_OK"
  shows "sealed crc32 (marked GPT_OK (sealed crc32 (marked s h))) = h"
  using assms header_ok_signature [OF assms(2)] by (simp add: marked_marked sealed_id)

text \<open>The same for the secondary header, whose array CRC is changed and restored as well.\<close>

lemma secondary_restored:
  assumes "92 \<le> length h" and "header_state crc32 h = GPT_OK"
    and "le32 h PARTITION_CRC_OFFSET = crc32 (crc32 0 []) es"
  shows "sealed crc32 (marked GPT_OK (secondary_header crc32 es
     (sealed crc32 (marked s (secondary_header crc32 es' h))))) = h"
proof -
  let ?p = "put32 PARTITION_CRC_OFFSET"
  have "sealed crc32 (marked GPT_OK (secondary_header crc32 es
     (sealed crc32 (marked s (secondary_header crc32 es' h))))) =
     sealed crc32 (marked GPT_OK (?p (crc32 (crc32 0 []) es) (marked s (?p (crc32 (crc32 0 []) es') h))))"
    using assms(1) by (simp add: secondary_header_def)
  also have "\<dots> = sealed crc32 (?p (crc32 (crc32 0 []) es) (marked GPT_OK (marked s h)))"
    using assms(1) by (simp add: marked_put32 gpt_offsets put32_put32_same)
  also have "\<dots> = sealed crc32 h"
    using assms header_ok_signature [OF assms(2)] put32_le32 [of PARTITION_CRC_OFFSET h]
    by (simp add: marked_marked gpt_offsets)
  finally show ?thesis using assms by (simp add: sealed_id)
qed

section \<open>What stays outside the regions that are written\<close>

text \<open>
  The functions write the two headers and the secondary entries. \<open>same_outside\<close>: everything else on the disk,
  and where these regions lie, is as before.
\<close>

definition same_outside :: "dev \<Rightarrow> dev \<Rightarrow> bool" where
  "same_outside d d' \<longleftrightarrow> ssz d' = ssz d \<and> length (bytes d') = length (bytes d) \<and>
     ent_off d' SECONDARY_GPT = ent_off d SECONDARY_GPT \<and> ent_len d' = ent_len d \<and>
     (\<forall>i < length (bytes d).
        i < unat (ssz d) \<or> 2 * unat (ssz d) \<le> i \<and> i < ent_off d SECONDARY_GPT \<or>
        ent_off d SECONDARY_GPT + ent_len d \<le> i \<and> i < length (bytes d) - unat (ssz d) \<longrightarrow>
        bytes d' ! i = bytes d ! i)"

lemma same_outside_trans [trans]: "same_outside a b \<Longrightarrow> same_outside b c \<Longrightarrow> same_outside a c"
  by (auto simp: same_outside_def)

lemma same_outside_same: "same_dev d d' \<Longrightarrow> same_outside d d'"
  by (simp add: same_outside_def ent_same same_dev_facts)

lemma same_outside_header:
  assumes "gpt_layout d" and z: "ssz d' = ssz d" and "bytes d' = overwrite (hdr_off d gpt) h (bytes d)"
    and "length h = unat (ssz d)" and "geometry h = geometry (hdr d gpt)"
  shows "same_outside d d'"
proof -
  note o = layout_order [OF assms(1)]
  have "hdr_off d gpt + length h \<le> length (bytes d)" using o assms(4) by (cases gpt) auto
  with header_written(4,5) [OF assms] o show ?thesis
    unfolding same_outside_def assms(3) z using assms(4) by (cases gpt) (auto simp: nth_overwrite)
qed

lemma same_outside_entries:
  assumes "gpt_layout d" and z: "ssz d' = ssz d" and "bytes d' = overwrite (ent_off d SECONDARY_GPT) es (bytes d)"
    and "length es = ent_len d"
  shows "same_outside d d'"
proof -
  note o = layout_order [OF assms(1)]
  have "ent_off d' SECONDARY_GPT = ent_off d SECONDARY_GPT" "ent_len d' = ent_len d"
    by (simp_all add: ent_off_def ent_len_def entries_written(1) [OF assms] z)
  then show ?thesis
    unfolding same_outside_def assms(3) z using assms(4) o by (auto simp: nth_overwrite)
qed

text \<open>If the regions that are written hold what they held before, the disk is what it was before.\<close>

lemma disk_restored:
  assumes lay: "gpt_layout d" and out: "same_outside d d'" and "hdr d' PRIMARY_GPT = hdr d PRIMARY_GPT"
    and "hdr d' SECONDARY_GPT = hdr d SECONDARY_GPT" and "entries d' SECONDARY_GPT = entries d SECONDARY_GPT"
  shows "bytes d' = bytes d"
proof (rule nth_equalityI)
  note o = layout_order [OF lay]
  have l: "length (bytes d') = length (bytes d)" and z: "ssz d' = ssz d" using out by (simp_all add: same_outside_def)
  then show "length (bytes d') = length (bytes d)" by simp
  have off: "hdr_off d' g = hdr_off d g" for g by (cases g) (simp_all add: hdr_off_def l z)
  have h: "bytes d' ! i = bytes d ! i" if "hdr_off d g \<le> i" "i < hdr_off d g + unat (ssz d)" for g i
  proof -
    have "seg (hdr_off d g) (unat (ssz d)) (bytes d') = seg (hdr_off d g) (unat (ssz d)) (bytes d)"
      using assms(3,4) by (cases g) (simp_all add: hdr_def off z)
    from seg_eq_nth [OF this, of "i - hdr_off d g"] that o l show ?thesis by (cases g) auto
  qed
  have e: "bytes d' ! i = bytes d ! i"
    if "ent_off d SECONDARY_GPT \<le> i" "i < ent_off d SECONDARY_GPT + ent_len d" for i
  proof -
    have "seg (ent_off d SECONDARY_GPT) (ent_len d) (bytes d') = seg (ent_off d SECONDARY_GPT) (ent_len d) (bytes d)"
      using assms(5) out by (simp add: entries_def same_outside_def)
    from seg_eq_nth [OF this, of "i - ent_off d SECONDARY_GPT"] that o l show ?thesis by auto
  qed
  fix i assume "i < length (bytes d')"
  then have i: "i < length (bytes d)" using l by simp
  show "bytes d' ! i = bytes d ! i"
  proof (cases "hdr_off d PRIMARY_GPT \<le> i \<and> i < hdr_off d PRIMARY_GPT + unat (ssz d) \<or>
      hdr_off d SECONDARY_GPT \<le> i \<or> ent_off d SECONDARY_GPT \<le> i \<and> i < ent_off d SECONDARY_GPT + ent_len d")
    case True
    then show ?thesis using h [of _ i] e [of i] o(5) i by auto
  next
    case False
    with i o have "i < unat (ssz d) \<or> 2 * unat (ssz d) \<le> i \<and> i < ent_off d SECONDARY_GPT \<or>
        ent_off d SECONDARY_GPT + ent_len d \<le> i \<and> i < length (bytes d) - unat (ssz d)" by auto
    with out i show ?thesis unfolding same_outside_def by blast
  qed
qed

section \<open>Both functions in terms of the copies\<close>

lemma array_crc_sealed_marked:
  "92 \<le> length h \<Longrightarrow> le32 (sealed crc32 (marked s h)) PARTITION_CRC_OFFSET = le32 h PARTITION_CRC_OFFSET"
  by (simp add: sealed_def gpt_offsets buf_simps) (rule le32_cong; simp add: seg_marked)

lemma runs_set_state_copies:
  assumes "no_short d" and lay: "gpt_layout d" and "s \<noteq> GPT_BAD_CRC"
    and fail: "\<And>d'. same_dev d d' \<Longrightarrow> evs d \<noteq> [] \<Longrightarrow> Q (-1, d')"
    and ok: "\<And>d'. later d d' \<Longrightarrow> gpt_layout d' \<Longrightarrow> same_outside d d' \<Longrightarrow> hdr d' gpt = sealed crc32 (marked s (hdr d gpt)) \<Longrightarrow>
       (\<And>g. g \<noteq> gpt \<Longrightarrow> hdr d' g = hdr d g) \<Longrightarrow> (\<And>g. entries d' g = entries d g) \<Longrightarrow> Q (0, d')"
  shows "runs (gpt_set_state crc32 d gpt s) Q"
proof (rule runs_set_state [OF assms(1) layout_fits [OF lay] assms(3)])
  let ?h = "sealed crc32 (marked s (hdr d gpt))"
  note long = hdr_long [OF layout_fits [OF lay], of gpt]
  have h: "length ?h = unat (ssz d)" "geometry ?h = geometry (hdr d gpt)" using layout_fits [OF lay] long by simp_all
  fix d' assume l: "later d d'" and b: "bytes d' = overwrite (hdr_off d gpt) ?h (bytes d)"
  then have z: "ssz d' = ssz d" by (simp add: later_def)
  note w = header_written [OF lay z b h] same_outside_header [OF lay z b h]
  show "Q (0, d')" using ok [OF l w(6,7,1) w(2,3)] .
qed (rule fail)

lemma runs_set_chain_copies:
  assumes "no_short d" and lay: "gpt_layout d"
    and ce: "chain_entries is_ufs boot (entries d PRIMARY_GPT) = Some (r, es)"
    and fail: "\<And>d'. same_dev d d' \<Longrightarrow> evs d \<noteq> [] \<or> \<not> entries_crc_ok crc32 d PRIMARY_GPT \<Longrightarrow> Q (-1, d')"
    and none: "\<And>d'. same_dev d d' \<Longrightarrow> r = 1 \<Longrightarrow> Q (1, d')"
    and half: "\<And>d'. later d d' \<Longrightarrow> gpt_layout d' \<Longrightarrow> same_outside d d' \<Longrightarrow> evs d \<noteq> [] \<Longrightarrow>
       hdr d' PRIMARY_GPT = hdr d PRIMARY_GPT \<Longrightarrow> entries d' PRIMARY_GPT = entries d PRIMARY_GPT \<Longrightarrow> Q (-1, d')"
    and ok: "\<And>d'. later d d' \<Longrightarrow> gpt_layout d' \<Longrightarrow> same_outside d d' \<Longrightarrow> r = 0 \<Longrightarrow>
       hdr d' PRIMARY_GPT = hdr d PRIMARY_GPT \<Longrightarrow> entries d' PRIMARY_GPT = entries d PRIMARY_GPT \<Longrightarrow>
       hdr d' SECONDARY_GPT = secondary_header crc32 es (hdr d SECONDARY_GPT) \<Longrightarrow> entries d' SECONDARY_GPT = es \<Longrightarrow>
       entries_crc_ok crc32 d' SECONDARY_GPT \<Longrightarrow> Q (0, d')"
  shows "runs (gpt2_set_boot_chain crc32 is_ufs d boot) Q"
proof (rule runs_set_boot_chain [OF assms(1) lay ce])
  let ?h = "secondary_header crc32 es (hdr d SECONDARY_GPT)"
  note long = hdr_long [OF layout_fits [OF lay], of SECONDARY_GPT]
  have h: "length ?h = unat (ssz d)" "geometry ?h = geometry (hdr d SECONDARY_GPT)"
    using layout_fits [OF lay] long by simp_all
  obtain m where "length (entries d PRIMARY_GPT) = 128 * m" using ent_len_128 [OF lay] lay by auto
  from chain_entries_defined [OF this, of is_ufs boot] ce have es: "length es = ent_len d" using lay by simp
  {
    fix d' assume l: "later d d'" and "evs d \<noteq> []" and b: "bytes d' = overwrite (hdr_off d SECONDARY_GPT) ?h (bytes d)"
    then have z: "ssz d' = ssz d" by (simp add: later_def)
    note w = header_written [OF lay z b h] same_outside_header [OF lay z b h]
    show "Q (-1, d')" using half [OF l w(6,7) \<open>evs d \<noteq> []\<close>] w(2,3) by simp
  next
    fix d' assume l: "later d d'" and "r = 0" and b: "bytes d' = overwrite (ent_off d SECONDARY_GPT) es
         (overwrite (hdr_off d SECONDARY_GPT) ?h (bytes d))"
    then have z: "ssz d' = ssz d" by (simp add: later_def)
    define d1 where "d1 = d\<lparr>bytes := overwrite (hdr_off d SECONDARY_GPT) ?h (bytes d)\<rparr>"
    have z1: "ssz d1 = ssz d" "ssz d' = ssz d1" and b1: "bytes d1 = overwrite (hdr_off d SECONDARY_GPT) ?h (bytes d)"
      using z by (simp_all add: d1_def)
    note w = header_written [OF lay z1(1) b1 h]
    have b2: "bytes d' = overwrite (ent_off d1 SECONDARY_GPT) es (bytes d1)" using b w(4) b1 by simp
    have "same_outside d d'"
      using same_outside_trans [OF same_outside_header [OF lay z1(1) b1 h] same_outside_entries [OF w(6) z1(2) b2]]
        es w(5) by simp
    then show "Q (0, d')"
      using ok [OF l _ _ \<open>r = 0\<close>] secondary_written [OF lay es z b] by simp
  }
qed (auto intro: fail none)

section \<open>A small disk\<close>

text \<open>
  Nine sectors of 128 bytes: a protective sector, the primary header and three entries, three entries
  and the secondary header. The checksum of the concrete instances is a sum of the bytes.
\<close>

definition sum_crc :: crc_fun where
  "sum_crc c bs = fold (\<lambda>b a. a + ucast b) bs c"

definition sample_header :: "byte \<Rightarrow> byte list \<Rightarrow> byte list" where
  "sample_header lba es =
     sealed sum_crc (put32 PARTITION_CRC_OFFSET (sum_crc 0 es)
       (GPT_SIGNATURE @ [0, 1, 0] @ [92, 0, 0, 0] @ replicate 56 0 @ [lba, 0, 0, 0, 0, 0, 0, 0] @
        [3, 0, 0, 0] @ [128, 0, 0, 0] @ replicate 40 0))"

definition sample_dev :: dev where
  "sample_dev = \<lparr>bytes = replicate 128 0 @ sample_header 2 sample_array @ sample_array @ sample_array @
       sample_header 5 sample_array, ssz = 128, evs = [], junk = (\<lambda>_. 0)\<rparr>"

lemma length_sample_header: "length (sample_header b es) = 128"
  by (simp add: sample_header_def gpt_offsets)

lemma sample_dev_parts:
  "ssz sample_dev = 128" "length (bytes sample_dev) = 1152" "evs sample_dev = []"
  "hdr sample_dev PRIMARY_GPT = sample_header 2 sample_array"
  "hdr sample_dev SECONDARY_GPT = sample_header 5 sample_array"
  by (simp_all add: sample_dev_def hdr_def hdr_off_def seg_def length_sample_header length_sample_array)

lemma sample_header_geometry: "geometry (sample_header b es) = (92, ucast b, 3, 128)"
proof -
  let ?h = "GPT_SIGNATURE @ [0, 1, 0] @ [92, 0, 0, 0] @ replicate 56 0 @ [b, 0, 0, 0, 0, 0, 0, 0] @
        [3, 0, 0, 0] @ [128, 0, 0, 0] @ replicate 40 0 :: byte list"
  have "geometry (sample_header b es) = geometry ?h"
    by (simp add: sample_header_def gpt_offsets)
  also have "\<dots> = (92, ucast b, 3, 128)"
    by (simp add: geometry_def le32_def le64_def GET_4_BYTES_def GET_8_BYTES_def gpt_offsets nth_append)
  finally show ?thesis .
qed

lemma sample_dev_layout: "gpt_layout sample_dev"
proof -
  note g = sample_header_geometry [unfolded geometry_def prod.inject]
  show ?thesis
    by (simp add: gpt_layout_def hdr_fits_def ent_off_def ent_len_def sample_dev_parts g)
qed

lemma sample_dev_no_short: "no_short sample_dev"
  by (simp add: no_short_def sample_dev_parts)

lemma sample_dev_entries: "entries sample_dev g = sample_array"
proof -
  note p = sample_header_geometry [unfolded geometry_def prod.inject]
  have "ent_len sample_dev = 384" by (simp add: ent_len_def sample_dev_parts p)
  moreover have "ent_off sample_dev PRIMARY_GPT = 256" "ent_off sample_dev SECONDARY_GPT = 640"
    by (simp_all add: ent_off_def sample_dev_parts p)
  ultimately show ?thesis
    by (cases g) (simp_all add: entries_def seg_def sample_dev_def length_sample_header length_sample_array)
qed

lemma sample_dev_crc: "entries_crc_ok sum_crc sample_dev g"
proof -
  have "le32 (sample_header b es) PARTITION_CRC_OFFSET = sum_crc (sum_crc 0 []) es" for b es
    by (simp add: sample_header_def sealed_def gpt_offsets buf_simps) (simp add: sum_crc_def)
  then show ?thesis
    by (cases g) (simp_all add: entries_crc_ok_def sample_dev_parts sample_dev_entries)
qed

lemma sample_dev_state: "header_state sum_crc (hdr sample_dev g) = GPT_OK"
proof -
  have "header_state sum_crc (sample_header b es) = GPT_OK" for b es
    unfolding sample_header_def
    by (subst header_state_sealed) (simp_all add: gpt_offsets buf_simps, simp add: seg_def)
  then show ?thesis by (cases g) (simp_all add: sample_dev_parts)
qed

section \<open>Properties\<close>

text \<open>
  On a disk whose header fits its sector, \<open>gpt_get_state\<close> reads inside its buffer, leaves the disk alone and,
  when it succeeds, reports the state the header has; it can fail only when a system call fails.
\<close>

theorem gpt_get_state_exact:
  assumes "no_short d" and "hdr_fits d gpt"
  shows "runs (gpt_get_state crc32 d gpt) (\<lambda>(r, s, d'). same_dev d d' \<and>
     (r = 0 \<and> s = header_state crc32 (hdr d gpt) \<or> r = -1 \<and> s = GPT_OK \<and> evs d \<noteq> []))"
  by (rule runs_get_state [OF assms]) simp_all

theorem gpt_get_state_exact_witness:
  "\<exists>d'. gpt_get_state sum_crc sample_dev SECONDARY_GPT = Some (0, GPT_OK, d')"
  using gpt_get_state_exact [OF sample_dev_no_short layout_fits [OF sample_dev_layout], of sum_crc SECONDARY_GPT]
  by (auto simp: runs_iff sample_dev_state sample_dev_parts(3))

text \<open>
  \<open>gpt_set_state\<close> with a state other than a bad CRC either succeeds, and then the header of the chosen copy has
  exactly that state while the other header, both entry arrays and the layout are as before, or it fails,
  because a system call failed, with the disk unchanged.
\<close>

theorem gpt_set_state_exact:
  assumes "no_short d" and "gpt_layout d" and "s \<noteq> GPT_BAD_CRC"
  shows "runs (gpt_set_state crc32 d gpt s) (\<lambda>(r, d').
     r = 0 \<and> later d d' \<and> gpt_layout d' \<and> header_state crc32 (hdr d' gpt) = s \<and>
       (\<forall>g. g \<noteq> gpt \<longrightarrow> hdr d' g = hdr d g) \<and> (\<forall>g. entries d' g = entries d g) \<or>
     r = -1 \<and> same_dev d d' \<and> evs d \<noteq> [])"
  using header_state_marked [OF hdr_long [OF layout_fits [OF assms(2)]] assms(3), of crc32 gpt]
  by (intro runs_set_state_copies [OF assms]) simp_all

theorem gpt_set_state_exact_witness:
  "\<exists>d'. gpt_set_state sum_crc sample_dev PRIMARY_GPT GPT_BAD_SIGNATURE = Some (0, d') \<and>
     header_state sum_crc (hdr d' PRIMARY_GPT) = GPT_BAD_SIGNATURE"
  using gpt_set_state_exact [OF sample_dev_no_short sample_dev_layout, of GPT_BAD_SIGNATURE sum_crc PRIMARY_GPT]
  by (auto simp: runs_iff sample_dev_parts)

text \<open>
  Claim C5. \<open>gpt2_set_boot_chain\<close> never touches the primary copy. It returns 0 exactly when the secondary copy has been rewritten:
  its entries are then the primary ones (with the pairs swapped for the backup chain), its array CRC matches them and its header CRC
  is right, the signature being kept. It returns 1 with the disk unchanged when there is no backup
  to swap, and -1 only for a failed system call or a primary array whose CRC is wrong.
\<close>

theorem gpt2_set_boot_chain_exact:
  assumes "no_short d" and "gpt_layout d"
  shows "runs (gpt2_set_boot_chain crc32 is_ufs d boot) (\<lambda>(r, d').
     later d d' \<and> gpt_layout d' \<and> hdr d' PRIMARY_GPT = hdr d PRIMARY_GPT \<and> entries d' PRIMARY_GPT = entries d PRIMARY_GPT \<and>
     (r = 0 \<and> chain_entries is_ufs boot (entries d PRIMARY_GPT) = Some (0, entries d' SECONDARY_GPT) \<and>
        entries_crc_ok crc32 d' SECONDARY_GPT \<and>
        header_state crc32 (hdr d' SECONDARY_GPT) =
          (if seg 0 9 (hdr d SECONDARY_GPT) = GPT_SIGNATURE then GPT_OK else GPT_BAD_SIGNATURE) \<or>
      r = 1 \<and> same_dev d d' \<and> (\<exists>es. chain_entries is_ufs boot (entries d PRIMARY_GPT) = Some (1, es)) \<or>
      r = -1 \<and> (evs d \<noteq> [] \<or> same_dev d d' \<and> \<not> entries_crc_ok crc32 d PRIMARY_GPT)))"
    (is "runs _ ?Q")
proof -
  note lay = assms(2)
  note long = hdr_long [OF layout_fits [OF lay], of SECONDARY_GPT]
  obtain m where "length (entries d PRIMARY_GPT) = 128 * m" using ent_len_128 [OF lay] lay by auto
  from chain_entries_defined [OF this] obtain r es where
    ce: "chain_entries is_ufs boot (entries d PRIMARY_GPT) = Some (r, es)" and es: "length es = ent_len d"
    using lay by fastforce
  have same: "same_dev d d' \<Longrightarrow> later d d' \<and> gpt_layout d' \<and> hdr d' PRIMARY_GPT = hdr d PRIMARY_GPT \<and>
      entries d' PRIMARY_GPT = entries d PRIMARY_GPT" for d'
    using lay by (auto simp: dev_same) (simp add: same_dev_def)
  show ?thesis
  proof (rule runs_set_chain_copies [OF assms ce])
    fix d' assume s: "same_dev d d'" and "evs d \<noteq> [] \<or> \<not> entries_crc_ok crc32 d PRIMARY_GPT"
    then show "?Q (- 1, d')" using same [OF s] by blast
  next
    fix d' assume s: "same_dev d d'" and "r = 1"
    then show "?Q (1, d')" using same [OF s] ce by simp
  qed (use ce header_state_secondary(1) [OF long] in simp_all)
qed

theorem gpt2_set_boot_chain_exact_witness:
  "\<exists>d'. gpt2_set_boot_chain sum_crc True sample_dev NORMAL_BOOT = Some (0, d') \<and> entries d' SECONDARY_GPT = sample_array"
  using gpt2_set_boot_chain_exact [OF sample_dev_no_short sample_dev_layout, of sum_crc True NORMAL_BOOT]
  by (auto simp: runs_iff sample_dev_parts(3) sample_dev_crc sample_dev_entries chain_entries_def)

end
