(* ===== verification/World.thy ===== *)
theory World
  imports Gpt_Header
begin

text \<open>
  What the update code sees of the system besides a disk: system properties, symbolic links, paths
  that \<open>stat\<close> finds, directories, disks by path, and the UFS device node with its open handle.
\<close>

section \<open>State\<close>

text \<open>
  The two structures the UFS code fills: \<open>ufs_bsg_request\<close> with its multi-byte fields in the byte order
  they have in memory, and the fields of \<open>sg_io_v4\<close> that carry a value. A reply of the driver is the return value
  of the ioctl, the \<open>info\<close> field and the \<open>result\<close> of the response.
\<close>

record ufs_bsg_request =
  msgcode :: u32
  dword_0 :: "byte list"
  dword_1 :: "byte list"
  dword_2 :: "byte list"
  qr_opcode :: u8
  qr_idn :: u8
  qr_index :: u8
  qr_selector :: u8
  qr_length :: "byte list"
  qr_value :: "byte list"

record sg_io_v4 =
  guard :: char
  request :: ufs_bsg_request
  din_xfer_len :: u32
  dout_xfer_len :: u32

type_synonym sg_reply = "int \<times> u32 \<times> u32"

record world =
  sys_props :: "string \<rightharpoonup> string"
  links :: "string \<rightharpoonup> string"
  paths :: "string list"
  dirs :: "string \<rightharpoonup> string list"
  disks :: "string \<rightharpoonup> dev"
  ufs_bsg_dev :: string
  fd_ufs_bsg :: int
  next_fd :: int                     \<comment> \<open>what the next successful \<open>open\<close> returns\<close>
  open_errno :: "string \<Rightarrow> int"       \<comment> \<open>0, or the error of opening this node\<close>
  open_fds :: "int list"
  sg_replies :: "sg_reply list"      \<comment> \<open>of the next requests; all zero when empty\<close>
  sg_log :: "(int \<times> sg_io_v4) list"

section \<open>Calls\<close>

definition stat :: "world \<Rightarrow> string \<Rightarrow> int" where
  "stat w p = (if p \<in> set (paths w) then 0 else -1)"

text \<open>\<open>readlink(p, buf, n)\<close> into a buffer of zeros: the string the buffer then holds.\<close>

definition readlink :: "world \<Rightarrow> string \<Rightarrow> nat \<Rightarrow> string option" where
  "readlink w p n = map_option (\<lambda>t. cstr (take n t)) (links w p)"

definition property_get :: "world \<Rightarrow> string \<Rightarrow> string \<Rightarrow> string" where
  "property_get w key dflt = snprintf 92 (case sys_props w key of None \<Rightarrow> dflt | Some v \<Rightarrow> v)"

definition sys_open :: "string \<Rightarrow> world \<Rightarrow> int \<times> int \<times> world" where
  "sys_open p w =
     (if open_errno w p \<noteq> 0 then (-1, open_errno w p, w)
      else (next_fd w, 0, w\<lparr>open_fds := next_fd w # open_fds w\<rparr>))"

definition sys_close :: "int \<Rightarrow> world \<Rightarrow> world" where
  "sys_close fd w = w\<lparr>open_fds := remove1 fd (open_fds w)\<rparr>"

definition ioctl_SG_IO :: "int \<Rightarrow> sg_io_v4 \<Rightarrow> world \<Rightarrow> sg_reply \<times> world" where
  "ioctl_SG_IO fd io w =
     (case sg_replies w of
        [] \<Rightarrow> ((0, 0, 0), w\<lparr>sg_log := sg_log w @ [(fd, io)]\<rparr>)
      | a # as \<Rightarrow> (a, w\<lparr>sg_replies := as, sg_log := sg_log w @ [(fd, io)]\<rparr>))"

end
