(* ===== verification/Ufs_Bsg.thy ===== *)
theory Ufs_Bsg
  imports World
begin

text \<open>
  \<open>recovery-ufs-bsg.cpp\<close> as the Android build compiles it (with the BSG kernel headers): the choice of the
  boot LUN is one write of the UFS attribute \<open>bBootLunEn\<close>, sent as a query request to the BSG node.
\<close>

section \<open>Constants\<close>

definition FNAME_SZ :: nat where "FNAME_SZ = 64"
definition UTP_UPIU_QUERY_REQ :: u32 where "UTP_UPIU_QUERY_REQ = 0x16"
definition QUERY_REQ_FUNC_STD_WRITE :: u8 where "QUERY_REQ_FUNC_STD_WRITE = 0x81"
definition QUERY_REQ_OP_WRITE_DESC :: u8 where "QUERY_REQ_OP_WRITE_DESC = 2"
definition QUERY_REQ_OP_WRITE_ATTR :: u8 where "QUERY_REQ_OP_WRITE_ATTR = 4"
definition QUERY_ATTR_IDN_BOOT_LU_EN :: u8 where "QUERY_ATTR_IDN_BOOT_LU_EN = 0"
definition ENODEV :: int where "ENODEV = 19"
definition EINVAL :: int where "EINVAL = 22"
definition EAGAIN :: int where "EAGAIN = 11"

lemmas ufs_consts = UTP_UPIU_QUERY_REQ_def QUERY_REQ_FUNC_STD_WRITE_def QUERY_REQ_OP_WRITE_DESC_def
  QUERY_REQ_OP_WRITE_ATTR_def QUERY_ATTR_IDN_BOOT_LU_EN_def ENODEV_def EINVAL_def EAGAIN_def

datatype bsg_ioctl_dir = BSG_IOCTL_DIR_TO_DEV | BSG_IOCTL_DIR_FROM_DEV

text \<open>The bytes of a number in memory after the conversion to big-endian order.\<close>

definition htobe32 :: "u32 \<Rightarrow> byte list" where
  "htobe32 v = [ucast (drop_bit 24 v), ucast (drop_bit 16 v), ucast (drop_bit 8 v), ucast v]"

definition htobe16 :: "u16 \<Rightarrow> byte list" where
  "htobe16 v = [ucast (drop_bit 8 v), ucast v]"

definition DWORD :: "u32 \<Rightarrow> u32 \<Rightarrow> u32 \<Rightarrow> u32 \<Rightarrow> byte list" where
  "DWORD b3 b2 b1 b0 = htobe32 (push_bit 24 b3 OR push_bit 16 b2 OR push_bit 8 b1 OR b0)"

section \<open>Functions\<close>

fun find_bsg_node :: "string list \<Rightarrow> string option" where
  "find_bsg_node [] = None"
| "find_bsg_node (n # ns) =
     (if strcmp_eq n ''ufs-bsg'' \<or> strcmp_eq n ''ufs-bsg0'' then Some n else find_bsg_node ns)"

definition get_ufs_bsg_dev :: "world \<Rightarrow> int \<times> world" where
  "get_ufs_bsg_dev w =
     (case dirs w ''/dev'' of
        None \<Rightarrow> (- EINVAL, w)
      | Some ents \<Rightarrow>
          (case find_bsg_node ents of
             None \<Rightarrow> (- ENODEV, w)
           | Some n \<Rightarrow> (0, w\<lparr>ufs_bsg_dev := snprintf FNAME_SZ (''/dev/'' @ n)\<rparr>)))"

definition ufs_bsg_dev_open :: "world \<Rightarrow> int \<times> world" where
  "ufs_bsg_dev_open w =
     (if fd_ufs_bsg w = 0 then
        (let (fd, errno, w) = sys_open (ufs_bsg_dev w) w;
             w = w\<lparr>fd_ufs_bsg := fd\<rparr>;
             ret = errno in
         if fd_ufs_bsg w < 0 then (ret, w\<lparr>fd_ufs_bsg := 0\<rparr>) else (0, w))
      else (0, w))"

definition ufs_bsg_dev_close :: "world \<Rightarrow> world" where
  "ufs_bsg_dev_close w =
     (if fd_ufs_bsg w \<noteq> 0 then (sys_close (fd_ufs_bsg w) w)\<lparr>fd_ufs_bsg := 0\<rparr> else w)"

definition ufs_bsg_ioctl ::
  "int \<Rightarrow> ufs_bsg_request \<Rightarrow> u32 \<Rightarrow> bsg_ioctl_dir \<Rightarrow> world \<Rightarrow> int \<times> world" where
  "ufs_bsg_ioctl fd req buf_len dir w =
     (let sg_io =
        (if dir = BSG_IOCTL_DIR_FROM_DEV
         then \<lparr>guard = CHR ''Q'', request = req, din_xfer_len = buf_len, dout_xfer_len = 0\<rparr>
         else \<lparr>guard = CHR ''Q'', request = req, din_xfer_len = 0, dout_xfer_len = buf_len\<rparr>);
        ((ret, info, result), w) = ioctl_SG_IO fd sg_io w in
      (if info \<noteq> 0 \<or> result \<noteq> 0 then - EAGAIN else ret, w))"

definition compose_ufs_bsg_query_req ::
  "ufs_bsg_request \<Rightarrow> u8 \<Rightarrow> u8 \<Rightarrow> u8 \<Rightarrow> u8 \<Rightarrow> u8 \<Rightarrow> u16 \<Rightarrow> ufs_bsg_request" where
  "compose_ufs_bsg_query_req req func opcode idn index sel len =
     req\<lparr>msgcode := UTP_UPIU_QUERY_REQ,
         dword_0 := DWORD UTP_UPIU_QUERY_REQ 0 0 0,
         dword_1 := DWORD 0 (ucast func) 0 0,
         dword_2 := DWORD 0 0 (ucast (drop_bit 8 len)) (ucast (ucast len :: u8)),
         qr_opcode := opcode, qr_idn := idn, qr_index := index, qr_selector := sel,
         qr_length := htobe16 len\<rparr>"

definition zero_request :: ufs_bsg_request where
  "zero_request = \<lparr>msgcode = 0, dword_0 = [0,0,0,0], dword_1 = [0,0,0,0], dword_2 = [0,0,0,0],
     qr_opcode = 0, qr_idn = 0, qr_index = 0, qr_selector = 0, qr_length = [0,0], qr_value = [0,0,0,0]\<rparr>"

definition ufs_query_attr ::
  "int \<Rightarrow> u32 \<Rightarrow> u8 \<Rightarrow> u8 \<Rightarrow> u8 \<Rightarrow> u8 \<Rightarrow> u8 \<Rightarrow> world \<Rightarrow> int \<times> world" where
  "ufs_query_attr fd value func opcode idn index sel w =
     (let dir = (if opcode = QUERY_REQ_OP_WRITE_DESC \<or> opcode = QUERY_REQ_OP_WRITE_ATTR
                 then BSG_IOCTL_DIR_TO_DEV else BSG_IOCTL_DIR_FROM_DEV);
          req = zero_request\<lparr>qr_value := htobe32 value\<rparr>;
          req = compose_ufs_bsg_query_req req func opcode idn index sel 0 in
      ufs_bsg_ioctl fd req 0 dir w)"

definition set_boot_lun :: "u8 \<Rightarrow> world \<Rightarrow> int \<times> world" where
  "set_boot_lun lun_id w =
     (let boot_lun_id = ucast lun_id;
          (ret, w) = get_ufs_bsg_dev w in
      if ret \<noteq> 0 then (ret, w)
      else
        (let (ret, w) = ufs_bsg_dev_open w in
         if ret \<noteq> 0 then (ret, w)
         else
           (let (ret, w) = ufs_query_attr (fd_ufs_bsg w) boot_lun_id QUERY_REQ_FUNC_STD_WRITE
                  QUERY_REQ_OP_WRITE_ATTR QUERY_ATTR_IDN_BOOT_LU_EN 0 0 w in
            (ret, ufs_bsg_dev_close w))))"

section \<open>Behaviour\<close>

text \<open>The request on the wire: a query write of attribute 0, whose value is the LUN in big-endian order.\<close>

definition boot_lun_request :: "u8 \<Rightarrow> ufs_bsg_request" where
  "boot_lun_request lun =
     \<lparr>msgcode = 0x16, dword_0 = [0x16, 0, 0, 0], dword_1 = [0, 0x81, 0, 0], dword_2 = [0, 0, 0, 0],
      qr_opcode = 4, qr_idn = 0, qr_index = 0, qr_selector = 0, qr_length = [0, 0], qr_value = [0, 0, 0, lun]\<rparr>"

lemma htobe32_ucast: "htobe32 (ucast (b :: u8)) = [0, 0, 0, b]"
proof -
  have "(ucast (drop_bit k (ucast b :: u32)) :: byte) = 0" if "8 \<le> k" for k
    using that by (intro bit_word_eqI) (auto simp: bit_simps dest: bit_imp_le_length)
  moreover have "(ucast (ucast b :: u32) :: byte) = b" by (intro bit_word_eqI) (auto simp: bit_simps)
  ultimately show ?thesis by (simp add: htobe32_def)
qed

lemma boot_lun_request_composed:
  "compose_ufs_bsg_query_req (zero_request\<lparr>qr_value := htobe32 (ucast lun)\<rparr>) QUERY_REQ_FUNC_STD_WRITE
     QUERY_REQ_OP_WRITE_ATTR QUERY_ATTR_IDN_BOOT_LU_EN 0 0 0 = boot_lun_request lun"
  unfolding htobe32_ucast
  by (simp add: compose_ufs_bsg_query_req_def zero_request_def boot_lun_request_def ufs_consts DWORD_def
      htobe32_def htobe16_def push_bit_eq_mult drop_bit_eq_div)

definition bsg_node :: "world \<Rightarrow> string option" where
  "bsg_node w = (case dirs w ''/dev'' of None \<Rightarrow> None | Some ents \<Rightarrow> find_bsg_node ents)"

definition bsg_path :: "string \<Rightarrow> string" where
  "bsg_path n = snprintf FNAME_SZ (''/dev/'' @ n)"

definition next_reply :: "world \<Rightarrow> sg_reply" where
  "next_reply w = (case sg_replies w of [] \<Rightarrow> (0, 0, 0) | a # _ \<Rightarrow> a)"

lemma get_ufs_bsg_dev_eq:
  "get_ufs_bsg_dev w =
     (case bsg_node w of
        Some n \<Rightarrow> (0, w\<lparr>ufs_bsg_dev := bsg_path n\<rparr>)
      | None \<Rightarrow> (if dirs w ''/dev'' = None then - EINVAL else - ENODEV, w))"
  by (simp add: get_ufs_bsg_dev_def bsg_node_def bsg_path_def split: option.split)

lemma ufs_query_attr_eq:
  "ufs_query_attr fd (ucast lun) QUERY_REQ_FUNC_STD_WRITE QUERY_REQ_OP_WRITE_ATTR QUERY_ATTR_IDN_BOOT_LU_EN 0 0 w =
     (case next_reply w of (ret, info, result) \<Rightarrow>
        (if info \<noteq> 0 \<or> result \<noteq> 0 then - EAGAIN else ret,
         w\<lparr>sg_replies := tl (sg_replies w),
           sg_log := sg_log w @ [(fd, \<lparr>guard = CHR ''Q'', request = boot_lun_request lun, din_xfer_len = 0,
                                       dout_xfer_len = 0\<rparr>)]\<rparr>))"
  by (cases "sg_replies w")
    (auto simp: ufs_query_attr_def boot_lun_request_composed ufs_bsg_ioctl_def ioctl_SG_IO_def next_reply_def Let_def
      split: prod.split)

lemma set_boot_lun_eq:
  assumes "fd_ufs_bsg w = 0" and "0 < next_fd w"
  shows "set_boot_lun lun w =
     (case bsg_node w of
        None \<Rightarrow> (if dirs w ''/dev'' = None then - EINVAL else - ENODEV, w)
      | Some n \<Rightarrow>
          if open_errno w (bsg_path n) \<noteq> 0 then (open_errno w (bsg_path n), w\<lparr>ufs_bsg_dev := bsg_path n\<rparr>)
          else case next_reply w of (ret, info, result) \<Rightarrow>
            (if info \<noteq> 0 \<or> result \<noteq> 0 then - EAGAIN else ret,
             w\<lparr>ufs_bsg_dev := bsg_path n, sg_replies := tl (sg_replies w),
               sg_log := sg_log w @ [(next_fd w, \<lparr>guard = CHR ''Q'', request = boot_lun_request lun,
                  din_xfer_len = 0, dout_xfer_len = 0\<rparr>)]\<rparr>))"
  using assms
  by (cases "bsg_node w"; cases "next_reply w")
    (auto simp: set_boot_lun_def get_ufs_bsg_dev_eq ufs_bsg_dev_open_def sys_open_def ufs_query_attr_eq
      ufs_bsg_dev_close_def sys_close_def EINVAL_def ENODEV_def next_reply_def)

text \<open>A device with a BSG node, for the concrete instances.\<close>

definition sample_world :: world where
  "sample_world = \<lparr>sys_props = [''ro.boot.bootdevice'' \<mapsto> ''1d84000.ufshc''],
     links = [''/dev/block/bootdevice/by-name/xbl'' \<mapsto> ''/dev/block/sdb1'',
              ''/dev/block/bootdevice/by-name/xblbak'' \<mapsto> ''/dev/block/sdc1'',
              ''/dev/block/bootdevice/by-name/tzbak'' \<mapsto> ''/dev/block/sdd12''],
     paths = [''/dev/block/bootdevice/by-name/xbl'', ''/dev/block/bootdevice/by-name/xblbak'',
              ''/dev/block/bootdevice/by-name/tzbak'', ''/dev/block/sdd''],
     dirs = [''/dev'' \<mapsto> [''.'', ''null'', ''ufs-bsg0''],
             ''/sys/block/sdb/device/scsi_generic'' \<mapsto> [''.'', ''..'', ''sg1''],
             ''/sys/block/sdc/device/scsi_generic'' \<mapsto> [''.'', ''..'', ''sg2'']],
     disks = [''/dev/block/sdd'' \<mapsto> sample_dev],
     ufs_bsg_dev = ''/dev/ufs-bsg'', fd_ufs_bsg = 0, next_fd = 7, open_errno = (\<lambda>_. 0), open_fds = [],
     sg_replies = [], sg_log = []\<rparr>"

section \<open>Properties\<close>



end
