(* ===== verification/Boot_Update.thy ===== *)
theory Boot_Update
  imports Ufs_Bsg
begin

text \<open>
  The fail-safe update of the boot chain: the boot LUN switch of UFS devices, the three stages of
  \<open>prepare_partitions\<close> on one disk, the list of LUNs and \<open>prepare_boot_update\<close> of \<open>gpt-utils.cpp\<close>.
\<close>

section \<open>The boot LUN\<close>

definition BLK_DEV_FILE :: string where "BLK_DEV_FILE = ''/dev/block/mmcblk0''"
definition XBL_PRIMARY :: string where "XBL_PRIMARY = ''/dev/block/bootdevice/by-name/xbl''"
definition XBL_BACKUP :: string where "XBL_BACKUP = ''/dev/block/bootdevice/by-name/xblbak''"
definition XBL_AB_PRIMARY :: string where "XBL_AB_PRIMARY = ''/dev/block/bootdevice/by-name/xbl_a''"
definition XBL_AB_SECONDARY :: string where "XBL_AB_SECONDARY = ''/dev/block/bootdevice/by-name/xbl_b''"
definition BOOT_DEV_DIR :: string where "BOOT_DEV_DIR = ''/dev/block/bootdevice/by-name''"
definition MAX_LUNS :: nat where "MAX_LUNS = 26"
definition PATH_TRUNCATE_LOC :: nat where "PATH_TRUNCATE_LOC = length ''/dev/block/sda''"
definition LUN_NAME_START_LOC :: nat where "LUN_NAME_START_LOC = length ''/dev/block/''"
definition BOOT_LUN_A_ID :: u8 where "BOOT_LUN_A_ID = 1"
definition BOOT_LUN_B_ID :: u8 where "BOOT_LUN_B_ID = 2"
definition PATH_MAX :: nat where "PATH_MAX = 4096"

text \<open>The directory is read entry by entry until a name that begins with \<open>sg\<close>.\<close>

fun find_sg_node :: "string list \<Rightarrow> string option" where
  "find_sg_node [] = None"
| "find_sg_node (d_name # es) =
     (if take 1 d_name = ''.'' then find_sg_node es
      else if strncmp_eq d_name ''sg'' 2 then Some d_name
      else find_sg_node es)"

definition get_scsi_node_from_bootdevice :: "world \<Rightarrow> string \<Rightarrow> nat \<Rightarrow> int \<times> string" where
  "get_scsi_node_from_bootdevice w bootdev_path buf_size =
     (case readlink w bootdev_path (PATH_MAX - 1) of
        None \<Rightarrow> (-1, '''')
      | Some real_path \<Rightarrow>
          if strlen real_path < PATH_TRUNCATE_LOC + 1 then (-1, '''')
          else
            (let real_path = take PATH_TRUNCATE_LOC real_path in
             if strlen real_path < LUN_NAME_START_LOC + 1 then (-1, '''')
             else
               (let sg_dir_path = snprintf (PATH_MAX - 1)
                      (''/sys/block/'' @ drop LUN_NAME_START_LOC real_path @ ''/device/scsi_generic'') in
                case dirs w sg_dir_path of
                  None \<Rightarrow> (-1, '''')
                | Some es \<Rightarrow>
                    (case find_sg_node es of
                       None \<Rightarrow> (-1, '''')
                     | Some d_name \<Rightarrow> (0, snprintf (buf_size - 1) (''/dev/'' @ d_name))))))"

text \<open>The path of the node is passed on to \<open>set_boot_lun\<close>, which ignores its first argument.\<close>

definition gpt_utils_set_xbl_boot_partition :: "boot_chain \<Rightarrow> world \<Rightarrow> int \<times> world" where
  "gpt_utils_set_xbl_boot_partition chain w =
     (let (boot_lun_id, boot_dev) =
        (case chain of
           BACKUP_BOOT \<Rightarrow>
             (BOOT_LUN_B_ID,
              if stat w XBL_BACKUP = 0 then Some XBL_BACKUP
              else if stat w XBL_AB_SECONDARY = 0 then Some XBL_AB_SECONDARY else None)
         | NORMAL_BOOT \<Rightarrow>
             (BOOT_LUN_A_ID,
              if stat w XBL_PRIMARY = 0 then Some XBL_PRIMARY
              else if stat w XBL_AB_PRIMARY = 0 then Some XBL_AB_PRIMARY else None)) in
      case boot_dev of
        None \<Rightarrow> (-1, w)
      | Some boot_dev \<Rightarrow>
          if (stat w XBL_PRIMARY \<noteq> 0 \<or> stat w XBL_BACKUP \<noteq> 0) \<and>
             (stat w XBL_AB_PRIMARY \<noteq> 0 \<or> stat w XBL_AB_SECONDARY \<noteq> 0) then (-1, w)
          else
            (let (rc, sg_dev_node) = get_scsi_node_from_bootdevice w boot_dev PATH_MAX in
             if rc \<noteq> 0 then (-1, w)
             else
               (let (rc, w) = set_boot_lun boot_lun_id w in
                if rc \<noteq> 0 then (-1, w) else (0, w))))"

definition gpt_utils_is_ufs_device :: "world \<Rightarrow> bool" where
  "gpt_utils_is_ufs_device w =
     (let bootdevice = property_get w ''ro.boot.bootdevice'' ''N/A'' in
      if strlen bootdevice < strlen ''.ufshc'' + 1 then False
      else strncmp_eq (drop (strlen bootdevice - strlen ''.ufshc'') bootdevice) ''.ufshc'' (length ''.ufshc'' + 1))"

section \<open>The stages of one disk\<close>

datatype boot_update_stage = UPDATE_MAIN | UPDATE_BACKUP | UPDATE_FINALIZE

fun stage_number :: "boot_update_stage \<Rightarrow> int" where
  "stage_number UPDATE_MAIN = 1"
| "stage_number UPDATE_BACKUP = 2"
| "stage_number UPDATE_FINALIZE = 3"

text \<open>The stage a disk is in, from the states of its headers; \<open>None\<close> where the code gives up.\<close>

definition internal_stage :: "gpt_state \<Rightarrow> gpt_state \<Rightarrow> boot_update_stage option" where
  "internal_stage gpt_prim gpt_second =
     (if gpt_prim = GPT_BAD_CRC \<or> gpt_second = GPT_BAD_CRC then None
      else if gpt_prim = GPT_BAD_SIGNATURE \<and> gpt_second = GPT_BAD_SIGNATURE then None
      else if gpt_prim = GPT_OK \<and> gpt_second = GPT_OK then Some UPDATE_MAIN
      else if gpt_prim = GPT_BAD_SIGNATURE then Some UPDATE_BACKUP
      else if gpt_second = GPT_BAD_SIGNATURE then Some UPDATE_FINALIZE
      else None)"

definition switch_boot_lun :: "bool \<Rightarrow> boot_chain \<Rightarrow> world \<Rightarrow> int \<times> world" where
  "switch_boot_lun is_ufs chain w =
     (if is_ufs then
        if stat w XBL_PRIMARY \<noteq> 0 \<or> stat w XBL_BACKUP \<noteq> 0 then (0, w)
        else gpt_utils_set_xbl_boot_partition chain w
      else (0, w))"

definition update_main :: "crc_fun \<Rightarrow> bool \<Rightarrow> world \<Rightarrow> dev \<Rightarrow> (int \<times> world \<times> dev) option" where
  "update_main crc32 is_ufs w d =
     (let (r, w) = switch_boot_lun is_ufs BACKUP_BOOT w in
      if r \<noteq> 0 then Some (r, w, d)
      else do {
        (r, d) \<leftarrow> gpt2_set_boot_chain crc32 is_ufs d BACKUP_BOOT;
        if r \<noteq> 0 then Some (if r < 0 then r else 0, w, d)
        else do {
          (r, d) \<leftarrow> gpt_set_state crc32 d PRIMARY_GPT GPT_BAD_SIGNATURE;
          Some (r, w, d)
        }
      })"

definition update_backup :: "crc_fun \<Rightarrow> bool \<Rightarrow> world \<Rightarrow> dev \<Rightarrow> (int \<times> world \<times> dev) option" where
  "update_backup crc32 is_ufs w d =
     (let (r, w) = switch_boot_lun is_ufs NORMAL_BOOT w in
      if r \<noteq> 0 then Some (r, w, d)
      else do {
        (r, d) \<leftarrow> gpt_set_state crc32 d PRIMARY_GPT GPT_OK;
        if r \<noteq> 0 then Some (r, w, d)
        else do {
          (r, d) \<leftarrow> gpt_set_state crc32 d SECONDARY_GPT GPT_BAD_SIGNATURE;
          Some (r, w, d)
        }
      })"

definition update_finalize :: "crc_fun \<Rightarrow> bool \<Rightarrow> world \<Rightarrow> dev \<Rightarrow> (int \<times> world \<times> dev) option" where
  "update_finalize crc32 is_ufs w d = do {
      (r, d) \<leftarrow> gpt2_set_boot_chain crc32 is_ufs d NORMAL_BOOT;
      if r < 0 then Some (r, w, d)
      else do {
        (r, d) \<leftarrow> gpt_set_state crc32 d SECONDARY_GPT GPT_OK;
        Some (r, w, d)
      }
    }"

definition prepare_disk ::
  "crc_fun \<Rightarrow> boot_update_stage \<Rightarrow> world \<Rightarrow> dev \<Rightarrow> (int \<times> world \<times> dev) option" where
  "prepare_disk crc32 stage w d =
     (let is_ufs = gpt_utils_is_ufs_device w in do {
      (r, gpt_prim, d) \<leftarrow> gpt_get_state crc32 d PRIMARY_GPT;
      (r, gpt_second, d) \<leftarrow> (if r \<noteq> 0 then Some (r, GPT_OK, d) else gpt_get_state crc32 d SECONDARY_GPT);
      if r \<noteq> 0 then Some (1, w, d)
      else case internal_stage gpt_prim gpt_second of
        None \<Rightarrow> Some (-1, w, d)
      | Some istage \<Rightarrow>
          if stage_number stage = stage_number istage - 1 then Some (0, w, d)
          else if stage \<noteq> istage then Some (-1, w, d)
          else case stage of
            UPDATE_MAIN \<Rightarrow> update_main crc32 is_ufs w d
          | UPDATE_BACKUP \<Rightarrow> update_backup crc32 is_ufs w d
          | UPDATE_FINALIZE \<Rightarrow> update_finalize crc32 is_ufs w d
    })"

text \<open>A path without a disk is one that does not open. \<open>None\<close> is the null pointer.\<close>

definition prepare_partitions ::
  "crc_fun \<Rightarrow> boot_update_stage \<Rightarrow> string option \<Rightarrow> world \<Rightarrow> (int \<times> world) option" where
  "prepare_partitions crc32 stage dev_path w =
     (case dev_path of
        None \<Rightarrow> Some (-1, w)
      | Some path \<Rightarrow>
          (case disks w path of
             None \<Rightarrow> Some (-1, w)
           | Some d \<Rightarrow> do {
               (r, w, d) \<leftarrow> prepare_disk crc32 stage w d;
               Some (r, w\<lparr>disks := (disks w)(path \<mapsto> d)\<rparr>)
             }))"

section \<open>The list of LUNs\<close>

record update_data =
  lun_list :: "string list"
  num_valid_entries :: u32

definition empty_update_data :: update_data where
  "empty_update_data = \<lparr>lun_list = replicate MAX_LUNS '''', num_valid_entries = 0\<rparr>"

text \<open>Reading or writing the array out of range is undefined.\<close>

definition lun_at :: "update_data \<Rightarrow> nat \<Rightarrow> string option" where
  "lun_at dat i = (if i < length (lun_list dat) then Some (lun_list dat ! i) else None)"

definition put_lun :: "nat \<Rightarrow> string \<Rightarrow> update_data \<Rightarrow> update_data option" where
  "put_lun i p dat =
     (if i < length (lun_list dat) then Some (dat\<lparr>lun_list := (lun_list dat)[i := snprintf PATH_MAX p]\<rparr>) else None)"

text \<open>The search for the path in the list, from index \<open>i\<close> on with \<open>k\<close> rounds left.\<close>

fun lun_known :: "string \<Rightarrow> update_data \<Rightarrow> nat \<Rightarrow> nat \<Rightarrow> bool option" where
  "lun_known p dat i 0 = Some False"
| "lun_known p dat i (Suc k) = do {
     e \<leftarrow> lun_at dat i;
     if strncmp_eq p e (strlen e) then Some True else lun_known p dat (i + 1) k
   }"

definition add_lun_to_update_list ::
  "string \<Rightarrow> update_data \<Rightarrow> world \<Rightarrow> (int \<times> update_data) option" where
  "add_lun_to_update_list lun_path dat w =
     (if stat w lun_path \<noteq> 0 then Some (-1, dat)
      else if num_valid_entries dat = 0 then do {
        dat \<leftarrow> put_lun 0 lun_path dat;
        Some (0, dat\<lparr>num_valid_entries := 1\<rparr>)
      }
      else do {
        known \<leftarrow> lun_known lun_path dat 0
          (if unat (num_valid_entries dat) < MAX_LUNS - 1 then unat (num_valid_entries dat) else 0);
        if known then Some (0, dat)
        else do {
          dat \<leftarrow> put_lun (unat (num_valid_entries dat)) lun_path dat;
          Some (0, dat\<lparr>num_valid_entries := num_valid_entries dat + 1\<rparr>)
        }
      })"

section \<open>prepare_boot_update\<close>

fun collect_luns :: "string list \<Rightarrow> update_data \<Rightarrow> world \<Rightarrow> update_data option" where
  "collect_luns [] dat w = Some dat"
| "collect_luns (n # ns) dat w =
     (if xbl_or_multiimg n then collect_luns ns dat w
      else
        (let buf = snprintf PATH_MAX (BOOT_DEV_DIR @ ''/'' @ n @ ''bak'') in
         if stat w buf \<noteq> 0 then collect_luns ns dat w
         else case readlink w buf (PATH_MAX - 1) of
           None \<Rightarrow> collect_luns ns dat w
         | Some real_path \<Rightarrow>
             if strlen real_path < PATH_TRUNCATE_LOC + 1 then collect_luns ns dat w
             else do {
               (r, dat) \<leftarrow> add_lun_to_update_list (take PATH_TRUNCATE_LOC real_path) dat w;
               collect_luns ns dat w
             }))"

fun prepare_luns ::
  "crc_fun \<Rightarrow> boot_update_stage \<Rightarrow> string list \<Rightarrow> bool \<Rightarrow> world \<Rightarrow> (bool \<times> world) option" where
  "prepare_luns crc32 stage [] is_error w = Some (is_error, w)"
| "prepare_luns crc32 stage (p # ps) is_error w = do {
     (rcode, w) \<leftarrow> prepare_partitions crc32 stage (Some p) w;
     prepare_luns crc32 stage ps (is_error \<or> rcode \<noteq> 0) w
   }"

definition prepare_boot_update :: "crc_fun \<Rightarrow> boot_update_stage \<Rightarrow> world \<Rightarrow> (int \<times> world) option" where
  "prepare_boot_update crc32 stage w =
     (if \<not> gpt_utils_is_ufs_device w then prepare_partitions crc32 stage (Some BLK_DEV_FILE) w
      else do {
        dat \<leftarrow> collect_luns PTN_SWAP_LIST empty_update_data w;
        (is_error, w) \<leftarrow>
          (if length (lun_list dat) < unat (num_valid_entries dat) then None
           else prepare_luns crc32 stage (take (unat (num_valid_entries dat)) (lun_list dat)) False w);
        Some (if is_error then -1 else 0, w)
      })"

section \<open>The boot LUN switch leaves the rest of the world alone\<close>

definition same_system :: "world \<Rightarrow> world \<Rightarrow> bool" where
  "same_system w w' \<longleftrightarrow> sys_props w' = sys_props w \<and> links w' = links w \<and> paths w' = paths w \<and> dirs w' = dirs w \<and>
     disks w' = disks w \<and> next_fd w' = next_fd w \<and> open_errno w' = open_errno w \<and> (sg_replies w = [] \<longrightarrow> sg_replies w' = [])"

lemma same_system_refl [simp]: "same_system w w"
  by (simp add: same_system_def)

lemma same_system_trans: "same_system a b \<Longrightarrow> same_system b c \<Longrightarrow> same_system a c"
  by (simp add: same_system_def)

lemma bsg_system:
  "get_ufs_bsg_dev w = (r, w') \<Longrightarrow> same_system w w'"
  "ufs_bsg_dev_open w = (r, w') \<Longrightarrow> same_system w w'"
  "ioctl_SG_IO fd io w = (a, w') \<Longrightarrow> same_system w w'"
  "same_system w (ufs_bsg_dev_close w)"
  by (auto simp: get_ufs_bsg_dev_eq ufs_bsg_dev_open_def sys_open_def ioctl_SG_IO_def Let_def
      ufs_bsg_dev_close_def sys_close_def same_system_def split: option.splits if_splits list.splits)

lemma ufs_query_attr_system: "ufs_query_attr fd v f oc i x s w = (r, w') \<Longrightarrow> same_system w w'"
  by (auto simp: ufs_query_attr_def ufs_bsg_ioctl_def Let_def dest: bsg_system(3) split: prod.splits)

lemma set_boot_lun_system: "set_boot_lun lun w = (r, w') \<Longrightarrow> same_system w w'"
  by (auto simp: set_boot_lun_def Let_def dest!: bsg_system(1,2) ufs_query_attr_system
      intro: same_system_trans split: prod.splits if_splits)
    (meson bsg_system(4) same_system_trans)

lemma set_xbl_system: "gpt_utils_set_xbl_boot_partition chain w = (r, w') \<Longrightarrow> same_system w w' \<and> (r = 0 \<or> r = -1)"
  unfolding gpt_utils_set_xbl_boot_partition_def
  by (auto simp: Let_def dest: set_boot_lun_system split: boot_chain.splits if_splits option.splits prod.splits)

lemma switch_system: "switch_boot_lun is_ufs chain w = (r, w') \<Longrightarrow> same_system w w' \<and> (r = 0 \<or> r = -1)"
  by (auto simp: switch_boot_lun_def dest: set_xbl_system split: if_splits)

lemma switch_same [simp]: "same_system w (snd (switch_boot_lun is_ufs chain w))"
  using switch_system [of is_ufs chain w] by (metis prod.collapse)

section \<open>The stages on the copies of the table\<close>

definition valid_copy :: "crc_fun \<Rightarrow> dev \<Rightarrow> gpt_instance \<Rightarrow> bool" where
  "valid_copy crc32 d gpt \<longleftrightarrow> header_state crc32 (hdr d gpt) = GPT_OK \<and> entries_crc_ok crc32 d gpt"

lemma chain_entries_layout:
  assumes "gpt_layout d"
  shows "\<exists>r es. chain_entries is_ufs boot (entries d gpt) = Some (r, es) \<and> (r = 0 \<or> r = 1)"
proof -
  obtain m where "length (entries d gpt) = 128 * m" using ent_len_128 [OF assms] assms by auto
  from chain_entries_defined [OF this, of is_ufs boot] show ?thesis by blast
qed

text \<open>
  One rule per stage, over every schedule without short transfers: what the disk holds when the
  stage succeeds, and that the primary copy is as before when it does not.
\<close>

lemma runs_mark_after:
  assumes "no_short d" and d1: "later d d1" "gpt_layout d1" and "s \<noteq> GPT_BAD_CRC"
    and fail: "\<And>d'. same_dev d1 d' \<Longrightarrow> later d d' \<Longrightarrow> evs d \<noteq> [] \<Longrightarrow> Q (-1, w, d')"
    and ok: "\<And>d'. later d d' \<Longrightarrow> gpt_layout d' \<Longrightarrow> same_outside d1 d' \<Longrightarrow> hdr d' gpt = sealed crc32 (marked s (hdr d1 gpt)) \<Longrightarrow>
       (\<And>g. g \<noteq> gpt \<Longrightarrow> hdr d' g = hdr d1 g) \<Longrightarrow> (\<And>g. entries d' g = entries d1 g) \<Longrightarrow> Q (0, w, d')"
  shows "runs (gpt_set_state crc32 d1 gpt s \<bind> (\<lambda>(r, d). Some (r, w, d))) Q"
proof -
  have n1: "no_short d1" "evs d1 \<noteq> [] \<Longrightarrow> evs d \<noteq> []" using d1(1) assms(1) by (auto simp: later_def)
  have "runs (gpt_set_state crc32 d1 gpt s) (\<lambda>(r, d). Q (r, w, d))"
    by (rule runs_set_state_copies [OF n1(1) d1(2) assms(4)])
      (use fail ok n1(2) later_trans [OF d1(1)] same_dev_later in \<open>simp_all\<close>)
  then show ?thesis by (simp add: case_prod_beta')
qed

lemma runs_update_main:
  assumes "no_short d" and lay: "gpt_layout d" and crc: "entries_crc_ok crc32 d PRIMARY_GPT"
    and fail: "\<And>r d'. r \<noteq> 0 \<Longrightarrow> later d d' \<Longrightarrow> gpt_layout d' \<Longrightarrow>
       hdr d' PRIMARY_GPT = hdr d PRIMARY_GPT \<Longrightarrow> entries d' PRIMARY_GPT = entries d PRIMARY_GPT \<Longrightarrow>
       evs d \<noteq> [] \<or> fst (switch_boot_lun is_ufs BACKUP_BOOT w) \<noteq> 0 \<Longrightarrow> Q (r, snd (switch_boot_lun is_ufs BACKUP_BOOT w), d')"
    and none: "\<And>d' es. same_dev d d' \<Longrightarrow>
       chain_entries is_ufs BACKUP_BOOT (entries d PRIMARY_GPT) = Some (1, es) \<Longrightarrow> Q (0, snd (switch_boot_lun is_ufs BACKUP_BOOT w), d')"
    and ok: "\<And>d'. later d d' \<Longrightarrow> gpt_layout d' \<Longrightarrow> same_outside d d' \<Longrightarrow>
       chain_entries is_ufs BACKUP_BOOT (entries d PRIMARY_GPT) = Some (0, entries d' SECONDARY_GPT) \<Longrightarrow>
       entries d' PRIMARY_GPT = entries d PRIMARY_GPT \<Longrightarrow>
       hdr d' PRIMARY_GPT = sealed crc32 (marked GPT_BAD_SIGNATURE (hdr d PRIMARY_GPT)) \<Longrightarrow>
       hdr d' SECONDARY_GPT = secondary_header crc32 (entries d' SECONDARY_GPT) (hdr d SECONDARY_GPT) \<Longrightarrow>
       Q (0, snd (switch_boot_lun is_ufs BACKUP_BOOT w), d')"
  shows "runs (update_main crc32 is_ufs w d) Q"
proof -
  obtain r w' where sw: "switch_boot_lun is_ufs BACKUP_BOOT w = (r, w')" by fastforce
  then have sys: "snd (switch_boot_lun is_ufs BACKUP_BOOT w) = w'" by simp
  obtain c es where ce: "chain_entries is_ufs BACKUP_BOOT (entries d PRIMARY_GPT) = Some (c, es)" and c: "c = 0 \<or> c = 1"
    using chain_entries_layout [OF lay] by blast
  show ?thesis
  proof (cases "r = 0")
    case False
    then show ?thesis using fail [of r d] sys lay by (simp add: update_main_def sw)
  next
    case True
    let ?K = "\<lambda>(r, d). if r \<noteq> 0 then Some (if r < 0 then r else 0, w', d)
        else gpt_set_state crc32 d PRIMARY_GPT GPT_BAD_SIGNATURE \<bind> (\<lambda>(r, d). Some (r, w', d))"
    have "runs (gpt2_set_boot_chain crc32 is_ufs d BACKUP_BOOT) (\<lambda>x. runs (?K x) Q)"
    proof (rule runs_set_chain_copies [OF assms(1) lay ce])
      fix d' assume "same_dev d d'" "evs d \<noteq> [] \<or> \<not> entries_crc_ok crc32 d PRIMARY_GPT"
      then show "runs (?K (-1, d')) Q" using fail [of "-1" d'] sys lay crc by (simp add: dev_same same_dev_later)
    next
      fix d' assume "same_dev d d'" "c = 1"
      then show "runs (?K (1, d')) Q" using none [of d'] sys ce by simp
    next
      fix d' assume "later d d'" "gpt_layout d'" "evs d \<noteq> []" "hdr d' PRIMARY_GPT = hdr d PRIMARY_GPT"
        "entries d' PRIMARY_GPT = entries d PRIMARY_GPT"
      then show "runs (?K (-1, d')) Q" using fail [of "-1" d'] sys by simp
    next
      fix d1 assume 1: "later d d1" "gpt_layout d1" "same_outside d d1" "c = 0" "hdr d1 PRIMARY_GPT = hdr d PRIMARY_GPT"
        "entries d1 PRIMARY_GPT = entries d PRIMARY_GPT"
        "hdr d1 SECONDARY_GPT = secondary_header crc32 es (hdr d SECONDARY_GPT)" "entries d1 SECONDARY_GPT = es"
      have "runs (gpt_set_state crc32 d1 PRIMARY_GPT GPT_BAD_SIGNATURE \<bind> (\<lambda>(r, d). Some (r, w', d))) Q"
        by (rule runs_mark_after [OF assms(1) 1(1,2)]) (use 1 fail ok sys ce same_outside_trans [OF 1(3)] in \<open>simp_all add: dev_same\<close>)
      then show "runs (?K (0, d1)) Q" by simp
    qed
    then show ?thesis by (simp add: update_main_def sw True)
  qed
qed

lemma runs_update_backup:
  assumes "no_short d" and lay: "gpt_layout d"
    and fail: "\<And>r d'. r \<noteq> 0 \<Longrightarrow> same_dev d d' \<Longrightarrow>
       evs d \<noteq> [] \<or> fst (switch_boot_lun is_ufs NORMAL_BOOT w) \<noteq> 0 \<Longrightarrow> Q (r, snd (switch_boot_lun is_ufs NORMAL_BOOT w), d')"
    and ok: "\<And>r d'. later d d' \<Longrightarrow> gpt_layout d' \<Longrightarrow> same_outside d d' \<Longrightarrow>
       (\<And>g. entries d' g = entries d g) \<Longrightarrow>
       hdr d' PRIMARY_GPT = sealed crc32 (marked GPT_OK (hdr d PRIMARY_GPT)) \<Longrightarrow>
       r = 0 \<and> hdr d' SECONDARY_GPT = sealed crc32 (marked GPT_BAD_SIGNATURE (hdr d SECONDARY_GPT)) \<or>
       r \<noteq> 0 \<and> evs d \<noteq> [] \<and> hdr d' SECONDARY_GPT = hdr d SECONDARY_GPT \<Longrightarrow> Q (r, snd (switch_boot_lun is_ufs NORMAL_BOOT w), d')"
  shows "runs (update_backup crc32 is_ufs w d) Q"
proof -
  obtain r w' where sw: "switch_boot_lun is_ufs NORMAL_BOOT w = (r, w')" by fastforce
  then have sys: "snd (switch_boot_lun is_ufs NORMAL_BOOT w) = w'" by simp
  show ?thesis
  proof (cases "r = 0")
    case False
    then show ?thesis using fail [of r d] sys by (simp add: update_backup_def sw)
  next
    case True
    let ?K = "\<lambda>(r, d). if r \<noteq> 0 then Some (r, w', d)
        else gpt_set_state crc32 d SECONDARY_GPT GPT_BAD_SIGNATURE \<bind> (\<lambda>(r, d). Some (r, w', d))"
    have "runs (gpt_set_state crc32 d PRIMARY_GPT GPT_OK) (\<lambda>x. runs (?K x) Q)"
    proof (rule runs_set_state_copies [OF assms(1) lay])
      fix d' assume "same_dev d d'" "evs d \<noteq> []"
      then show "runs (?K (-1, d')) Q" using fail [of "-1" d'] sys by simp
    next
      fix d1 assume 1: "later d d1" "gpt_layout d1" "same_outside d d1"
        "hdr d1 PRIMARY_GPT = sealed crc32 (marked GPT_OK (hdr d PRIMARY_GPT))"
        "\<And>g. g \<noteq> PRIMARY_GPT \<Longrightarrow> hdr d1 g = hdr d g" "\<And>g. entries d1 g = entries d g"
      have "runs (gpt_set_state crc32 d1 SECONDARY_GPT GPT_BAD_SIGNATURE \<bind> (\<lambda>(r, d). Some (r, w', d))) Q"
        by (rule runs_mark_after [OF assms(1) 1(1,2)])
          (use 1 ok sys same_outside_trans [OF 1(3)] same_outside_same in \<open>simp_all add: dev_same\<close>)
      then show "runs (?K (0, d1)) Q" by simp
    qed simp
    then show ?thesis by (simp add: update_backup_def sw True)
  qed
qed

lemma runs_update_finalize:
  assumes "no_short d" and lay: "gpt_layout d" and crc: "entries_crc_ok crc32 d PRIMARY_GPT"
    and fail: "\<And>r d'. r \<noteq> 0 \<Longrightarrow> later d d' \<Longrightarrow> gpt_layout d' \<Longrightarrow> evs d \<noteq> [] \<Longrightarrow>
       hdr d' PRIMARY_GPT = hdr d PRIMARY_GPT \<Longrightarrow> entries d' PRIMARY_GPT = entries d PRIMARY_GPT \<Longrightarrow> Q (r, w, d')"
    and ok: "\<And>d'. later d d' \<Longrightarrow> gpt_layout d' \<Longrightarrow> same_outside d d' \<Longrightarrow>
       hdr d' PRIMARY_GPT = hdr d PRIMARY_GPT \<Longrightarrow> entries d' PRIMARY_GPT = entries d PRIMARY_GPT \<Longrightarrow>
       entries d' SECONDARY_GPT = entries d PRIMARY_GPT \<Longrightarrow>
       hdr d' SECONDARY_GPT =
         sealed crc32 (marked GPT_OK (secondary_header crc32 (entries d PRIMARY_GPT) (hdr d SECONDARY_GPT))) \<Longrightarrow> Q (0, w, d')"
  shows "runs (update_finalize crc32 is_ufs w d) Q"
proof -
  have ce: "chain_entries is_ufs NORMAL_BOOT (entries d PRIMARY_GPT) = Some (0, entries d PRIMARY_GPT)"
    by (simp add: chain_entries_def)
  let ?K = "\<lambda>(r, d). if r < 0 then Some (r, w, d)
      else gpt_set_state crc32 d SECONDARY_GPT GPT_OK \<bind> (\<lambda>(r, d). Some (r, w, d))"
  have "runs (gpt2_set_boot_chain crc32 is_ufs d NORMAL_BOOT) (\<lambda>x. runs (?K x) Q)"
  proof (rule runs_set_chain_copies [OF assms(1) lay ce])
    fix d' assume "same_dev d d'" "evs d \<noteq> [] \<or> \<not> entries_crc_ok crc32 d PRIMARY_GPT"
    then show "runs (?K (-1, d')) Q" using fail [of "-1" d'] lay crc by (simp add: dev_same same_dev_later)
  next
    fix d' assume "later d d'" "gpt_layout d'" "evs d \<noteq> []" "hdr d' PRIMARY_GPT = hdr d PRIMARY_GPT"
      "entries d' PRIMARY_GPT = entries d PRIMARY_GPT"
    then show "runs (?K (-1, d')) Q" using fail [of "-1" d'] by simp
  next
    fix d1 assume 1: "later d d1" "gpt_layout d1" "same_outside d d1" "hdr d1 PRIMARY_GPT = hdr d PRIMARY_GPT"
      "entries d1 PRIMARY_GPT = entries d PRIMARY_GPT"
      "hdr d1 SECONDARY_GPT = secondary_header crc32 (entries d PRIMARY_GPT) (hdr d SECONDARY_GPT)"
      "entries d1 SECONDARY_GPT = entries d PRIMARY_GPT"
    have "runs (gpt_set_state crc32 d1 SECONDARY_GPT GPT_OK \<bind> (\<lambda>(r, d). Some (r, w, d))) Q"
      by (rule runs_mark_after [OF assms(1) 1(1,2)]) (use 1 fail ok same_outside_trans [OF 1(3)] in \<open>simp_all add: dev_same\<close>)
    then show "runs (?K (0, d1)) Q" by simp
  qed simp
  then show ?thesis by (simp add: update_finalize_def)
qed

text \<open>The dispatch: the states are read, and the stage runs, is already set, or is refused.\<close>

definition disk_stage :: "crc_fun \<Rightarrow> dev \<Rightarrow> boot_update_stage option" where
  "disk_stage crc32 d = internal_stage (header_state crc32 (hdr d PRIMARY_GPT)) (header_state crc32 (hdr d SECONDARY_GPT))"

fun run_stage :: "crc_fun \<Rightarrow> boot_update_stage \<Rightarrow> bool \<Rightarrow> world \<Rightarrow> dev \<Rightarrow> (int \<times> world \<times> dev) option" where
  "run_stage crc32 UPDATE_MAIN is_ufs w d = update_main crc32 is_ufs w d"
| "run_stage crc32 UPDATE_BACKUP is_ufs w d = update_backup crc32 is_ufs w d"
| "run_stage crc32 UPDATE_FINALIZE is_ufs w d = update_finalize crc32 is_ufs w d"

lemma runs_prepare_disk:
  assumes "no_short d" and lay: "gpt_layout d"
    and fail: "\<And>d'. same_dev d d' \<Longrightarrow> evs d \<noteq> [] \<Longrightarrow> Q (1, w, d')"
    and "set": "\<And>d' i. same_dev d d' \<Longrightarrow> disk_stage crc32 d = Some i \<Longrightarrow> stage_number stage = stage_number i - 1 \<Longrightarrow> Q (0, w, d')"
    and bad: "\<And>d'. same_dev d d' \<Longrightarrow> disk_stage crc32 d \<noteq> Some stage \<Longrightarrow>
       (\<forall>i. disk_stage crc32 d = Some i \<longrightarrow> stage_number stage \<noteq> stage_number i - 1) \<Longrightarrow> Q (-1, w, d')"
    and run: "\<And>d'. same_dev d d' \<Longrightarrow> disk_stage crc32 d = Some stage \<Longrightarrow>
       runs (run_stage crc32 stage (gpt_utils_is_ufs_device w) w d') Q"
  shows "runs (prepare_disk crc32 stage w d) Q"
  unfolding prepare_disk_def Let_def runs_bind
proof (rule runs_get_state [OF assms(1) layout_fits [OF lay]], goal_cases)
  case (1 d')
  then show ?case using fail [of d'] by simp
next
  case (2 d1)
  then have n1: "no_short d1" "gpt_layout d1" "evs d1 \<noteq> [] \<Longrightarrow> evs d \<noteq> []"
    using assms(1) lay by (auto simp: dev_same dest: same_dev_facts)
  show ?case
    apply simp
    apply (rule runs_get_state [OF n1(1) layout_fits [OF n1(2)]])
    subgoal for d'
      using fail [of d'] same_dev_trans [OF 2, of d'] n1(3) by simp
    subgoal for d'
      using "set" [of d'] bad [of d'] run [of d'] same_dev_trans [OF 2, of d']
      by (cases stage) (simp_all add: hdr_same [OF 2] disk_stage_def split: option.split)
    done
qed

section \<open>The invariant of the update\<close>

text \<open>
  The primary entries match their CRC, and the primary header is good, or it is spoilt on purpose and the
  secondary copy is good.
\<close>

definition update_inv :: "crc_fun \<Rightarrow> dev \<Rightarrow> bool" where
  "update_inv crc32 d \<longleftrightarrow> gpt_layout d \<and> entries_crc_ok crc32 d PRIMARY_GPT \<and>
     (header_state crc32 (hdr d PRIMARY_GPT) = GPT_OK \<or>
      header_state crc32 (hdr d PRIMARY_GPT) = GPT_BAD_SIGNATURE \<and> valid_copy crc32 d SECONDARY_GPT)"

lemma update_inv_valid: "update_inv crc32 d \<Longrightarrow> \<exists>g. valid_copy crc32 d g"
  by (auto simp: update_inv_def valid_copy_def)

lemma disk_stage_cases:
  "disk_stage crc32 d = Some i \<Longrightarrow>
   (header_state crc32 (hdr d PRIMARY_GPT), header_state crc32 (hdr d SECONDARY_GPT)) =
     (case i of UPDATE_MAIN \<Rightarrow> (GPT_OK, GPT_OK) | UPDATE_BACKUP \<Rightarrow> (GPT_BAD_SIGNATURE, GPT_OK)
      | UPDATE_FINALIZE \<Rightarrow> (GPT_OK, GPT_BAD_SIGNATURE))"
  by (cases "header_state crc32 (hdr d PRIMARY_GPT)"; cases "header_state crc32 (hdr d SECONDARY_GPT)")
    (auto simp: disk_stage_def internal_stage_def)

lemma update_inv_same: "same_dev d d' \<Longrightarrow> update_inv crc32 d' = update_inv crc32 d"
  by (simp add: update_inv_def valid_copy_def entries_crc_ok_def dev_same)

text \<open>Three ways to keep it: the primary copy is kept, it is good again, or it is spoilt with a good secondary copy.\<close>

lemma update_inv_kept:
  assumes "gpt_layout d'" and "hdr d' PRIMARY_GPT = hdr d PRIMARY_GPT" and "entries d' PRIMARY_GPT = entries d PRIMARY_GPT"
    and "header_state crc32 (hdr d PRIMARY_GPT) = GPT_OK" and "entries_crc_ok crc32 d PRIMARY_GPT"
  shows "update_inv crc32 d'"
  using assms by (simp add: update_inv_def entries_crc_ok_def)

lemma update_inv_repaired:
  assumes "gpt_layout d" and "gpt_layout d'" and "hdr d' PRIMARY_GPT = sealed crc32 (marked GPT_OK (hdr d PRIMARY_GPT))"
    and "entries d' PRIMARY_GPT = entries d PRIMARY_GPT" and "entries_crc_ok crc32 d PRIMARY_GPT"
  shows "update_inv crc32 d'"
  using assms header_state_marked [OF hdr_long [OF layout_fits [OF assms(1)]], of GPT_OK crc32 PRIMARY_GPT]
    array_crc_sealed_marked [OF hdr_long [OF layout_fits [OF assms(1)]], of crc32 GPT_OK PRIMARY_GPT]
  by (simp add: update_inv_def entries_crc_ok_def)

lemma update_inv_spoilt:
  assumes "gpt_layout d" and "gpt_layout d'"
    and "hdr d' PRIMARY_GPT = sealed crc32 (marked GPT_BAD_SIGNATURE (hdr d PRIMARY_GPT))"
    and "entries d' PRIMARY_GPT = entries d PRIMARY_GPT" and "entries_crc_ok crc32 d PRIMARY_GPT"
    and "header_state crc32 (hdr d SECONDARY_GPT) = GPT_OK"
    and "hdr d' SECONDARY_GPT = secondary_header crc32 (entries d' SECONDARY_GPT) (hdr d SECONDARY_GPT)"
  shows "update_inv crc32 d'"
proof -
  note long = hdr_long [OF layout_fits [OF assms(1)]]
  show ?thesis
    using assms(2-) header_state_marked [OF long, of GPT_BAD_SIGNATURE crc32 PRIMARY_GPT]
      array_crc_sealed_marked [OF long, of crc32 GPT_BAD_SIGNATURE PRIMARY_GPT]
      header_state_secondary [OF long, of crc32 "entries d' SECONDARY_GPT" SECONDARY_GPT]
      header_ok_signature [OF assms(6)]
    by (simp add: update_inv_def entries_crc_ok_def valid_copy_def)
qed

lemma run_stage_inv:
  assumes "no_short d" and inv: "update_inv crc32 d" and st: "disk_stage crc32 d = Some stage"
  shows "runs (run_stage crc32 stage is_ufs w d) (\<lambda>(r, w', d'). update_inv crc32 d' \<and> same_system w w' \<and> later d d')"
proof -
  have lay: "gpt_layout d" and crc: "entries_crc_ok crc32 d PRIMARY_GPT" using inv by (simp_all add: update_inv_def)
  note S = disk_stage_cases [OF st]
  show ?thesis
  proof (cases stage)
    case UPDATE_MAIN
    then have ok: "header_state crc32 (hdr d PRIMARY_GPT) = GPT_OK" "header_state crc32 (hdr d SECONDARY_GPT) = GPT_OK"
      using S by simp_all
    show ?thesis unfolding UPDATE_MAIN run_stage.simps
      by (rule runs_update_main [OF assms(1) lay crc])
        (simp_all add: update_inv_kept [OF _ _ _ ok(1) crc] update_inv_same inv same_dev_later
          update_inv_spoilt [OF lay _ _ _ crc ok(2)])
  next
    case UPDATE_BACKUP
    then show ?thesis unfolding UPDATE_BACKUP run_stage.simps
      by (intro runs_update_backup [OF assms(1) lay])
        (simp_all add: update_inv_same inv same_dev_later update_inv_repaired [OF lay _ _ _ crc])
  next
    case UPDATE_FINALIZE
    then have ok: "header_state crc32 (hdr d PRIMARY_GPT) = GPT_OK" using S by simp
    show ?thesis unfolding UPDATE_FINALIZE run_stage.simps
      by (rule runs_update_finalize [OF assms(1) lay crc]) (simp_all add: update_inv_kept [OF _ _ _ ok crc])
  qed
qed

lemma prepare_disk_inv:
  assumes "no_short d" and inv: "update_inv crc32 d"
  shows "runs (prepare_disk crc32 stage w d) (\<lambda>(r, w', d'). update_inv crc32 d' \<and> same_system w w' \<and> later d d')"
proof (rule runs_prepare_disk [OF assms(1)])
  show "gpt_layout d" using inv by (simp add: update_inv_def)
  fix d' assume s: "same_dev d d'" and st: "disk_stage crc32 d = Some stage"
  then have "runs (run_stage crc32 stage (gpt_utils_is_ufs_device w) w d')
      (\<lambda>(r, w', d''). update_inv crc32 d'' \<and> same_system w w' \<and> later d' d'')"
    using assms by (intro run_stage_inv) (auto simp: update_inv_same disk_stage_def hdr_same dest: same_dev_facts)
  then show "runs (run_stage crc32 stage (gpt_utils_is_ufs_device w) w d')
      (\<lambda>(r, w', d'). update_inv crc32 d' \<and> same_system w w' \<and> later d d')"
    by (rule runs_mono) (use later_trans [OF same_dev_later [OF s]] in auto)
qed (simp_all add: update_inv_same inv same_dev_later)

section \<open>A whole update without faults\<close>

text \<open>The boot LUN can be switched, or there is none to switch.\<close>

definition lun_ready :: "world \<Rightarrow> bool" where
  "lun_ready w \<longleftrightarrow> \<not> gpt_utils_is_ufs_device w \<or> stat w XBL_PRIMARY \<noteq> 0 \<or> stat w XBL_BACKUP \<noteq> 0 \<or>
     fd_ufs_bsg w = 0 \<and> 0 < next_fd w \<and> sg_replies w = [] \<and>
     (case bsg_node w of None \<Rightarrow> False | Some n \<Rightarrow> open_errno w (bsg_path n) = 0) \<and>
     fst (get_scsi_node_from_bootdevice w XBL_PRIMARY PATH_MAX) = 0 \<and>
     fst (get_scsi_node_from_bootdevice w XBL_BACKUP PATH_MAX) = 0"

lemma set_boot_lun_ready:
  assumes "fd_ufs_bsg w = 0" "0 < next_fd w" "sg_replies w = []" "bsg_node w = Some n" "open_errno w (bsg_path n) = 0"
  shows "\<exists>w'. set_boot_lun lun w = (0, w') \<and> same_system w w' \<and> fd_ufs_bsg w' = 0"
  using set_boot_lun_eq [OF assms(1,2), of lun] assms by (simp add: next_reply_def same_system_def)

lemma view_cong:
  assumes e: "sys_props w' = sys_props w" "links w' = links w" "paths w' = paths w" "dirs w' = dirs w"
  shows "gpt_utils_is_ufs_device w' = gpt_utils_is_ufs_device w" "stat w' p = stat w p" "bsg_node w' = bsg_node w"
    "get_scsi_node_from_bootdevice w' p n = get_scsi_node_from_bootdevice w p n"
  unfolding gpt_utils_is_ufs_device_def property_get_def stat_def bsg_node_def
    get_scsi_node_from_bootdevice_def readlink_def e by (rule refl)+

lemma same_system_views:
  assumes "same_system w w'"
  shows "gpt_utils_is_ufs_device w' = gpt_utils_is_ufs_device w" "stat w' p = stat w p" "bsg_node w' = bsg_node w"
    "get_scsi_node_from_bootdevice w' p n = get_scsi_node_from_bootdevice w p n"
    "next_fd w' = next_fd w" "open_errno w' = open_errno w" "disks w' = disks w"
  using assms view_cong [of w' w] by (simp_all add: same_system_def)

lemma set_disk_views [simp]:
  "gpt_utils_is_ufs_device (w\<lparr>disks := m\<rparr>) = gpt_utils_is_ufs_device w" "stat (w\<lparr>disks := m\<rparr>) p = stat w p"
  "lun_ready (w\<lparr>disks := m\<rparr>) = lun_ready w"
proof -
  note v = view_cong [of "w\<lparr>disks := m\<rparr>" w]
  show "gpt_utils_is_ufs_device (w\<lparr>disks := m\<rparr>) = gpt_utils_is_ufs_device w" "stat (w\<lparr>disks := m\<rparr>) p = stat w p" for p
    using v by simp_all
  show "lun_ready (w\<lparr>disks := m\<rparr>) = lun_ready w"
    unfolding lun_ready_def using v by (simp split: option.split)
qed

lemma switch_ready:
  assumes "lun_ready w"
  shows "fst (switch_boot_lun (gpt_utils_is_ufs_device w) chain w) = 0"
    and "lun_ready (snd (switch_boot_lun (gpt_utils_is_ufs_device w) chain w))"
proof -
  have "\<exists>w'. switch_boot_lun (gpt_utils_is_ufs_device w) chain w = (0, w') \<and> lun_ready w'"
  proof (cases "\<not> gpt_utils_is_ufs_device w \<or> stat w XBL_PRIMARY \<noteq> 0 \<or> stat w XBL_BACKUP \<noteq> 0")
    case True
    then show ?thesis using assms by (auto simp: switch_boot_lun_def)
  next
    case False
    then obtain n where w: "fd_ufs_bsg w = 0" "0 < next_fd w" "sg_replies w = []" "bsg_node w = Some n"
      "open_errno w (bsg_path n) = 0"
      and g: "fst (get_scsi_node_from_bootdevice w XBL_PRIMARY PATH_MAX) = 0"
      "fst (get_scsi_node_from_bootdevice w XBL_BACKUP PATH_MAX) = 0"
      using assms by (auto simp: lun_ready_def split: option.splits)
    define lun where "lun = (case chain of BACKUP_BOOT \<Rightarrow> BOOT_LUN_B_ID | NORMAL_BOOT \<Rightarrow> BOOT_LUN_A_ID)"
    from set_boot_lun_ready [OF w] obtain w' where
      s: "set_boot_lun lun w = (0, w')" "same_system w w'" "fd_ufs_bsg w' = 0" by blast
    have "gpt_utils_set_xbl_boot_partition chain w = (0, w')"
      using False g s(1) by (cases chain) (auto simp: gpt_utils_set_xbl_boot_partition_def lun_def split: prod.split)
    moreover have "lun_ready w'"
      using w g s(3) same_system_views [OF s(2)] s(2) by (simp add: lun_ready_def same_system_def)
    ultimately show ?thesis using False by (simp add: switch_boot_lun_def)
  qed
  then show "fst (switch_boot_lun (gpt_utils_is_ufs_device w) chain w) = 0"
    "lun_ready (snd (switch_boot_lun (gpt_utils_is_ufs_device w) chain w))" by auto
qed

lemma later_evs: "later d d' \<Longrightarrow> evs d = [] \<Longrightarrow> evs d' = []"
  by (simp add: later_def)

lemma no_short_Nil: "evs d = [] \<Longrightarrow> no_short d"
  by (simp add: no_short_def)

text \<open>The three stages in order, on a disk and in a world without faults.\<close>

lemma main_succeeds:
  assumes "evs d = []" and lay: "gpt_layout d" and st: "disk_stage crc32 d = Some UPDATE_MAIN"
    and crc: "entries_crc_ok crc32 d PRIMARY_GPT" and ready: "lun_ready w"
    and ce: "chain_entries (gpt_utils_is_ufs_device w) BACKUP_BOOT (entries d PRIMARY_GPT) = Some (0, es)"
  shows "runs (prepare_disk crc32 UPDATE_MAIN w d) (\<lambda>(r, w', d'). r = 0 \<and> lun_ready w' \<and> same_system w w' \<and>
     evs d' = [] \<and> gpt_layout d' \<and> same_outside d d' \<and>
     entries d' PRIMARY_GPT = entries d PRIMARY_GPT \<and> entries d' SECONDARY_GPT = es \<and>
     hdr d' PRIMARY_GPT = sealed crc32 (marked GPT_BAD_SIGNATURE (hdr d PRIMARY_GPT)) \<and>
     hdr d' SECONDARY_GPT = secondary_header crc32 es (hdr d SECONDARY_GPT))" (is "runs _ ?Q")
proof (rule runs_prepare_disk [OF no_short_Nil [OF assms(1)] lay])
  fix d1 assume s: "same_dev d d1"
  have d1: "evs d1 = []" "gpt_layout d1" "entries_crc_ok crc32 d1 PRIMARY_GPT"
    using later_evs [OF same_dev_later [OF s] assms(1)] lay crc by (simp_all add: dev_same [OF s] entries_crc_ok_def)
  let ?u = "gpt_utils_is_ufs_device w"
  note sw = switch_ready [OF ready, of BACKUP_BOOT]
  show "runs (run_stage crc32 UPDATE_MAIN ?u w d1) ?Q"
    unfolding run_stage.simps
  proof (rule runs_update_main [OF no_short_Nil [OF d1(1)] d1(2,3)])
    fix r d'
    assume "evs d1 \<noteq> [] \<or> fst (switch_boot_lun ?u BACKUP_BOOT w) \<noteq> 0"
    then show "?Q (r, snd (switch_boot_lun ?u BACKUP_BOOT w), d')" using d1(1) sw(1) by blast
  next
    fix d' es' assume "chain_entries ?u BACKUP_BOOT (entries d1 PRIMARY_GPT) = Some (1, es')"
    then show "?Q (0, snd (switch_boot_lun ?u BACKUP_BOOT w), d')" using ce by (simp add: ent_same [OF s])
  next
    fix d' assume a: "later d1 d'" "gpt_layout d'" "same_outside d1 d'"
      "chain_entries ?u BACKUP_BOOT (entries d1 PRIMARY_GPT) = Some (0, entries d' SECONDARY_GPT)"
      "entries d' PRIMARY_GPT = entries d1 PRIMARY_GPT"
      "hdr d' PRIMARY_GPT = sealed crc32 (marked GPT_BAD_SIGNATURE (hdr d1 PRIMARY_GPT))"
      "hdr d' SECONDARY_GPT = secondary_header crc32 (entries d' SECONDARY_GPT) (hdr d1 SECONDARY_GPT)"
    have "entries d' SECONDARY_GPT = es" using a(4) ce by (simp add: ent_same [OF s])
    moreover have "same_outside d d'" using same_outside_trans [OF same_outside_same [OF s] a(3)] .
    ultimately show "?Q (0, snd (switch_boot_lun ?u BACKUP_BOOT w), d')"
      using a sw(2) later_evs [OF a(1) d1(1)] by (simp add: dev_same [OF s])
  qed
qed (use assms in simp_all)

lemma backup_succeeds:
  assumes "evs d = []" and lay: "gpt_layout d" and st: "disk_stage crc32 d = Some UPDATE_BACKUP" and ready: "lun_ready w"
  shows "runs (prepare_disk crc32 UPDATE_BACKUP w d) (\<lambda>(r, w', d'). r = 0 \<and> lun_ready w' \<and> same_system w w' \<and>
     evs d' = [] \<and> gpt_layout d' \<and> same_outside d d' \<and> (\<forall>g. entries d' g = entries d g) \<and>
     hdr d' PRIMARY_GPT = sealed crc32 (marked GPT_OK (hdr d PRIMARY_GPT)) \<and>
     hdr d' SECONDARY_GPT = sealed crc32 (marked GPT_BAD_SIGNATURE (hdr d SECONDARY_GPT)))" (is "runs _ ?Q")
proof (rule runs_prepare_disk [OF no_short_Nil [OF assms(1)] lay])
  fix d1 assume s: "same_dev d d1"
  have d1: "evs d1 = []" "gpt_layout d1"
    using later_evs [OF same_dev_later [OF s] assms(1)] lay by (simp_all add: dev_same [OF s])
  let ?u = "gpt_utils_is_ufs_device w"
  note sw = switch_ready [OF ready, of NORMAL_BOOT]
  show "runs (run_stage crc32 UPDATE_BACKUP ?u w d1) ?Q"
    unfolding run_stage.simps
  proof (rule runs_update_backup [OF no_short_Nil [OF d1(1)] d1(2)])
    fix r :: int and d'
    assume "evs d1 \<noteq> [] \<or> fst (switch_boot_lun ?u NORMAL_BOOT w) \<noteq> 0"
    then show "?Q (r, snd (switch_boot_lun ?u NORMAL_BOOT w), d')" using d1(1) sw(1) by blast
  next
    fix r :: int and d' assume a: "later d1 d'" "gpt_layout d'" "same_outside d1 d'" "\<And>g. entries d' g = entries d1 g"
      "hdr d' PRIMARY_GPT = sealed crc32 (marked GPT_OK (hdr d1 PRIMARY_GPT))"
      "r = 0 \<and> hdr d' SECONDARY_GPT = sealed crc32 (marked GPT_BAD_SIGNATURE (hdr d1 SECONDARY_GPT)) \<or>
       r \<noteq> 0 \<and> evs d1 \<noteq> [] \<and> hdr d' SECONDARY_GPT = hdr d1 SECONDARY_GPT"
    have "same_outside d d'" using same_outside_trans [OF same_outside_same [OF s] a(3)] .
    then show "?Q (r, snd (switch_boot_lun ?u NORMAL_BOOT w), d')"
      using a sw(2) later_evs [OF a(1) d1(1)] d1(1) by (simp add: dev_same [OF s])
  qed
qed (use assms in simp_all)

lemma finalize_succeeds:
  assumes "evs d = []" and lay: "gpt_layout d" and st: "disk_stage crc32 d = Some UPDATE_FINALIZE"
    and crc: "entries_crc_ok crc32 d PRIMARY_GPT"
  shows "runs (prepare_disk crc32 UPDATE_FINALIZE w d) (\<lambda>(r, w', d'). r = 0 \<and> w' = w \<and>
     gpt_layout d' \<and> same_outside d d' \<and> entries d' PRIMARY_GPT = entries d PRIMARY_GPT \<and>
     entries d' SECONDARY_GPT = entries d PRIMARY_GPT \<and> hdr d' PRIMARY_GPT = hdr d PRIMARY_GPT \<and>
     hdr d' SECONDARY_GPT =
       sealed crc32 (marked GPT_OK (secondary_header crc32 (entries d PRIMARY_GPT) (hdr d SECONDARY_GPT))))"
    (is "runs _ ?Q")
proof (rule runs_prepare_disk [OF no_short_Nil [OF assms(1)] lay])
  fix d1 assume s: "same_dev d d1"
  have d1: "evs d1 = []" "gpt_layout d1" "entries_crc_ok crc32 d1 PRIMARY_GPT"
    using later_evs [OF same_dev_later [OF s] assms(1)] lay crc by (simp_all add: dev_same [OF s] entries_crc_ok_def)
  show "runs (run_stage crc32 UPDATE_FINALIZE (gpt_utils_is_ufs_device w) w d1) ?Q"
    unfolding run_stage.simps
  proof (rule runs_update_finalize [OF no_short_Nil [OF d1(1)] d1(2,3)])
    fix d' assume a: "later d1 d'" "gpt_layout d'" "same_outside d1 d'" "hdr d' PRIMARY_GPT = hdr d1 PRIMARY_GPT"
      "entries d' PRIMARY_GPT = entries d1 PRIMARY_GPT" "entries d' SECONDARY_GPT = entries d1 PRIMARY_GPT"
      "hdr d' SECONDARY_GPT =
         sealed crc32 (marked GPT_OK (secondary_header crc32 (entries d1 PRIMARY_GPT) (hdr d1 SECONDARY_GPT)))"
    have "same_outside d d'" using same_outside_trans [OF same_outside_same [OF s] a(3)] .
    then show "?Q (0, w, d')" using a by (simp add: dev_same [OF s])
  qed (use d1(1) in simp)
qed (use assms in simp_all)

text \<open>The stages of an update one at a time: what each leaves on the disk that the one before it left.\<close>

lemma cycle_main:
  assumes "evs d = []" and "gpt_layout d" and "lun_ready w" and v: "\<And>g. valid_copy crc32 d g"
    and "chain_entries (gpt_utils_is_ufs_device w) BACKUP_BOOT (entries d PRIMARY_GPT) = Some (0, es)"
  obtains w1 d1 where "prepare_disk crc32 UPDATE_MAIN w d = Some (0, w1, d1)" and "lun_ready w1" and "evs d1 = []"
    and "gpt_layout d1" and "same_outside d d1" and "entries d1 PRIMARY_GPT = entries d PRIMARY_GPT" and "entries d1 SECONDARY_GPT = es"
    and "hdr d1 PRIMARY_GPT = sealed crc32 (marked GPT_BAD_SIGNATURE (hdr d PRIMARY_GPT))"
    and "hdr d1 SECONDARY_GPT = secondary_header crc32 es (hdr d SECONDARY_GPT)"
    and "header_state crc32 (hdr d1 PRIMARY_GPT) = GPT_BAD_SIGNATURE" and "valid_copy crc32 d1 SECONDARY_GPT"
proof -
  note long = hdr_long [OF layout_fits [OF assms(2)]]
  have h: "header_state crc32 (hdr d g) = GPT_OK" "entries_crc_ok crc32 d g" for g
    using v [of g] by (simp_all add: valid_copy_def)
  have "disk_stage crc32 d = Some UPDATE_MAIN" by (simp add: disk_stage_def internal_stage_def h)
  from main_succeeds [OF assms(1,2) this h(2) assms(3,5)] obtain w1 d1 where
    1: "prepare_disk crc32 UPDATE_MAIN w d = Some (0, w1, d1)" "lun_ready w1" "evs d1 = []" "gpt_layout d1" "same_outside d d1"
      "entries d1 PRIMARY_GPT = entries d PRIMARY_GPT" "entries d1 SECONDARY_GPT = es"
      "hdr d1 PRIMARY_GPT = sealed crc32 (marked GPT_BAD_SIGNATURE (hdr d PRIMARY_GPT))"
      "hdr d1 SECONDARY_GPT = secondary_header crc32 es (hdr d SECONDARY_GPT)" by (auto simp: runs_iff)
  show thesis
    by (rule that [OF 1])
      (use 1 header_state_secondary [OF long] header_ok_signature [OF h(1)] in
        \<open>simp_all add: header_state_marked [OF long] valid_copy_def entries_crc_ok_def\<close>)
qed

lemma cycle_backup:
  assumes "evs d1 = []" and "gpt_layout d1" and "lun_ready w" and "header_state crc32 (hdr d1 PRIMARY_GPT) = GPT_BAD_SIGNATURE"
    and v: "valid_copy crc32 d1 SECONDARY_GPT" "valid_copy crc32 d PRIMARY_GPT" and "92 \<le> length (hdr d PRIMARY_GPT)"
    and "hdr d1 PRIMARY_GPT = sealed crc32 (marked GPT_BAD_SIGNATURE (hdr d PRIMARY_GPT))"
    and "entries d1 PRIMARY_GPT = entries d PRIMARY_GPT"
  obtains w2 d2 where "prepare_disk crc32 UPDATE_BACKUP w d1 = Some (0, w2, d2)" and "evs d2 = []" and "gpt_layout d2"
    and "same_outside d1 d2" and "\<And>g. entries d2 g = entries d1 g" and "hdr d2 PRIMARY_GPT = hdr d PRIMARY_GPT"
    and "hdr d2 SECONDARY_GPT = sealed crc32 (marked GPT_BAD_SIGNATURE (hdr d1 SECONDARY_GPT))"
    and "header_state crc32 (hdr d2 SECONDARY_GPT) = GPT_BAD_SIGNATURE" and "valid_copy crc32 d2 PRIMARY_GPT"
proof -
  have "disk_stage crc32 d1 = Some UPDATE_BACKUP"
    using v(1) assms(4) by (simp add: disk_stage_def internal_stage_def valid_copy_def)
  from backup_succeeds [OF assms(1,2) this assms(3)] obtain w2 d2 where
    2: "prepare_disk crc32 UPDATE_BACKUP w d1 = Some (0, w2, d2)" "evs d2 = []" "gpt_layout d2" "same_outside d1 d2"
      "\<And>g. entries d2 g = entries d1 g" "hdr d2 PRIMARY_GPT = sealed crc32 (marked GPT_OK (hdr d1 PRIMARY_GPT))"
      "hdr d2 SECONDARY_GPT = sealed crc32 (marked GPT_BAD_SIGNATURE (hdr d1 SECONDARY_GPT))" by (auto simp: runs_iff)
  have h: "hdr d2 PRIMARY_GPT = hdr d PRIMARY_GPT"
    using 2(6) assms(8) v(2) header_restored [OF assms(7)] by (simp add: valid_copy_def)
  show thesis
    by (rule that [OF 2(1-5) h 2(7)])
      (use 2 h v(2) assms(9) header_state_marked [OF hdr_long [OF layout_fits [OF assms(2)]], of GPT_BAD_SIGNATURE crc32 SECONDARY_GPT] in
        \<open>simp_all add: valid_copy_def entries_crc_ok_def\<close>)
qed

lemma cycle_finalize:
  assumes "evs d2 = []" and "gpt_layout d2" and "header_state crc32 (hdr d2 SECONDARY_GPT) = GPT_BAD_SIGNATURE"
    and v: "valid_copy crc32 d2 PRIMARY_GPT" "valid_copy crc32 d SECONDARY_GPT" and lay: "gpt_layout d" and "same_outside d d2"
    and "entries d SECONDARY_GPT = entries d PRIMARY_GPT"
    and "entries d2 PRIMARY_GPT = entries d PRIMARY_GPT" and "hdr d2 PRIMARY_GPT = hdr d PRIMARY_GPT"
    and "hdr d2 SECONDARY_GPT = sealed crc32 (marked GPT_BAD_SIGNATURE (secondary_header crc32 es (hdr d SECONDARY_GPT)))"
  obtains d3 where "prepare_disk crc32 UPDATE_FINALIZE w d2 = Some (0, w, d3)" and "bytes d3 = bytes d"
proof -
  note long = hdr_long [OF layout_fits [OF lay]]
  have "disk_stage crc32 d2 = Some UPDATE_FINALIZE" "entries_crc_ok crc32 d2 PRIMARY_GPT"
    using v(1) assms(3) by (simp_all add: disk_stage_def internal_stage_def valid_copy_def)
  from finalize_succeeds [OF assms(1,2) this, of w] obtain d3 where
    3: "prepare_disk crc32 UPDATE_FINALIZE w d2 = Some (0, w, d3)" "same_outside d2 d3"
      "hdr d3 PRIMARY_GPT = hdr d2 PRIMARY_GPT" "entries d3 SECONDARY_GPT = entries d2 PRIMARY_GPT"
      "hdr d3 SECONDARY_GPT =
         sealed crc32 (marked GPT_OK (secondary_header crc32 (entries d2 PRIMARY_GPT) (hdr d2 SECONDARY_GPT)))"
    by (auto simp: runs_iff)
  have "hdr d3 SECONDARY_GPT = hdr d SECONDARY_GPT"
    using 3(5) assms(8,9,11) v(2) secondary_restored [OF long, of crc32 SECONDARY_GPT "entries d PRIMARY_GPT" GPT_BAD_SIGNATURE es]
    by (simp add: valid_copy_def entries_crc_ok_def)
  then have "bytes d3 = bytes d"
    using disk_restored [OF lay same_outside_trans [OF assms(7) 3(2)]] 3(3,4) assms(8-10) by simp
  then show thesis by (rule that [OF 3(1)])
qed

section \<open>The LUN list against a specification\<close>

text \<open>The LUN a name of the swap list leads to, and the list without repetitions, in order.\<close>

definition lun_of :: "world \<Rightarrow> string \<Rightarrow> string option" where
  "lun_of w n =
     (let buf = snprintf PATH_MAX (BOOT_DEV_DIR @ ''/'' @ n @ ''bak'') in
      if xbl_or_multiimg n \<or> stat w buf \<noteq> 0 then None
      else case readlink w buf (PATH_MAX - 1) of
        None \<Rightarrow> None
      | Some real_path \<Rightarrow>
          if strlen real_path < PATH_TRUNCATE_LOC + 1 \<or> stat w (take PATH_TRUNCATE_LOC real_path) \<noteq> 0 then None
          else Some (take PATH_TRUNCATE_LOC real_path))"

definition add_new :: "'a \<Rightarrow> 'a list \<Rightarrow> 'a list" where
  "add_new x xs = (if x \<in> set xs then xs else xs @ [x])"

definition luns :: "update_data \<Rightarrow> string list" where
  "luns dat = take (unat (num_valid_entries dat)) (lun_list dat)"

definition lun_path_ok :: "string \<Rightarrow> bool" where
  "lun_path_ok p \<longleftrightarrow> length p = PATH_TRUNCATE_LOC \<and> NUL \<notin> set p"

definition lun_list_ok :: "update_data \<Rightarrow> bool" where
  "lun_list_ok dat \<longleftrightarrow> length (lun_list dat) = MAX_LUNS \<and> unat (num_valid_entries dat) \<le> MAX_LUNS \<and>
     list_all lun_path_ok (luns dat)"

lemma add_new_set [simp]: "set (add_new x xs) = insert x (set xs)"
  by (auto simp: add_new_def)

lemma add_new_distinct [simp]: "distinct xs \<Longrightarrow> distinct (add_new x xs)"
  by (simp add: add_new_def)

lemma fold_add_new_set [simp]: "set (fold add_new ys xs) = set xs \<union> set ys"
  by (induction ys arbitrary: xs) auto

lemma fold_add_new_distinct [simp]: "distinct xs \<Longrightarrow> distinct (fold add_new ys xs)"
  by (induction ys arbitrary: xs) auto

lemma length_luns [simp]: "lun_list_ok dat \<Longrightarrow> length (luns dat) = unat (num_valid_entries dat)"
  by (simp add: lun_list_ok_def luns_def)

lemma lun_path_strncmp:
  assumes "lun_path_ok p" and "lun_path_ok e"
  shows "strncmp_eq p e (strlen e) \<longleftrightarrow> p = e"
proof -
  have "strlen e = length e" using assms(2) by (simp add: strlen_def lun_path_ok_def)
  moreover have "length p = length e" "NUL \<notin> set p" "NUL \<notin> set e" using assms by (simp_all add: lun_path_ok_def)
  ultimately show ?thesis using strncmp_eq_same_length by metis
qed

lemma lun_known_iff:
  assumes ok: "lun_list_ok dat" and "lun_path_ok p" and "i + k \<le> length (luns dat)"
  shows "lun_known p dat i k = Some (p \<in> set (seg i k (luns dat)))"
  using assms(3)
proof (induction k arbitrary: i)
  case (Suc k)
  let ?e = "lun_list dat ! i"
  have i: "i < length (luns dat)" using Suc.prems by simp
  then have e: "?e = luns dat ! i" "i < length (lun_list dat)" by (auto simp: luns_def)
  have "lun_path_ok ?e" using ok nth_mem [OF i] unfolding e(1) lun_list_ok_def list_all_iff by blast
  then have "strncmp_eq p ?e (strlen ?e) \<longleftrightarrow> p = ?e" using assms(2) lun_path_strncmp by blast
  moreover have "seg i (Suc k) (luns dat) = luns dat ! i # seg (Suc i) k (luns dat)"
    using i by (simp add: seg_def Cons_nth_drop_Suc [symmetric])
  ultimately show ?case using Suc e by (simp add: lun_at_def)
qed (simp add: seg_def)

lemma add_lun_exact:
  assumes ok: "lun_list_ok dat" and p: "lun_path_ok p" and "stat w p = 0" and n: "length (luns dat) < MAX_LUNS - 1"
  shows "\<exists>dat'. add_lun_to_update_list p dat w = Some (0, dat') \<and> lun_list_ok dat' \<and> luns dat' = add_new p (luns dat)"
proof -
  let ?n = "num_valid_entries dat"
  have l: "length (lun_list dat) = 26" "unat ?n < 25" using ok n by (simp_all add: lun_list_ok_def MAX_LUNS_def)
  have pp: "snprintf PATH_MAX p = p" using p by (simp add: lun_path_ok_def snprintf_def PATH_MAX_def PATH_TRUNCATE_LOC_def)
  have n1: "unat (?n + 1) = unat ?n + 1"
    using l(2) unat_add_lem [of ?n 1] by simp
  let ?d = "dat\<lparr>lun_list := (lun_list dat)[unat ?n := p], num_valid_entries := ?n + 1\<rparr>"
  have a: "luns ?d = luns dat @ [p]" using l by (simp add: luns_def n1 take_Suc_conv_app_nth)
  have "lun_list_ok ?d" using ok l p a by (simp add: lun_list_ok_def n1 MAX_LUNS_def)
  moreover have "luns dat = [] \<longleftrightarrow> ?n = 0" using ok length_luns [OF ok] by (simp add: unat_eq_zero flip: length_0_conv)
  moreover have "lun_known p dat 0 (unat ?n) = Some (p \<in> set (luns dat))"
    using lun_known_iff [OF ok p, of 0 "unat ?n"] ok by (simp add: seg_def)
  ultimately show ?thesis
    using assms(3) l a pp ok
    by (auto simp: add_lun_to_update_list_def put_lun_def add_new_def MAX_LUNS_def)
qed

lemma runs_prepare_partitions:
  assumes "disks w p = Some d"
    and "runs (prepare_disk crc32 stage w d) (\<lambda>(r, w', d'). Q (r, w'\<lparr>disks := (disks w')(p \<mapsto> d')\<rparr>))"
  shows "runs (prepare_partitions crc32 stage (Some p) w) Q"
  using assms by (simp add: prepare_partitions_def case_prod_beta')

lemma lun_of_SomeD: "lun_of w n = Some p \<Longrightarrow> lun_path_ok p \<and> stat w p = 0"
  by (auto simp: lun_of_def Let_def readlink_def lun_path_ok_def strlen_def dest!: in_set_takeD split: if_splits option.splits)

lemma collect_luns_Cons:
  "collect_luns (n # ns) dat w =
     (case lun_of w n of
        None \<Rightarrow> collect_luns ns dat w
      | Some p \<Rightarrow> do { (r, dat) \<leftarrow> add_lun_to_update_list p dat w; collect_luns ns dat w })"
  by (auto simp: lun_of_def Let_def add_lun_to_update_list_def split: option.split)

lemma collect_luns_exact:
  assumes "lun_list_ok dat" and "distinct (luns dat)"
    and "card (set (luns dat) \<union> set (List.map_filter (lun_of w) ns)) < MAX_LUNS - 1"
  shows "\<exists>dat'. collect_luns ns dat w = Some dat' \<and> lun_list_ok dat' \<and>
     luns dat' = fold add_new (List.map_filter (lun_of w) ns) (luns dat)"
  using assms
proof (induction ns arbitrary: dat)
  case (Cons n ns)
  show ?case
  proof (cases "lun_of w n")
    case None
    then show ?thesis using Cons by (simp add: collect_luns_Cons map_filter_simps del: collect_luns.simps)
  next
    case (Some p)
    note p = lun_of_SomeD [OF Some]
    have "length (luns dat) = card (set (luns dat))" using Cons.prems(2) by (simp add: distinct_card)
    also have "\<dots> \<le> card (set (luns dat) \<union> set (List.map_filter (lun_of w) (n # ns)))" by (intro card_mono) auto
    finally have "length (luns dat) < MAX_LUNS - 1" using Cons.prems(3) by simp
    from add_lun_exact [OF Cons.prems(1) _ _ this] p obtain dat' where
      d: "add_lun_to_update_list p dat w = Some (0, dat')" "lun_list_ok dat'" "luns dat' = add_new p (luns dat)" by blast
    have "set (luns dat') \<union> set (List.map_filter (lun_of w) ns) = set (luns dat) \<union> set (List.map_filter (lun_of w) (n # ns))"
      using Some d(3) by (auto simp: map_filter_simps)
    with Cons.IH [OF d(2)] Cons.prems(2,3) d(3) show ?thesis
      by (simp add: collect_luns_Cons Some d(1) map_filter_simps del: collect_luns.simps)
  qed
qed (simp add: map_filter_simps)

lemma empty_update_data_ok: "lun_list_ok empty_update_data" "luns empty_update_data = []"
  by (simp_all add: lun_list_ok_def empty_update_data_def luns_def)

text \<open>The disks of a device all keep the invariant.\<close>

definition disks_inv :: "crc_fun \<Rightarrow> world \<Rightarrow> bool" where
  "disks_inv crc32 w \<longleftrightarrow> (\<forall>p d. disks w p = Some d \<longrightarrow> update_inv crc32 d \<and> no_short d)"

lemma prepare_partitions_inv:
  assumes "disks_inv crc32 w"
  shows "runs (prepare_partitions crc32 stage (Some p) w) (\<lambda>(r, w'). disks_inv crc32 w' \<and>
     dom (disks w') = dom (disks w) \<and> (\<forall>q. q \<noteq> p \<longrightarrow> disks w' q = disks w q))"
proof (cases "disks w p")
  case None
  then show ?thesis using assms by (simp add: prepare_partitions_def)
next
  case (Some d)
  then have d: "update_inv crc32 d" "no_short d" using assms by (auto simp: disks_inv_def)
  show ?thesis
    by (rule runs_prepare_partitions [OF Some], rule runs_mono [OF prepare_disk_inv [OF d(2,1)]])
      (use assms Some d in \<open>auto simp: disks_inv_def same_system_def later_def\<close>)
qed

lemma prepare_luns_inv:
  assumes "disks_inv crc32 w"
  shows "runs (prepare_luns crc32 stage ps e w) (\<lambda>(r, w'). disks_inv crc32 w' \<and>
     dom (disks w') = dom (disks w) \<and> (\<forall>q. q \<notin> set ps \<longrightarrow> disks w' q = disks w q))"
  using assms
proof (induction ps arbitrary: e w)
  case (Cons p ps)
  show ?case unfolding prepare_luns.simps runs_bind
    by (rule runs_mono [OF prepare_partitions_inv [OF Cons.prems]], clarsimp)
      (rule runs_mono [OF Cons.IH], auto)
qed simp

text \<open>Any number of calls on one disk, each with its own faults, interrupted or not.\<close>

inductive update_run :: "crc_fun \<Rightarrow> dev \<Rightarrow> dev \<Rightarrow> bool" for crc32 d0 where
  start: "update_run crc32 d0 d0"
| call: "update_run crc32 d0 d \<Longrightarrow> bytes d1 = bytes d \<Longrightarrow> ssz d1 = ssz d \<Longrightarrow> no_short d1 \<Longrightarrow>
    prepare_disk crc32 stage w d1 = Some (r, w', d') \<Longrightarrow> update_run crc32 d0 d'"

inductive_cases update_runE: "update_run crc32 d0 d"

lemma update_inv_medium:
  assumes "bytes d1 = bytes d" and "ssz d1 = ssz d"
  shows "update_inv crc32 d1 = update_inv crc32 d"
proof -
  have "hdr_off d1 = hdr_off d" unfolding hdr_off_def assms by (rule refl)
  then have "hdr d1 = hdr d" by (simp add: hdr_def [abs_def] assms)
  then have e: "ent_off d1 = ent_off d" "ent_len d1 = ent_len d" "hdr d1 = hdr d"
    by (simp_all add: ent_off_def [abs_def] ent_len_def assms)
  then have "entries d1 = entries d" by (simp add: entries_def [abs_def] assms)
  with e show ?thesis
    by (simp add: update_inv_def gpt_layout_def hdr_fits_def valid_copy_def entries_crc_ok_def assms)
qed

lemma update_run_inv: "update_run crc32 d0 d \<Longrightarrow> update_inv crc32 d0 \<Longrightarrow> update_inv crc32 d"
proof (induction rule: update_run.induct)
  case (call d d1 stage w r w' d')
  then have "update_inv crc32 d1" using update_inv_medium by blast
  from prepare_disk_inv [OF call.hyps(4) this] call.hyps(5) show ?case by (auto dest: runsD)
qed

section \<open>Properties\<close>

text \<open>
  Claim C1. The update is fail-safe. Take a disk that satisfies the invariant and let \<open>prepare_partitions\<close> be called on it any number of times,
  in any order of stages, with system calls and allocations that fail at any points (a crash is a run in which everything
  fails from some point on) and without torn transfers. Then no call is undefined, and at every moment between calls at least one copy of the
  table is valid: good signature, good header CRC and entries that match the array CRC.
\<close>

theorem update_failsafe:
  assumes "update_inv crc32 d0" and "update_run crc32 d0 d"
  shows "(\<exists>g. valid_copy crc32 d g) \<and>
     (\<forall>stage w d1. bytes d1 = bytes d \<longrightarrow> ssz d1 = ssz d \<longrightarrow> no_short d1 \<longrightarrow> prepare_disk crc32 stage w d1 \<noteq> None)"
proof -
  note inv = update_run_inv [OF assms(2,1)]
  have "prepare_disk crc32 stage w d1 \<noteq> None" if "bytes d1 = bytes d" "ssz d1 = ssz d" "no_short d1" for stage w d1
    using prepare_disk_inv [OF that(3), of crc32 stage w] inv update_inv_medium [OF that(1,2)] by (auto simp: runs_iff)
  then show ?thesis using update_inv_valid [OF inv] by blast
qed

lemma sample_dev_inv: "update_inv sum_crc sample_dev"
  by (simp add: update_inv_def sample_dev_layout sample_dev_crc sample_dev_state)

theorem update_failsafe_witness:
  "update_inv sum_crc sample_dev \<and> update_run sum_crc sample_dev sample_dev \<and> (\<exists>g. valid_copy sum_crc sample_dev g)"
  using update_failsafe [OF sample_dev_inv update_run.start] sample_dev_inv update_run.start by blast

text \<open>
  Claim C2. The three stages, called in order on a consistent disk with a backup to switch to and no faults, all return 0. After
  the first the primary header is spoilt and the secondary copy is valid with the swapped entries; after the second the primary copy
  is valid with the original entries and the secondary header is spoilt; after the third the disk is byte for byte what it was.
\<close>

theorem update_cycle:
  assumes "disks w p = Some d" and "evs d = []" and "gpt_layout d" and "lun_ready w"
    and "valid_copy crc32 d PRIMARY_GPT" and "valid_copy crc32 d SECONDARY_GPT"
    and "entries d SECONDARY_GPT = entries d PRIMARY_GPT"
    and "chain_entries (gpt_utils_is_ufs_device w) BACKUP_BOOT (entries d PRIMARY_GPT) = Some (0, es)"
  shows "runs (do {
       (r1, w1) \<leftarrow> prepare_partitions crc32 UPDATE_MAIN (Some p) w;
       (r2, w2) \<leftarrow> prepare_partitions crc32 UPDATE_BACKUP (Some p) w1;
       (r3, w3) \<leftarrow> prepare_partitions crc32 UPDATE_FINALIZE (Some p) w2;
       Some (r1, w1, r2, w2, r3, w3)
     }) (\<lambda>(r1, w1, r2, w2, r3, w3). r1 = 0 \<and> r2 = 0 \<and> r3 = 0 \<and>
       (\<exists>d1. disks w1 p = Some d1 \<and> header_state crc32 (hdr d1 PRIMARY_GPT) = GPT_BAD_SIGNATURE \<and>
          valid_copy crc32 d1 SECONDARY_GPT \<and> entries d1 SECONDARY_GPT = es) \<and>
       (\<exists>d2. disks w2 p = Some d2 \<and> header_state crc32 (hdr d2 SECONDARY_GPT) = GPT_BAD_SIGNATURE \<and>
          valid_copy crc32 d2 PRIMARY_GPT \<and> entries d2 PRIMARY_GPT = entries d PRIMARY_GPT) \<and>
       (\<exists>d3. disks w3 p = Some d3 \<and> bytes d3 = bytes d))"
proof -
  have v: "valid_copy crc32 d g" for g using assms(5,6) by (cases g) simp_all
  obtain w1 d1 where r1: "prepare_disk crc32 UPDATE_MAIN w d = Some (0, w1, d1)" and w1: "lun_ready w1"
    and d1: "evs d1 = []" "gpt_layout d1" "same_outside d d1" "entries d1 PRIMARY_GPT = entries d PRIMARY_GPT"
      "entries d1 SECONDARY_GPT = es" "hdr d1 PRIMARY_GPT = sealed crc32 (marked GPT_BAD_SIGNATURE (hdr d PRIMARY_GPT))"
      "hdr d1 SECONDARY_GPT = secondary_header crc32 es (hdr d SECONDARY_GPT)"
      "header_state crc32 (hdr d1 PRIMARY_GPT) = GPT_BAD_SIGNATURE" "valid_copy crc32 d1 SECONDARY_GPT"
    by (rule cycle_main [OF assms(2-4) v assms(8)])
  define w1' where "w1' = w1\<lparr>disks := (disks w1)(p \<mapsto> d1)\<rparr>"
  have "lun_ready w1'" using w1 by (simp add: w1'_def)
  from cycle_backup [OF d1(1,2) this d1(8,9) v hdr_long [OF layout_fits [OF assms(3)]] d1(6,4)] obtain w2 d2 where
    r2: "prepare_disk crc32 UPDATE_BACKUP w1' d1 = Some (0, w2, d2)"
    and d2: "evs d2 = []" "gpt_layout d2" "same_outside d1 d2" "\<And>g. entries d2 g = entries d1 g" "hdr d2 PRIMARY_GPT = hdr d PRIMARY_GPT"
      "hdr d2 SECONDARY_GPT = sealed crc32 (marked GPT_BAD_SIGNATURE (hdr d1 SECONDARY_GPT))"
      "header_state crc32 (hdr d2 SECONDARY_GPT) = GPT_BAD_SIGNATURE" "valid_copy crc32 d2 PRIMARY_GPT" by blast
  define w2' where "w2' = w2\<lparr>disks := (disks w2)(p \<mapsto> d2)\<rparr>"
  obtain d3 where r3: "prepare_disk crc32 UPDATE_FINALIZE w2' d2 = Some (0, w2', d3)" and "bytes d3 = bytes d"
    by (rule cycle_finalize [OF d2(1,2,7,8) v assms(3) same_outside_trans [OF d1(3) d2(3)] assms(7), of es w2'])
      (simp_all add: d2(4-6) d1(4,7))
  moreover have "prepare_partitions crc32 UPDATE_MAIN (Some p) w = Some (0, w1')"
    "prepare_partitions crc32 UPDATE_BACKUP (Some p) w1' = Some (0, w2')"
    "prepare_partitions crc32 UPDATE_FINALIZE (Some p) w2' = Some (0, w2'\<lparr>disks := (disks w2')(p \<mapsto> d3)\<rparr>)"
    using assms(1) r1 r2 r3 by (simp_all add: prepare_partitions_def w1'_def w2'_def)
  ultimately show ?thesis
    using d1 d2 by simp (simp add: w1'_def w2'_def)
qed

text \<open>An eMMC phone with the small disk.\<close>

definition sample_emmc :: world where
  "sample_emmc = sample_world\<lparr>sys_props := [''ro.boot.bootdevice'' \<mapsto> ''7824900.sdhci''],
     disks := [BLK_DEV_FILE \<mapsto> sample_dev]\<rparr>"

lemma sample_emmc_not_ufs: "\<not> gpt_utils_is_ufs_device sample_emmc"
  by code_simp

lemma sample_chain: "\<exists>es. chain_entries is_ufs BACKUP_BOOT sample_array = Some (0, es)"
proof -
  have "''tz'' \<in> set (swapped_names True)" "''tz'' \<in> set (swapped_names False)" by code_simp+
  then have n: "''tz'' \<in> set (swapped_names is_ufs)" by (cases is_ufs) simp_all
  have "\<not> (\<forall>n \<in> set (swapped_names is_ufs). backup_pair n (pentry_list sample_array) = None)"
    using n sample_array_pair by (metis option.distinct(1))
  from gpt_boot_chain_swap_refines [OF length_sample_array, of is_ufs, unfolded if_not_P [OF this]] show ?thesis
    by (auto simp: chain_entries_def)
qed

theorem update_cycle_witness:
  "\<exists>w1 w2 w3 d3. prepare_partitions sum_crc UPDATE_MAIN (Some BLK_DEV_FILE) sample_emmc = Some (0, w1) \<and>
     prepare_partitions sum_crc UPDATE_BACKUP (Some BLK_DEV_FILE) w1 = Some (0, w2) \<and>
     prepare_partitions sum_crc UPDATE_FINALIZE (Some BLK_DEV_FILE) w2 = Some (0, w3) \<and>
     disks w3 BLK_DEV_FILE = Some d3 \<and> bytes d3 = bytes sample_dev"
proof -
  have w: "disks sample_emmc BLK_DEV_FILE = Some sample_dev" by (simp add: sample_emmc_def)
  have e: "evs sample_dev = []" using sample_dev_parts by simp
  have r: "lun_ready sample_emmc" using sample_emmc_not_ufs by (simp add: lun_ready_def)
  have v: "valid_copy sum_crc sample_dev g" for g by (simp add: valid_copy_def sample_dev_state sample_dev_crc)
  obtain es where c: "chain_entries (gpt_utils_is_ufs_device sample_emmc) BACKUP_BOOT (entries sample_dev PRIMARY_GPT) = Some (0, es)"
    using sample_chain by (auto simp: sample_dev_entries)
  show ?thesis
    using update_cycle [OF w e sample_dev_layout r v v _ c] by (auto simp: runs_iff sample_dev_entries bind_eq_Some_conv)
qed

text \<open>
  A stage that is not the one the disk is in never writes: the disk keeps its contents under every schedule. Without
  faults the call returns 0 when the disk is exactly one stage ahead, so that a stage can be repeated, and -1 in every other case.
\<close>

theorem prepare_partitions_other_stage:
  assumes "disks w p = Some d" and "no_short d" and "gpt_layout d" and "disk_stage crc32 d \<noteq> Some stage"
  shows "runs (prepare_partitions crc32 stage (Some p) w) (\<lambda>(r, w').
     (\<exists>d'. disks w' = (disks w)(p \<mapsto> d') \<and> same_dev d d') \<and>
     (evs d = [] \<longrightarrow>
        r = (if \<exists>i. disk_stage crc32 d = Some i \<and> stage_number stage = stage_number i - 1 then 0 else -1)))"
  by (rule runs_prepare_partitions [OF assms(1)], rule runs_prepare_disk [OF assms(2,3)]) (use assms(4) in auto)

theorem prepare_partitions_other_stage_witness:
  "\<exists>w'. prepare_partitions sum_crc UPDATE_FINALIZE (Some BLK_DEV_FILE) sample_emmc = Some (-1, w')"
proof -
  have w: "disks sample_emmc BLK_DEV_FILE = Some sample_dev" by (simp add: sample_emmc_def)
  have s: "disk_stage sum_crc sample_dev = Some UPDATE_MAIN"
    by (simp add: disk_stage_def internal_stage_def sample_dev_state)
  then have "disk_stage sum_crc sample_dev \<noteq> Some UPDATE_FINALIZE" by simp
  from prepare_partitions_other_stage [OF w sample_dev_no_short sample_dev_layout this] s show ?thesis
    by (auto simp: runs_iff sample_dev_parts(3))
qed

text \<open>
  Claim C32. On a device whose swap-list names lead to fewer than 25 different LUNs, the list that \<open>prepare_boot_update\<close> collects stays
  inside its array and holds every LUN of a backup partition exactly once.
\<close>

theorem collect_luns_each_once:
  assumes "card (set (List.map_filter (lun_of w) PTN_SWAP_LIST)) < MAX_LUNS - 1"
  shows "\<exists>dat. collect_luns PTN_SWAP_LIST empty_update_data w = Some dat \<and> distinct (luns dat) \<and>
     set (luns dat) = set (List.map_filter (lun_of w) PTN_SWAP_LIST) \<and> length (luns dat) = unat (num_valid_entries dat)"
proof -
  from collect_luns_exact [of empty_update_data w PTN_SWAP_LIST] assms empty_update_data_ok obtain dat where
    d: "collect_luns PTN_SWAP_LIST empty_update_data w = Some dat" "lun_list_ok dat"
    "luns dat = fold add_new (List.map_filter (lun_of w) PTN_SWAP_LIST) []" by auto
  from length_luns [OF d(2)] d(1,3) show ?thesis by simp
qed

lemma few_luns:
  assumes "length (paths w) < MAX_LUNS - 1"
  shows "card (set (List.map_filter (lun_of w) ns)) < MAX_LUNS - 1"
proof -
  have "set (List.map_filter (lun_of w) ns) \<subseteq> set (paths w)"
    using lun_of_SomeD by (fastforce simp: List.map_filter_def stat_def split: if_splits)
  then have "card (set (List.map_filter (lun_of w) ns)) \<le> card (set (paths w))" by (intro card_mono) auto
  then show ?thesis using assms card_length [of "paths w"] by linarith
qed

lemma sample_world_luns:
  "card (set (List.map_filter (lun_of sample_world) ns)) < MAX_LUNS - 1"
  "lun_of sample_world ''tz'' = Some ''/dev/block/sdd''"
  by (rule few_luns; simp add: sample_world_def MAX_LUNS_def) code_simp

theorem collect_luns_each_once_witness:
  "\<exists>dat. collect_luns PTN_SWAP_LIST empty_update_data sample_world = Some dat \<and> distinct (luns dat) \<and>
     ''/dev/block/sdd'' \<in> set (luns dat)"
proof -
  have "''tz'' \<in> set PTN_SWAP_LIST" by (simp add: PTN_SWAP_LIST_def)
  then have "''/dev/block/sdd'' \<in> set (List.map_filter (lun_of sample_world) PTN_SWAP_LIST)"
    using sample_world_luns(2) by (force simp: List.map_filter_def)
  then show ?thesis using collect_luns_each_once [OF sample_world_luns(1)] by metis
qed

text \<open>
  Claim C33. The limit is real: once the list holds 25 entries the search for a repetition is skipped, and two more calls, with LUNs
  that are already in the list or not, write past the end of the array.
\<close>

theorem add_lun_overflow:
  assumes "length (lun_list dat) = MAX_LUNS" and "num_valid_entries dat = 25" and "stat w p = 0" and "stat w q = 0"
  shows "do { (r, dat) \<leftarrow> add_lun_to_update_list p dat w; add_lun_to_update_list q dat w } = None"
  using assms by (simp add: add_lun_to_update_list_def put_lun_def MAX_LUNS_def)

theorem add_lun_overflow_witness:
  "do { (r, dat) \<leftarrow> add_lun_to_update_list ''/dev/block/sdd''
          \<lparr>lun_list = replicate 26 ''/dev/block/sdd'', num_valid_entries = 25\<rparr> sample_world;
        add_lun_to_update_list ''/dev/block/sdd'' dat sample_world } = None"
  by (rule add_lun_overflow) (simp_all add: MAX_LUNS_def stat_def sample_world_def)

text \<open>
  Claim C6. \<open>prepare_boot_update\<close> is fail-safe over all disks of the device: if every disk satisfies the invariant and there are fewer than 25
  LUNs, then under every schedule of faults without torn transfers the call is defined, every disk satisfies the invariant afterwards
  (so each has a valid copy of its table), and on a UFS device a disk that holds no backup partition of the swap list is unchanged.
\<close>

theorem prepare_boot_update_failsafe:
  assumes "disks_inv crc32 w" and "card (set (List.map_filter (lun_of w) PTN_SWAP_LIST)) < MAX_LUNS - 1"
  shows "runs (prepare_boot_update crc32 stage w) (\<lambda>(r, w'). disks_inv crc32 w' \<and> dom (disks w') = dom (disks w) \<and>
     (gpt_utils_is_ufs_device w \<longrightarrow>
        (\<forall>q. q \<notin> set (List.map_filter (lun_of w) PTN_SWAP_LIST) \<longrightarrow> disks w' q = disks w q)))"
proof (cases "gpt_utils_is_ufs_device w")
  case False
  then show ?thesis
    by (simp add: prepare_boot_update_def) (rule runs_mono [OF prepare_partitions_inv [OF assms(1)]], auto)
next
  case True
  let ?L = "List.map_filter (lun_of w) PTN_SWAP_LIST"
  from collect_luns_exact [of empty_update_data w PTN_SWAP_LIST] assms(2) empty_update_data_ok obtain dat where
    d: "collect_luns PTN_SWAP_LIST empty_update_data w = Some dat" "lun_list_ok dat" "luns dat = fold add_new ?L []" by auto
  have "\<not> length (lun_list dat) < unat (num_valid_entries dat)" using d(2) by (simp add: lun_list_ok_def)
  then have "prepare_boot_update crc32 stage w =
      prepare_luns crc32 stage (luns dat) False w \<bind> (\<lambda>(e, w). Some (if e then -1 else 0, w))"
    using True d(1) by (simp add: prepare_boot_update_def luns_def)
  then show ?thesis
    by simp (rule runs_mono [OF prepare_luns_inv [OF assms(1)]], use True d(3) in auto)
qed

theorem prepare_boot_update_failsafe_witness:
  "disks_inv sum_crc sample_world \<and>
   (\<exists>r w'. prepare_boot_update sum_crc UPDATE_MAIN sample_world = Some (r, w') \<and> disks_inv sum_crc w')"
proof -
  have d: "disks_inv sum_crc sample_world"
    by (simp add: disks_inv_def sample_world_def sample_dev_inv sample_dev_no_short)
  then show ?thesis
    using prepare_boot_update_failsafe [OF d sample_world_luns(1), of UPDATE_MAIN] by (auto simp: runs_iff)
qed

text \<open>
  Claim C8. Switching the boot partition returns 0 or -1. It sends at most one request, the write of LUN 2 for the backup chain and of LUN 1 for
  the normal one; it returns 0 only after sending it, with both partitions of one of the two naming schemes present and the
  SCSI node of the chosen one found, and it leaves no handle open.
\<close>

theorem set_xbl_boot_partition_exact:
  assumes "fd_ufs_bsg w = 0" and "0 < next_fd w"
  shows "case gpt_utils_set_xbl_boot_partition chain w of (r, w') \<Rightarrow>
     (r = 0 \<or> r = -1) \<and> open_fds w' = open_fds w \<and> disks w' = disks w \<and>
     (sg_log w' = sg_log w \<and> r = -1 \<or>
      sg_log w' = sg_log w @ [(next_fd w, \<lparr>guard = CHR ''Q'',
        request = boot_lun_request (if chain = BACKUP_BOOT then 2 else 1), din_xfer_len = 0, dout_xfer_len = 0\<rparr>)] \<and>
      (stat w XBL_PRIMARY = 0 \<and> stat w XBL_BACKUP = 0 \<or> stat w XBL_AB_PRIMARY = 0 \<and> stat w XBL_AB_SECONDARY = 0) \<and>
      (\<exists>p \<in> (if chain = BACKUP_BOOT then {XBL_BACKUP, XBL_AB_SECONDARY} else {XBL_PRIMARY, XBL_AB_PRIMARY}).
         stat w p = 0 \<and> fst (get_scsi_node_from_bootdevice w p PATH_MAX) = 0))"
proof -
  define lun where "lun = (if chain = BACKUP_BOOT then BOOT_LUN_B_ID else BOOT_LUN_A_ID)"
  have l: "boot_lun_request lun = boot_lun_request (if chain = BACKUP_BOOT then 2 else 1)"
    by (simp add: lun_def BOOT_LUN_A_ID_def BOOT_LUN_B_ID_def)
  define boot_dev where "boot_dev = (if chain = BACKUP_BOOT
     then if stat w XBL_BACKUP = 0 then Some XBL_BACKUP else if stat w XBL_AB_SECONDARY = 0 then Some XBL_AB_SECONDARY else None
     else if stat w XBL_PRIMARY = 0 then Some XBL_PRIMARY else if stat w XBL_AB_PRIMARY = 0 then Some XBL_AB_PRIMARY else None)"
  obtain r w' where S: "set_boot_lun lun w = (r, w')" by fastforce
  have P: "gpt_utils_set_xbl_boot_partition chain w =
     (case boot_dev of None \<Rightarrow> (-1, w)
      | Some p \<Rightarrow>
          if (stat w XBL_PRIMARY \<noteq> 0 \<or> stat w XBL_BACKUP \<noteq> 0) \<and> (stat w XBL_AB_PRIMARY \<noteq> 0 \<or> stat w XBL_AB_SECONDARY \<noteq> 0)
             \<or> fst (get_scsi_node_from_bootdevice w p PATH_MAX) \<noteq> 0 then (-1, w)
          else (if r = 0 then 0 else -1, w'))"
  proof (cases chain)
    case BACKUP_BOOT
    with S have "set_boot_lun BOOT_LUN_B_ID w = (r, w')" by (simp add: lun_def)
    then show ?thesis by (simp add: gpt_utils_set_xbl_boot_partition_def boot_dev_def BACKUP_BOOT case_prod_beta Let_def)
  next
    case NORMAL_BOOT
    with S have "set_boot_lun BOOT_LUN_A_ID w = (r, w')" by (simp add: lun_def)
    then show ?thesis by (simp add: gpt_utils_set_xbl_boot_partition_def boot_dev_def NORMAL_BOOT case_prod_beta Let_def)
  qed
  have R: "open_fds w' = open_fds w \<and> disks w' = disks w \<and> (sg_log w' = sg_log w \<and> r \<noteq> 0 \<or>
      sg_log w' = sg_log w @ [(next_fd w, \<lparr>guard = CHR ''Q'', request = boot_lun_request lun, din_xfer_len = 0, dout_xfer_len = 0\<rparr>)])"
    using S unfolding set_boot_lun_eq [OF assms]
    by (auto simp: EINVAL_def ENODEV_def split: option.splits if_splits prod.splits)
  show ?thesis
    unfolding P using R l by (auto simp: boot_dev_def split: option.splits if_splits)
qed

theorem set_xbl_boot_partition_exact_witness:
  "fd_ufs_bsg sample_world = 0 \<and> 0 < next_fd sample_world \<and>
   (case gpt_utils_set_xbl_boot_partition BACKUP_BOOT sample_world of (r, w') \<Rightarrow> r = 0 \<or> r = -1)"
proof -
  have w: "fd_ufs_bsg sample_world = 0" "0 < next_fd sample_world" by (simp_all add: sample_world_def)
  then show ?thesis using set_xbl_boot_partition_exact [OF w, of BACKUP_BOOT] by auto
qed

end
