(* ===== verification/Gpt_Disk.thy ===== *)
theory Gpt_Disk
  imports Boot_Update
begin

text \<open>
  The rest of \<open>gpt-utils.cpp\<close>: finding the disk of a partition, the map from disks to partitions, and the \<open>gpt_disk\<close>
  interface the boot control code uses, which reads both copies of a table into memory, lets the client change
  them, recomputes the checksums and writes them back.
\<close>

section \<open>From partitions to disks\<close>

text \<open>
  The buffer is a \<open>char\<close> array: \<open>readlink\<close> overwrites its beginning and adds no terminator, the code
  puts one at a fixed place.
\<close>

definition get_dev_path_from_partition_name :: "world \<Rightarrow> string \<Rightarrow> string \<Rightarrow> int \<times> string" where
  "get_dev_path_from_partition_name w partname buf =
     (if length buf < PATH_TRUNCATE_LOC + 1 then (-1, buf)
      else if gpt_utils_is_ufs_device w then
        (let path = snprintf PATH_MAX (BOOT_DEV_DIR @ ''/'' @ cstr partname) in
         if stat w path \<noteq> 0 then (-1, buf)
         else case links w path of
           None \<Rightarrow> (-1, buf)
         | Some target \<Rightarrow> (0, (overwrite 0 (take (length buf) target) buf)[PATH_TRUNCATE_LOC := NUL]))
      else (0, overwrite 0 (snprintf (length buf) BLK_DEV_FILE @ [NUL]) buf))"

fun partition_map_loop ::
  "world \<Rightarrow> string list \<Rightarrow> string \<Rightarrow> (string \<rightharpoonup> string list) \<Rightarrow> (string \<rightharpoonup> string list)" where
  "partition_map_loop w [] devpath m = m"
| "partition_map_loop w (n # ns) devpath m =
     (let (r, devpath) = get_dev_path_from_partition_name w n devpath in
      if r \<noteq> 0 then partition_map_loop w ns devpath m
      else
        (let path = cstr devpath;
             m = (case m path of
                    Some v \<Rightarrow> m(path \<mapsto> v @ [n])
                  | None \<Rightarrow> m(path \<mapsto> [n])) in
         partition_map_loop w ns (replicate (length devpath) NUL) m))"

definition gpt_utils_get_partition_map ::
  "world \<Rightarrow> string list \<Rightarrow> (string \<rightharpoonup> string list) \<Rightarrow> int \<times> (string \<rightharpoonup> string list)" where
  "gpt_utils_get_partition_map w ptn_list partition_map =
     (if length ptn_list < 1 then (-1, partition_map)
      else (0, partition_map_loop w ptn_list (replicate PATH_MAX NUL) partition_map))"

section \<open>Headers and entry arrays through a descriptor\<close>

text \<open>A null pointer is \<open>None\<close>; the functions here are never called with a negative descriptor.\<close>

definition gpt_get_block_size :: "dev \<Rightarrow> u32 \<times> dev" where
  "gpt_get_block_size d =
     (let (blk, d) = ioctl_BLKSSZGET d in (case blk of None \<Rightarrow> 0 | Some block_size \<Rightarrow> block_size, d))"

definition gpt_set_header :: "byte list option \<Rightarrow> dev \<Rightarrow> gpt_instance \<Rightarrow> (int \<times> dev) option" where
  "gpt_set_header gpt_header d gpt =
     (case gpt_header of
        None \<Rightarrow> Some (-1, d)
      | Some h \<Rightarrow>
     (let (block_size, d) = gpt_get_block_size d in
      if block_size = 0 then Some (-1, d)
      else
     (let (gpt_header_offset, d) = gpt_header_pos gpt block_size d in
      if gpt_header_offset \<le> 0 then Some (-1, d)
      else do {
        (r, h, d) \<leftarrow> blk_rw d True gpt_header_offset h (unat block_size);
        Some (if r \<noteq> 0 then -1 else 0, d)
      })))"

text \<open>
  A failed allocation is only logged: the read then gets a null buffer, which the kernel refuses
  (\<open>EFAULT\<close>) if the seek before it succeeds.
\<close>

definition blk_read_null :: "dev \<Rightarrow> int \<Rightarrow> dev" where
  "blk_read_null d offset =
     (let (pos, d) = lseek64_set offset d in if pos < 0 then d else snd (next_ev d))"

definition read_header :: "dev \<Rightarrow> gpt_instance \<Rightarrow> (byte list option \<times> dev) option" where
  "read_header d gpt =
     (let (block_size, d) = gpt_get_block_size d in
      if block_size = 0 then Some (None, d)
      else
     (let (h, d) = sys_malloc (unat block_size) d;
          (hdr_offset, d) = gpt_header_pos gpt block_size d in
      if hdr_offset < 0 then Some (None, d)
      else case h of
        None \<Rightarrow> Some (None, blk_read_null d hdr_offset)
      | Some h \<Rightarrow> do {
          (r, h, d) \<leftarrow> blk_rw d False hdr_offset h (unat block_size);
          Some (if r \<noteq> 0 then None else Some h, d)
        }))"

definition gpt_get_header ::
  "string option \<Rightarrow> gpt_instance \<Rightarrow> world \<Rightarrow> (byte list option \<times> world) option" where
  "gpt_get_header partname gpt w =
     (case partname of
        None \<Rightarrow> Some (None, w)
      | Some n \<Rightarrow>
     (let (r, devpath) = get_dev_path_from_partition_name w n (replicate PATH_MAX NUL) in
      if r \<noteq> 0 then Some (None, w)
      else case disks w (cstr devpath) of
        None \<Rightarrow> Some (None, w)
      | Some d \<Rightarrow> do {
          (h, d) \<leftarrow> read_header d gpt;
          Some (h, w\<lparr>disks := (disks w)(cstr devpath \<mapsto> d)\<rparr>)
        }))"

definition pentry_arr_geometry :: "byte list \<Rightarrow> u32 \<Rightarrow> (u64 \<times> u32) option" where
  "pentry_arr_geometry h block_size = do {
     lba \<leftarrow> GET_8_BYTES h PENTRIES_OFFSET;
     let pentries_start = lba * ucast block_size;
     pentry_size \<leftarrow> GET_4_BYTES h PENTRY_SIZE_OFFSET;
     cnt \<leftarrow> GET_4_BYTES h PARTITION_COUNT_OFFSET;
     let pentries_arr_size = cnt * pentry_size;
     Some (pentries_start, pentries_arr_size)
   }"

definition gpt_get_pentry_arr :: "byte list option \<Rightarrow> dev \<Rightarrow> (byte list option \<times> dev) option" where
  "gpt_get_pentry_arr gpt_header d =
     (case gpt_header of
        None \<Rightarrow> Some (None, d)
      | Some h \<Rightarrow>
     (let (block_size, d) = gpt_get_block_size d in
      if block_size = 0 then Some (None, d)
      else do {
        (pentries_start, pentries_arr_size) \<leftarrow> pentry_arr_geometry h block_size;
        (let (p, d) = sys_calloc (unat pentries_arr_size) d in
         case p of
           None \<Rightarrow> Some (None, d)
         | Some pentry_arr \<Rightarrow> do {
             (rc, pentry_arr, d) \<leftarrow> blk_rw d False (sint pentries_start) pentry_arr (unat pentries_arr_size);
             Some (if rc \<noteq> 0 then None else Some pentry_arr, d)
           })
      }))"

definition gpt_set_pentry_arr ::
  "byte list option \<Rightarrow> dev \<Rightarrow> byte list option \<Rightarrow> (int \<times> dev) option" where
  "gpt_set_pentry_arr gpt_header d arr =
     (case (gpt_header, arr) of
        (Some h, Some a) \<Rightarrow>
          (let (block_size, d) = gpt_get_block_size d in
           if block_size = 0 then Some (-1, d)
           else do {
             (pentries_start, pentries_arr_size) \<leftarrow> pentry_arr_geometry h block_size;
             (rc, a, d) \<leftarrow> blk_rw d True (sint pentries_start) a (unat pentries_arr_size);
             Some (if rc \<noteq> 0 then -1 else 0, d)
           })
      | _ \<Rightarrow> Some (-1, d))"

section \<open>The gpt_disk handle\<close>

record gpt_disk =
  d_hdr :: "byte list option"
  d_hdr_crc :: u32
  d_hdr_bak :: "byte list option"
  d_hdr_bak_crc :: u32
  d_pentry_arr :: "byte list option"
  d_pentry_arr_bak :: "byte list option"
  d_pentry_arr_size :: u32
  d_pentry_size :: u32
  d_pentry_arr_crc :: u32
  d_pentry_arr_bak_crc :: u32
  d_devpath :: string
  d_block_size :: u32
  d_is_initialized :: u32

definition GPT_DISK_INIT_MAGIC :: u32 where "GPT_DISK_INIT_MAGIC = 0xABCD"

text \<open>The handle is allocated from the heap of the process; \<open>alloc_ok\<close> says whether \<open>malloc\<close> succeeds.\<close>

definition gpt_disk_alloc :: "bool \<Rightarrow> gpt_disk option" where
  "gpt_disk_alloc alloc_ok =
     (if \<not> alloc_ok then None
      else Some \<lparr>d_hdr = None, d_hdr_crc = 0, d_hdr_bak = None, d_hdr_bak_crc = 0, d_pentry_arr = None,
        d_pentry_arr_bak = None, d_pentry_arr_size = 0, d_pentry_size = 0, d_pentry_arr_crc = 0,
        d_pentry_arr_bak_crc = 0, d_devpath = replicate PATH_MAX NUL, d_block_size = 0, d_is_initialized = 0\<rparr>)"

text \<open>The blocks that are freed, in order.\<close>

datatype disk_block = Block_hdr | Block_hdr_bak | Block_pentry_arr | Block_pentry_arr_bak | Block_disk

definition gpt_disk_free :: "gpt_disk option \<Rightarrow> disk_block list" where
  "gpt_disk_free disk =
     (case disk of
        None \<Rightarrow> []
      | Some k \<Rightarrow>
          (if d_hdr k \<noteq> None then [Block_hdr] else []) @
          (if d_hdr_bak k \<noteq> None then [Block_hdr_bak] else []) @
          (if d_pentry_arr k \<noteq> None then [Block_pentry_arr] else []) @
          (if d_pentry_arr_bak k \<noteq> None then [Block_pentry_arr_bak] else []) @ [Block_disk])"

lemma gpt_disk_free_each_once:
  "distinct (gpt_disk_free disk)"
  "set (gpt_disk_free (Some k)) =
     {b. b = Block_disk \<or> b = Block_hdr \<and> d_hdr k \<noteq> None \<or> b = Block_hdr_bak \<and> d_hdr_bak k \<noteq> None \<or>
       b = Block_pentry_arr \<and> d_pentry_arr k \<noteq> None \<or> b = Block_pentry_arr_bak \<and> d_pentry_arr_bak k \<noteq> None}"
  by (auto simp: gpt_disk_free_def split: option.split)

text \<open>The second half of \<open>gpt_disk_get_disk_info\<close>, after the device is open.\<close>

definition get_disk_arrays :: "gpt_disk \<Rightarrow> dev \<Rightarrow> (int \<times> gpt_disk \<times> dev) option" where
  "get_disk_arrays disk d = do {
     (a, d) \<leftarrow> gpt_get_pentry_arr (d_hdr disk) d;
     let disk = disk\<lparr>d_pentry_arr := a\<rparr>;
     if a = None then Some (-1, disk, d)
     else do {
       (b, d) \<leftarrow> gpt_get_pentry_arr (d_hdr_bak disk) d;
       let disk = disk\<lparr>d_pentry_arr_bak := b\<rparr>;
       if b = None then Some (-1, disk, d)
       else do {
         h \<leftarrow> d_hdr disk;
         hb \<leftarrow> d_hdr_bak disk;
         pentry_size \<leftarrow> GET_4_BYTES h PENTRY_SIZE_OFFSET;
         cnt \<leftarrow> GET_4_BYTES h PARTITION_COUNT_OFFSET;
         crc \<leftarrow> GET_4_BYTES h PARTITION_CRC_OFFSET;
         crc_bak \<leftarrow> GET_4_BYTES hb PARTITION_CRC_OFFSET;
         (let (block_size, d) = gpt_get_block_size d in
          Some (0, disk\<lparr>d_pentry_size := pentry_size, d_pentry_arr_size := cnt * pentry_size,
                     d_pentry_arr_crc := crc, d_pentry_arr_bak_crc := crc_bak, d_block_size := block_size,
                     d_is_initialized := GPT_DISK_INIT_MAGIC\<rparr>, d))
       }
     }
   }"

definition gpt_disk_get_disk_info ::
  "crc_fun \<Rightarrow> string option \<Rightarrow> gpt_disk \<Rightarrow> world \<Rightarrow> (int \<times> gpt_disk \<times> world) option" where
  "gpt_disk_get_disk_info crc32 partname disk w =
     (case partname of
        None \<Rightarrow> Some (-1, disk, w)
      | Some n \<Rightarrow> do {
     (h, w) \<leftarrow> gpt_get_header (Some n) PRIMARY_GPT w;
     let disk = disk\<lparr>d_hdr := h\<rparr>;
     case h of
       None \<Rightarrow> Some (-1, disk, w)
     | Some h \<Rightarrow> do {
     gpt_header_size \<leftarrow> GET_4_BYTES h HEADER_SIZE_OFFSET;
     hdr_crc \<leftarrow> crc32_over crc32 h gpt_header_size;
     let disk = disk\<lparr>d_hdr_crc := hdr_crc\<rparr>;
     (hb, w) \<leftarrow> gpt_get_header (Some n) SECONDARY_GPT w;
     let disk = disk\<lparr>d_hdr_bak := hb\<rparr>;
     case hb of
       None \<Rightarrow> Some (-1, disk, w)
     | Some hb \<Rightarrow> do {
     hdr_bak_crc \<leftarrow> crc32_over crc32 hb gpt_header_size;
     let disk = disk\<lparr>d_hdr_bak_crc := hdr_bak_crc\<rparr>;
     (let (r, devpath) = get_dev_path_from_partition_name w n (d_devpath disk) in
      if r \<noteq> 0 then Some (-1, disk, w)
      else
        (let disk = disk\<lparr>d_devpath := devpath\<rparr> in
         case disks w (cstr devpath) of
           None \<Rightarrow> Some (-1, disk, w)
         | Some d \<Rightarrow> do {
             (r, disk, d) \<leftarrow> get_disk_arrays disk d;
             Some (r, disk, w\<lparr>disks := (disks w)(cstr devpath \<mapsto> d)\<rparr>)
           }))
     } } })"

definition gpt_disk_get_pentry ::
  "gpt_disk option \<Rightarrow> string option \<Rightarrow> gpt_instance \<Rightarrow> nat option option" where
  "gpt_disk_get_pentry disk partname gpt =
     (case (disk, partname) of
        (Some dk, Some n) \<Rightarrow>
          if d_is_initialized dk \<noteq> GPT_DISK_INIT_MAGIC then Some None
          else do {
            arr \<leftarrow> (if gpt = PRIMARY_GPT then d_pentry_arr dk else d_pentry_arr_bak dk);
            gpt_pentry_seek n arr 0 (unat (d_pentry_arr_size dk)) (unat (d_pentry_size dk))
          }
      | _ \<Rightarrow> Some None)"

definition gpt_disk_update_crc :: "crc_fun \<Rightarrow> gpt_disk option \<Rightarrow> (int \<times> gpt_disk option) option" where
  "gpt_disk_update_crc crc32 disk =
     (case disk of
        None \<Rightarrow> Some (-1, None)
      | Some dk \<Rightarrow>
          if d_is_initialized dk \<noteq> GPT_DISK_INIT_MAGIC then Some (-1, Some dk)
          else do {
            arr \<leftarrow> d_pentry_arr dk;
            arr_crc \<leftarrow> crc32_over crc32 arr (d_pentry_arr_size dk);
            arr_bak \<leftarrow> d_pentry_arr_bak dk;
            arr_bak_crc \<leftarrow> crc32_over crc32 arr_bak (d_pentry_arr_size dk);
            h \<leftarrow> d_hdr dk;
            h \<leftarrow> PUT_4_BYTES h PARTITION_CRC_OFFSET arr_crc;
            hb \<leftarrow> d_hdr_bak dk;
            hb \<leftarrow> PUT_4_BYTES hb PARTITION_CRC_OFFSET arr_bak_crc;
            gpt_header_size \<leftarrow> GET_4_BYTES h HEADER_SIZE_OFFSET;
            h \<leftarrow> PUT_4_BYTES h HEADER_CRC_OFFSET 0;
            hb \<leftarrow> PUT_4_BYTES hb HEADER_CRC_OFFSET 0;
            hdr_crc \<leftarrow> crc32_over crc32 h gpt_header_size;
            hdr_bak_crc \<leftarrow> crc32_over crc32 hb gpt_header_size;
            h \<leftarrow> PUT_4_BYTES h HEADER_CRC_OFFSET hdr_crc;
            hb \<leftarrow> PUT_4_BYTES hb HEADER_CRC_OFFSET hdr_bak_crc;
            Some (0, Some (dk\<lparr>d_pentry_arr_crc := arr_crc, d_pentry_arr_bak_crc := arr_bak_crc,
                        d_hdr := Some h, d_hdr_bak := Some hb, d_hdr_crc := hdr_crc,
                        d_hdr_bak_crc := hdr_bak_crc\<rparr>))
          })"

text \<open>The two writes of one copy, then the two copies in order.\<close>

definition write_copy ::
  "byte list option \<Rightarrow> dev \<Rightarrow> gpt_instance \<Rightarrow> byte list option \<Rightarrow> (int \<times> dev) option" where
  "write_copy h d gpt arr = do {
     (r, d) \<leftarrow> gpt_set_header h d gpt;
     if r \<noteq> 0 then Some (-1, d)
     else do {
       (r, d) \<leftarrow> gpt_set_pentry_arr h d arr;
       Some (if r \<noteq> 0 then -1 else 0, d)
     }
   }"

definition write_disk :: "gpt_disk \<Rightarrow> dev \<Rightarrow> (int \<times> dev) option" where
  "write_disk disk d = do {
     (r, d) \<leftarrow> write_copy (d_hdr disk) d PRIMARY_GPT (d_pentry_arr disk);
     if r \<noteq> 0 then Some (-1, d)
     else write_copy (d_hdr_bak disk) d SECONDARY_GPT (d_pentry_arr_bak disk)
   }"

definition gpt_disk_commit :: "gpt_disk option \<Rightarrow> world \<Rightarrow> (int \<times> world) option" where
  "gpt_disk_commit disk w =
     (case disk of
        None \<Rightarrow> Some (-1, w)
      | Some dk \<Rightarrow>
          if d_is_initialized dk \<noteq> GPT_DISK_INIT_MAGIC then Some (-1, w)
          else case disks w (cstr (d_devpath dk)) of
            None \<Rightarrow> Some (-1, w)
          | Some d \<Rightarrow> do {
              (r, d) \<leftarrow> write_disk dk d;
              Some (r, w\<lparr>disks := (disks w)(cstr (d_devpath dk) \<mapsto> d)\<rparr>)
            })"

section \<open>Rules for the descriptor functions\<close>

lemma runs_block_size_from:
  assumes "same_dev d0 d"
    and "\<And>d'. same_dev d0 d' \<Longrightarrow> evs d0 \<noteq> [] \<Longrightarrow> runs (f 0 d') Q"
    and "\<And>d'. same_dev d0 d' \<Longrightarrow> runs (f (ssz d0) d') Q"
  shows "runs (let (b, d') = gpt_get_block_size d in f b d') Q"
proof -
  have "runs (let (blk, d') = ioctl_BLKSSZGET d in f (case blk of None \<Rightarrow> 0 | Some z \<Rightarrow> z) d') Q"
    using assms by (intro runs_ioctl_from [OF assms(1)]) simp_all
  then show ?thesis by (simp add: gpt_get_block_size_def case_prod_beta Let_def)
qed

lemma blk_read_null_same: "same_dev d (blk_read_null d off)"
proof -
  obtain pos d1 where p: "lseek64_set off d = (pos, d1)" by fastforce
  obtain e d2 where n: "next_ev d1 = (e, d2)" by fastforce
  from lseek64_set_cases(1) [OF p] next_ev_same [OF n] show ?thesis
    by (auto simp: blk_read_null_def p n intro: same_dev_trans)
qed

lemma runs_read_header_of:
  assumes "no_short d" and fits: "hdr_fits d gpt"
    and fail: "\<And>d'. same_dev d d' \<Longrightarrow> evs d \<noteq> [] \<Longrightarrow> Q (None, d')"
    and ok: "\<And>d'. same_dev d d' \<Longrightarrow> Q (Some (hdr d gpt), d')"
  shows "runs (read_header d gpt) Q"
proof -
  have l: "unat (ssz d) \<le> length (bytes d)" and z: "ssz d \<noteq> 0" using fits by (auto simp: hdr_fits_def)
  show ?thesis
    unfolding read_header_def
    apply (rule runs_block_size_from [OF same_dev_refl])
     apply (simp add: fail)
    apply (subst if_not_P [OF z])
    apply (erule runs_malloc_from)
     apply (erule runs_header_pos_from [OF _ l])
      apply (simp add: fail)
     apply (simp add: fail same_dev_trans [OF _ blk_read_null_same])
    apply (erule runs_header_pos_from [OF _ l])
     apply (simp add: fail)
    apply simp
    apply (erule runs_blk_read_from)
    using assms(1,2) hdr_in_range [OF assms(2), of gpt] by (simp_all add: fail ok flip: hdr_def)
qed

definition arr_off :: "byte list \<Rightarrow> u32 \<Rightarrow> nat" where
  "arr_off h z = unat (le64 h PENTRIES_OFFSET * ucast z)"

definition arr_len :: "byte list \<Rightarrow> nat" where
  "arr_len h = unat (le32 h PARTITION_COUNT_OFFSET * le32 h PENTRY_SIZE_OFFSET)"

lemma ent_off_arr: "ent_off d g = arr_off (hdr d g) (ssz d)" "ent_len d = arr_len (hdr d PRIMARY_GPT)"
  by (simp_all add: ent_off_def arr_off_def ent_len_def arr_len_def)

lemma arr_cong: "geometry h = geometry h' \<Longrightarrow> arr_off h z = arr_off h' z \<and> arr_len h = arr_len h'"
  by (simp add: geometry_def arr_off_def arr_len_def)

lemma pentry_arr_geometry_eq:
  "92 \<le> length h \<Longrightarrow> pentry_arr_geometry h z =
     Some (le64 h PENTRIES_OFFSET * ucast z, le32 h PARTITION_COUNT_OFFSET * le32 h PENTRY_SIZE_OFFSET)"
  by (simp add: pentry_arr_geometry_def gpt_offsets Let_def)

lemma runs_get_pentry_arr_from:
  assumes "same_dev d0 d" and "no_short d0" and "ssz d0 \<noteq> 0" and long: "92 \<le> length h"
    and range: "arr_off h (ssz d0) + arr_len h \<le> length (bytes d0)" "length (bytes d0) < 2 ^ 63"
    and fail: "\<And>d'. same_dev d0 d' \<Longrightarrow> evs d0 \<noteq> [] \<Longrightarrow> Q (None, d')"
    and ok: "\<And>d'. same_dev d0 d' \<Longrightarrow> Q (Some (seg (arr_off h (ssz d0)) (arr_len h) (bytes d0)), d')"
  shows "runs (gpt_get_pentry_arr (Some h) d) Q"
proof -
  have "arr_off h (ssz d0) < 2 ^ 63" using range by linarith
  then have off: "sint (le64 h PENTRIES_OFFSET * ucast (ssz d0)) = int (arr_off h (ssz d0))"
    using sint_small by (simp add: arr_off_def)
  show ?thesis
    unfolding gpt_get_pentry_arr_def option.case
    apply (rule runs_block_size_from [OF assms(1)])
     apply (simp add: fail)
    apply (simp add: assms(3) pentry_arr_geometry_eq [OF long] flip: arr_len_def)
    apply (erule runs_calloc_from [unfolded Let_def])
     apply (simp add: fail)
    apply (simp add: off)
    apply (erule runs_blk_read_from)
    using assms(2) range by (simp_all add: fail ok flip: arr_len_def)
qed

lemma runs_set_header:
  assumes "no_short d" and fits: "hdr_fits d gpt" and h: "length h = unat (ssz d)"
    and fail: "\<And>d'. same_dev d d' \<Longrightarrow> evs d \<noteq> [] \<Longrightarrow> Q (-1, d')"
    and ok: "\<And>d'. later d d' \<Longrightarrow> bytes d' = overwrite (hdr_off d gpt) h (bytes d) \<Longrightarrow> Q (0, d')"
  shows "runs (gpt_set_header (Some h) d gpt) Q"
proof -
  have l: "unat (ssz d) \<le> length (bytes d)" and z: "ssz d \<noteq> 0" and p: "0 < hdr_off d gpt"
    using fits by (cases gpt; force simp: hdr_fits_def hdr_off_def)+
  show ?thesis
    unfolding gpt_set_header_def option.case
    apply (rule runs_block_size_from [OF same_dev_refl])
     apply (simp add: fail)
    apply (simp only: if_not_P [OF z])
    apply (erule runs_header_pos_from [OF _ l])
     apply (simp add: fail)
    using p apply simp
    apply (erule runs_blk_write_from)
    using assms(1) h hdr_in_range [OF fits, of gpt] by (simp_all add: fail ok)
qed

lemma runs_set_pentry_arr:
  assumes "no_short d" and "ssz d \<noteq> 0" and long: "92 \<le> length h" and a: "length a = arr_len h"
    and range: "arr_off h (ssz d) + arr_len h \<le> length (bytes d)" "length (bytes d) < 2 ^ 63"
    and fail: "\<And>d'. same_dev d d' \<Longrightarrow> evs d \<noteq> [] \<Longrightarrow> Q (-1, d')"
    and ok: "\<And>d'. later d d' \<Longrightarrow> bytes d' = overwrite (arr_off h (ssz d)) a (bytes d) \<Longrightarrow> Q (0, d')"
  shows "runs (gpt_set_pentry_arr (Some h) d (Some a)) Q"
proof -
  have "arr_off h (ssz d) < 2 ^ 63" using range by linarith
  then have off: "sint (le64 h PENTRIES_OFFSET * ucast (ssz d)) = int (arr_off h (ssz d))"
    using sint_small by (simp add: arr_off_def)
  show ?thesis
    unfolding gpt_set_pentry_arr_def prod.case option.case
    apply (rule runs_block_size_from [OF same_dev_refl])
     apply (simp add: fail)
    apply (simp add: assms(2) pentry_arr_geometry_eq [OF long] off flip: arr_len_def)
    apply (erule runs_blk_write_from)
    using assms(1) range a by (simp_all add: fail ok)
qed

section \<open>Writing a handle back\<close>

text \<open>
  A handle fits a disk: it has both headers and both arrays, with the sizes and the geometry the
  disk has, and the secondary header describes an array of the same size as the primary one.
\<close>

definition handle_fits :: "gpt_disk \<Rightarrow> dev \<Rightarrow> byte list \<Rightarrow> byte list \<Rightarrow> byte list \<Rightarrow> byte list \<Rightarrow> bool" where
  "handle_fits dk d h a hb ab \<longleftrightarrow>
     d_hdr dk = Some h \<and> d_pentry_arr dk = Some a \<and> d_hdr_bak dk = Some hb \<and> d_pentry_arr_bak dk = Some ab \<and>
     length h = unat (ssz d) \<and> length hb = unat (ssz d) \<and> length a = ent_len d \<and> length ab = ent_len d \<and>
     geometry h = geometry (hdr d PRIMARY_GPT) \<and> geometry hb = geometry (hdr d SECONDARY_GPT) \<and>
     arr_len (hdr d SECONDARY_GPT) = ent_len d"

lemma layout_sizes: "gpt_layout d \<Longrightarrow> ssz d \<noteq> 0 \<and> 92 \<le> unat (ssz d) \<and> length (bytes d) < 2 ^ 63"
  by (auto simp: gpt_layout_def hdr_fits_def)

lemma layout_array_range: "gpt_layout d \<Longrightarrow> ent_off d g + ent_len d \<le> length (bytes d)"
  using layout_order [of d] by (cases g) auto

text \<open>Both steps for one copy, on any schedule: the copy is untouched, half written, or new.\<close>

lemma runs_write_copy:
  assumes "no_short d" and lay: "gpt_layout d" and h: "length h = unat (ssz d)" "geometry h = geometry (hdr d gpt)"
    and a: "length a = ent_len d" and len: "arr_len (hdr d gpt) = ent_len d"
    and fail: "\<And>d'. later d d' \<Longrightarrow> evs d \<noteq> [] \<Longrightarrow> gpt_layout d' \<Longrightarrow>
       (\<And>g. g \<noteq> gpt \<Longrightarrow> hdr d' g = hdr d g \<and> entries d' g = entries d g) \<Longrightarrow> Q (-1, d')"
    and ok: "\<And>d'. later d d' \<Longrightarrow> gpt_layout d' \<Longrightarrow> hdr d' gpt = h \<Longrightarrow> entries d' gpt = a \<Longrightarrow>
       (\<And>g. g \<noteq> gpt \<Longrightarrow> hdr d' g = hdr d g \<and> entries d' g = entries d g) \<Longrightarrow>
       ent_len d' = ent_len d \<Longrightarrow> Q (0, d')"
  shows "runs (write_copy (Some h) d gpt (Some a)) Q"
  unfolding write_copy_def runs_bind
proof (rule runs_set_header [OF assms(1) layout_fits [OF lay] h(1)])
  fix d' assume s: "same_dev d d'" and "evs d \<noteq> []"
  then show "runs (case (-1 :: int, d') of (r, d) \<Rightarrow> if r \<noteq> 0 then Some (-1, d)
       else do { (r, d) \<leftarrow> gpt_set_pentry_arr (Some h) d (Some a); Some (if r \<noteq> 0 then -1 else 0, d) }) Q"
    using fail [of d'] lay by (simp add: dev_same [OF s] same_dev_later)
next
  fix d1 assume l1: "later d d1" and b1: "bytes d1 = overwrite (hdr_off d gpt) h (bytes d)"
  have z1: "ssz d1 = ssz d" using l1 by (simp add: later_def)
  note w = header_written [OF lay z1 b1 h]
  have n1: "no_short d1" "evs d1 \<noteq> [] \<Longrightarrow> evs d \<noteq> []" using l1 assms(1) by (auto simp: later_def)
  have ar: "arr_off h (ssz d1) = ent_off d1 gpt" "arr_len h = ent_len d1"
    using arr_cong [OF h(2), of "ssz d"] len w(4,5) z1 by (simp_all add: ent_off_arr(1))
  have "runs (gpt_set_pentry_arr (Some h) d1 (Some a)) (\<lambda>(r, d'). Q (if r \<noteq> 0 then -1 else 0, d'))"
  proof (rule runs_set_pentry_arr [OF n1(1)])
    show "ssz d1 \<noteq> 0" "92 \<le> length h" "length (bytes d1) < 2 ^ 63"
      using layout_sizes [OF w(6)] h(1) z1 by simp_all
    show "length a = arr_len h" using ar a w(5) by simp
    show "arr_off h (ssz d1) + arr_len h \<le> length (bytes d1)" unfolding ar using layout_array_range [OF w(6)] .
  next
    fix d' assume s: "same_dev d1 d'" and "evs d1 \<noteq> []"
    then show "case (-1 :: int, d') of (r, d') \<Rightarrow> Q (if r \<noteq> 0 then -1 else 0, d')"
      using fail [of d'] later_trans [OF l1 same_dev_later [OF s]] n1(2) w(2,3,6) by (simp add: dev_same [OF s])
  next
    fix d' assume l: "later d1 d'" and b: "bytes d' = overwrite (arr_off h (ssz d1)) a (bytes d1)"
    have z: "ssz d' = ssz d1" using l by (simp add: later_def)
    note e = entries_written [OF w(6) z b [unfolded ar(1)]]
    have "ent_len d' = ent_len d" using e(1) a w(5) by (simp add: ent_len_def w(5) [unfolded ent_len_def])
    then show "case (0 :: int, d') of (r, d') \<Rightarrow> Q (if r \<noteq> 0 then -1 else 0, d')"
      using ok [of d'] later_trans [OF l1 l] e a w by simp
  qed
  then show "runs (case (0 :: int, d1) of (r, d) \<Rightarrow> if r \<noteq> 0 then Some (-1, d)
       else do { (r, d) \<leftarrow> gpt_set_pentry_arr (Some h) d (Some a); Some (if r \<noteq> 0 then -1 else 0, d) }) Q"
    by (simp add: case_prod_beta')
qed

lemma geometry_arr_len: "geometry h = geometry h' \<Longrightarrow> arr_len h = arr_len h'"
  using arr_cong by blast

lemma runs_write_disk:
  assumes "no_short d" and lay: "gpt_layout d" and fits: "handle_fits dk d h a hb ab"
    and first: "\<And>d'. later d d' \<Longrightarrow> evs d \<noteq> [] \<Longrightarrow> gpt_layout d' \<Longrightarrow> hdr d' SECONDARY_GPT = hdr d SECONDARY_GPT \<Longrightarrow>
       entries d' SECONDARY_GPT = entries d SECONDARY_GPT \<Longrightarrow> Q (-1, d')"
    and second: "\<And>d'. later d d' \<Longrightarrow> evs d \<noteq> [] \<Longrightarrow> gpt_layout d' \<Longrightarrow> hdr d' PRIMARY_GPT = h \<Longrightarrow>
       entries d' PRIMARY_GPT = a \<Longrightarrow> Q (-1, d')"
    and ok: "\<And>d'. later d d' \<Longrightarrow> gpt_layout d' \<Longrightarrow> hdr d' PRIMARY_GPT = h \<Longrightarrow> entries d' PRIMARY_GPT = a \<Longrightarrow>
       hdr d' SECONDARY_GPT = hb \<Longrightarrow> entries d' SECONDARY_GPT = ab \<Longrightarrow> Q (0, d')"
  shows "runs (write_disk dk d) Q"
proof -
  note F = fits [unfolded handle_fits_def]
  let ?K = "\<lambda>(r :: int, d). if r \<noteq> 0 then Some (-1, d) else write_copy (Some hb) d SECONDARY_GPT (Some ab)"
  have "runs (write_copy (Some h) d PRIMARY_GPT (Some a)) (\<lambda>x. runs (?K x) Q)"
  proof (rule runs_write_copy [OF assms(1) lay])
    fix d' assume "later d d'" "evs d \<noteq> []" "gpt_layout d'"
      "\<And>g. g \<noteq> PRIMARY_GPT \<Longrightarrow> hdr d' g = hdr d g \<and> entries d' g = entries d g"
    then show "runs (?K (-1, d')) Q" using first [of d'] by simp
  next
    fix d1 assume 1: "later d d1" "gpt_layout d1" "hdr d1 PRIMARY_GPT = h" "entries d1 PRIMARY_GPT = a"
      "\<And>g. g \<noteq> PRIMARY_GPT \<Longrightarrow> hdr d1 g = hdr d g \<and> entries d1 g = entries d g" "ent_len d1 = ent_len d"
    have n1: "no_short d1" "evs d1 \<noteq> [] \<Longrightarrow> evs d \<noteq> []" "ssz d1 = ssz d" using 1(1) assms(1) by (auto simp: later_def)
    have "runs (write_copy (Some hb) d1 SECONDARY_GPT (Some ab)) Q"
    proof (rule runs_write_copy [OF n1(1) 1(2)])
      fix d' assume l: "later d1 d'" and "evs d1 \<noteq> []" "gpt_layout d'"
        "\<And>g. g \<noteq> SECONDARY_GPT \<Longrightarrow> hdr d' g = hdr d1 g \<and> entries d' g = entries d1 g"
      then show "Q (-1, d')" using second [of d'] later_trans [OF 1(1) l] n1(2) 1 by simp
    next
      fix d' assume l: "later d1 d'" and "gpt_layout d'" "hdr d' SECONDARY_GPT = hb" "entries d' SECONDARY_GPT = ab"
        "\<And>g. g \<noteq> SECONDARY_GPT \<Longrightarrow> hdr d' g = hdr d1 g \<and> entries d' g = entries d1 g"
      then show "Q (0, d')" using ok [of d'] later_trans [OF 1(1) l] 1 by simp
    qed (use F 1 n1(3) in simp_all)
    then show "runs (?K (0, d1)) Q" by simp
  qed (use F in \<open>simp_all add: ent_off_arr(2)\<close>)
  moreover have f: "d_hdr dk = Some h" "d_pentry_arr dk = Some a" "d_hdr_bak dk = Some hb" "d_pentry_arr_bak dk = Some ab"
    using F by simp_all
  ultimately show ?thesis unfolding write_disk_def runs_bind f by simp
qed

section \<open>Recomputing the checksums\<close>

text \<open>
  The CRC of the backup header is computed over the size the primary header gives, so the result is right
  only when both headers have the same size.
\<close>

lemma update_crc_headers:
  assumes "d_is_initialized dk = GPT_DISK_INIT_MAGIC" and "d_hdr dk = Some h" "d_pentry_arr dk = Some a"
    "d_hdr_bak dk = Some hb" "d_pentry_arr_bak dk = Some ab" and long: "92 \<le> length h" "92 \<le> length hb"
    and size: "unat (le32 h HEADER_SIZE_OFFSET) \<le> length h" "length hb = length h"
      "le32 hb HEADER_SIZE_OFFSET = le32 h HEADER_SIZE_OFFSET"
    and arr: "unat (d_pentry_arr_size dk) = length a" "length ab = length a"
  shows "\<exists>dk'. gpt_disk_update_crc crc32 (Some dk) = Some (0, Some dk') \<and>
     d_hdr dk' = Some (secondary_header crc32 a h) \<and> d_hdr_bak dk' = Some (secondary_header crc32 ab hb) \<and>
     d_pentry_arr dk' = Some a \<and> d_pentry_arr_bak dk' = Some ab \<and> d_devpath dk' = d_devpath dk \<and>
     d_is_initialized dk' = GPT_DISK_INIT_MAGIC"
proof -
  have b: "sealed crc32 (put32 88 y hb) = put32 16 (crc32 (crc32 0 []) (take (unat (le32 h 12)) (put32 16 0 (put32 88 y hb)))) (put32 88 y hb)" for y
    using secondary_header_steps [OF long(2), of crc32 y] size(3) by (simp add: gpt_offsets)
  show ?thesis
    using assms
    by (simp add: gpt_disk_update_crc_def gpt_offsets crc32_over_def buf_simps secondary_header_steps
        secondary_header_def b)
qed

section \<open>Reading a disk into a handle\<close>

lemma dev_path_disks [simp]:
  "get_dev_path_from_partition_name (w\<lparr>disks := m\<rparr>) n buf = get_dev_path_from_partition_name w n buf"
  unfolding get_dev_path_from_partition_name_def by (simp add: Let_def)

lemma runs_get_header:
  assumes path: "get_dev_path_from_partition_name w n (replicate PATH_MAX NUL) = (0, buf)"
    and d: "disks w (cstr buf) = Some d" and "no_short d" and "hdr_fits d gpt"
    and fail: "\<And>d'. same_dev d d' \<Longrightarrow> evs d \<noteq> [] \<Longrightarrow> Q (None, w\<lparr>disks := (disks w)(cstr buf \<mapsto> d')\<rparr>)"
    and ok: "\<And>d'. same_dev d d' \<Longrightarrow> Q (Some (hdr d gpt), w\<lparr>disks := (disks w)(cstr buf \<mapsto> d')\<rparr>)"
  shows "runs (gpt_get_header (Some n) gpt w) Q"
  unfolding gpt_get_header_def option.case path Let_def prod.case d
  by simp (rule runs_read_header_of [OF assms(3,4)]; simp add: fail ok)

lemma runs_get_disk_arrays:
  assumes "no_short d" and lay: "gpt_layout d" and twin: "arr_len (hdr d SECONDARY_GPT) = ent_len d"
    and h: "d_hdr dk = Some (hdr d PRIMARY_GPT)" "d_hdr_bak dk = Some (hdr d SECONDARY_GPT)"
    and fail: "\<And>dk' d'. same_dev d d' \<Longrightarrow> evs d \<noteq> [] \<Longrightarrow> Q (-1, dk', d')"
    and ok: "\<And>dk' d'. same_dev d d' \<Longrightarrow> d_hdr dk' = d_hdr dk \<Longrightarrow> d_hdr_bak dk' = d_hdr_bak dk \<Longrightarrow>
       d_devpath dk' = d_devpath dk \<Longrightarrow> d_pentry_arr dk' = Some (entries d PRIMARY_GPT) \<Longrightarrow>
       d_pentry_arr_bak dk' = Some (entries d SECONDARY_GPT) \<Longrightarrow> unat (d_pentry_arr_size dk') = ent_len d \<Longrightarrow>
       d_pentry_size dk' = 128 \<Longrightarrow> d_is_initialized dk' = GPT_DISK_INIT_MAGIC \<Longrightarrow> Q (0, dk', d')"
  shows "runs (get_disk_arrays dk d) Q"
proof -
  have long: "92 \<le> length (hdr d g)" for g using hdr_long [OF layout_fits [OF lay]] .
  note z = layout_sizes [OF lay, simplified]
  have P: "arr_off (hdr d g) (ssz d) + arr_len (hdr d g) \<le> length (bytes d)"
    "seg (arr_off (hdr d g) (ssz d)) (arr_len (hdr d g)) (bytes d) = entries d g" for g
    using layout_array_range [OF lay, of g] twin by (cases g; simp add: ent_off_arr entries_def)+
  have size: "le32 (hdr d PRIMARY_GPT) 84 = 128" using lay by (simp add: gpt_layout_def gpt_offsets)
  show ?thesis
    unfolding get_disk_arrays_def runs_bind h
    apply (rule runs_get_pentry_arr_from [OF same_dev_refl assms(1) _ long P(1)])
       apply (simp_all add: z fail P(2) h)
    apply (erule runs_get_pentry_arr_from [OF _ assms(1) _ long P(1)])
       apply (simp_all add: z fail P(2) h)
    apply (use long [of PRIMARY_GPT] long [of SECONDARY_GPT] in \<open>simp add: gpt_offsets size Let_def h\<close>)
    apply (erule runs_block_size_from [unfolded Let_def])
     apply (use lay in \<open>simp_all add: ok h ent_len_def gpt_offsets size\<close>)
    done
qed


text \<open>
  What the handle holds after a successful read, and that the path is the one it was opened with.
\<close>

definition handle_of :: "gpt_disk \<Rightarrow> string \<Rightarrow> dev \<Rightarrow> bool" where
  "handle_of dk buf d \<longleftrightarrow>
     d_hdr dk = Some (hdr d PRIMARY_GPT) \<and> d_hdr_bak dk = Some (hdr d SECONDARY_GPT) \<and>
     d_pentry_arr dk = Some (entries d PRIMARY_GPT) \<and> d_pentry_arr_bak dk = Some (entries d SECONDARY_GPT) \<and>
     unat (d_pentry_arr_size dk) = ent_len d \<and> d_pentry_size dk = 128 \<and> d_devpath dk = buf \<and>
     d_is_initialized dk = GPT_DISK_INIT_MAGIC"

lemma same_dev_derived: "same_dev d d' \<Longrightarrow> handle_of dk buf d' = handle_of dk buf d"
  by (simp add: handle_of_def dev_same [of d d'])

lemma runs_get_disk_info:
  assumes path: "get_dev_path_from_partition_name w n (replicate PATH_MAX NUL) = (0, buf)"
    and d: "disks w (cstr buf) = Some d" and "no_short d" and lay: "gpt_layout d"
    and twin: "arr_len (hdr d SECONDARY_GPT) = ent_len d"
    and fresh: "d_devpath dk = replicate PATH_MAX NUL"
    and fail: "\<And>dk' d'. same_dev d d' \<Longrightarrow> evs d \<noteq> [] \<Longrightarrow> Q (-1, dk', w\<lparr>disks := (disks w)(cstr buf \<mapsto> d')\<rparr>)"
    and ok: "\<And>dk' d'. same_dev d d' \<Longrightarrow> handle_of dk' buf d \<Longrightarrow>
       Q (0, dk', w\<lparr>disks := (disks w)(cstr buf \<mapsto> d')\<rparr>)"
  shows "runs (gpt_disk_get_disk_info crc32 (Some n) dk w) Q"
  unfolding gpt_disk_get_disk_info_def option.case runs_bind
proof (rule runs_get_header [OF path d assms(3) layout_fits [OF lay]], goal_cases)
  case (1 d1)
  then show ?case by (simp add: fail)
next
  case (2 d1)
  have fits: "hdr_fits d g" for g using layout_fits [OF lay] .
  have len: "length (hdr d g) = unat (ssz d)" "92 \<le> unat (ssz d)" for g
    using fits [of g] hdr_long [OF fits [of g]] by simp_all
  have size: "unat (le32 (hdr d PRIMARY_GPT) 12) \<le> unat (ssz d)"
    using fits [of PRIMARY_GPT] by (simp add: hdr_fits_def gpt_offsets)
  have size_at: "GET_4_BYTES (hdr d PRIMARY_GPT) HEADER_SIZE_OFFSET = Some (le32 (hdr d PRIMARY_GPT) 12)"
    using len by (simp add: gpt_offsets)
  have crc: "\<exists>c. crc32_over crc32 (hdr d g) (le32 (hdr d PRIMARY_GPT) 12) = Some c" for g
    using size len by (simp add: crc32_over_def)
  obtain c cb where crc: "crc32_over crc32 (hdr d PRIMARY_GPT) (le32 (hdr d PRIMARY_GPT) 12) = Some c"
    "crc32_over crc32 (hdr d SECONDARY_GPT) (le32 (hdr d PRIMARY_GPT) 12) = Some cb"
    using crc by blast
  let ?w1 = "w\<lparr>disks := (disks w)(cstr buf \<mapsto> d1)\<rparr>"
  note s1 = dev_same [OF 2]
  have w1: "get_dev_path_from_partition_name ?w1 n (replicate PATH_MAX NUL) = (0, buf)" "disks ?w1 (cstr buf) = Some d1"
    "no_short d1" "hdr_fits d1 SECONDARY_GPT"
    using path fits same_dev_facts(4) [OF 2 assms(3)] by (simp_all add: s1)
  show ?case
    apply (simp add: crc size_at)
    apply (rule runs_get_header [OF w1])
     apply (use same_dev_trans [OF 2] same_dev_facts(3) [OF 2] in \<open>simp add: fail\<close>)
    apply (drule same_dev_trans [OF 2])
    apply (simp add: s1 crc fresh path)
    subgoal for d2
      apply (rule runs_get_disk_arrays [of d2])
            apply (simp_all add: lay twin dev_same [of d d2] same_dev_facts(4) [OF _ assms(3)])
       apply (use fail same_dev_trans [of d d2] same_dev_facts(3) [of d d2] in simp)
      apply (use ok same_dev_trans [of d d2] in \<open>simp add: handle_of_def\<close>)
      done
    done
qed

section \<open>Writing a handle back\<close>

lemma runs_commit:
  assumes "d_is_initialized dk = GPT_DISK_INIT_MAGIC" and "disks w (cstr (d_devpath dk)) = Some d"
    and "runs (write_disk dk d) (\<lambda>(r, d'). Q (r, w\<lparr>disks := (disks w)(cstr (d_devpath dk) \<mapsto> d')\<rparr>))"
  shows "runs (gpt_disk_commit (Some dk) w) Q"
  using assms by (simp add: gpt_disk_commit_def case_prod_beta')

text \<open>What the client changes between reading and committing: the entry arrays, of both copies alike or not.\<close>

definition with_entries :: "byte list \<Rightarrow> byte list \<Rightarrow> gpt_disk \<Rightarrow> gpt_disk" where
  "with_entries a ab dk = dk\<lparr>d_pentry_arr := Some a, d_pentry_arr_bak := Some ab\<rparr>"

text \<open>The header sizes and array lengths of the two copies agree, as the code takes for granted.\<close>

definition twin_headers :: "dev \<Rightarrow> bool" where
  "twin_headers d \<longleftrightarrow> arr_len (hdr d SECONDARY_GPT) = ent_len d \<and>
     le32 (hdr d SECONDARY_GPT) HEADER_SIZE_OFFSET = le32 (hdr d PRIMARY_GPT) HEADER_SIZE_OFFSET"

lemma update_crc_of_disk:
  assumes lay: "gpt_layout d" and twin: "twin_headers d" and dk: "handle_of dk buf d"
    and a: "length a = ent_len d" "length ab = ent_len d"
  shows "\<exists>dk'. gpt_disk_update_crc crc32 (Some (with_entries a ab dk)) = Some (0, Some dk') \<and>
     d_is_initialized dk' = GPT_DISK_INIT_MAGIC \<and> d_devpath dk' = buf \<and>
     handle_fits dk' d (secondary_header crc32 a (hdr d PRIMARY_GPT)) a
       (secondary_header crc32 ab (hdr d SECONDARY_GPT)) ab"
proof -
  note D = dk [unfolded handle_of_def]
  have fits: "hdr_fits d g" for g using layout_fits [OF lay] .
  have len: "length (hdr d g) = unat (ssz d)" "92 \<le> length (hdr d g)" for g
    using fits [of g] hdr_long [OF fits [of g]] by simp_all
  obtain dk' where U: "gpt_disk_update_crc crc32 (Some (with_entries a ab dk)) = Some (0, Some dk')"
    "d_hdr dk' = Some (secondary_header crc32 a (hdr d PRIMARY_GPT))"
    "d_hdr_bak dk' = Some (secondary_header crc32 ab (hdr d SECONDARY_GPT))"
    "d_pentry_arr dk' = Some a" "d_pentry_arr_bak dk' = Some ab" "d_devpath dk' = buf"
    "d_is_initialized dk' = GPT_DISK_INIT_MAGIC"
    using update_crc_headers [of "with_entries a ab dk" "hdr d PRIMARY_GPT" a "hdr d SECONDARY_GPT" ab crc32]
      D a twin len fits [of PRIMARY_GPT]
    by (auto simp: with_entries_def twin_headers_def hdr_fits_def)
  have "geometry (secondary_header crc32 x (hdr d g)) = geometry (hdr d g)"
    "length (secondary_header crc32 x (hdr d g)) = unat (ssz d)" for x g
    using len [of g] by (simp_all add: secondary_header_def geometry_sealed)
  then show ?thesis using U a twin by (simp add: handle_fits_def twin_headers_def)
qed


lemma valid_copy_signature: "valid_copy crc32 d g \<Longrightarrow> seg 0 9 (hdr d g) = GPT_SIGNATURE"
  by (auto simp: valid_copy_def header_state_def split: if_splits)

text \<open>Recompute and write back, on any schedule.\<close>

lemma runs_update_commit:
  assumes "no_short d" and lay: "gpt_layout d" and twin: "twin_headers d" and valid: "\<And>g. valid_copy crc32 d g"
    and w: "disks w (cstr buf) = Some d" and dk: "handle_of dk buf d"
    and a: "length a = ent_len d" "length ab = ent_len d"
    and fail: "\<And>d'. later d d' \<Longrightarrow> evs d \<noteq> [] \<Longrightarrow> \<exists>g. valid_copy crc32 d' g \<Longrightarrow>
       Q (-1, w\<lparr>disks := (disks w)(cstr buf \<mapsto> d')\<rparr>)"
    and ok: "\<And>d'. later d d' \<Longrightarrow> \<forall>g. valid_copy crc32 d' g \<Longrightarrow> entries d' PRIMARY_GPT = a \<Longrightarrow> entries d' SECONDARY_GPT = ab \<Longrightarrow>
       Q (0, w\<lparr>disks := (disks w)(cstr buf \<mapsto> d')\<rparr>)"
  shows "runs (do {
     (r, dk) \<leftarrow> gpt_disk_update_crc crc32 (Some (with_entries a ab dk));
     if r \<noteq> 0 then Some (r, w) else gpt_disk_commit dk w }) Q"
proof -
  let ?h = "\<lambda>g x. secondary_header crc32 x (hdr d g)"
  have new: "valid_copy crc32 d' g" if "hdr d' g = ?h g x" "entries d' g = x" for d' g x
    using header_state_secondary [OF hdr_long [OF layout_fits [OF lay, of g]], of crc32 x] valid_copy_signature [OF valid, of g] that
    by (simp add: valid_copy_def entries_crc_ok_def)
  obtain dk' where U: "gpt_disk_update_crc crc32 (Some (with_entries a ab dk)) = Some (0, Some dk')"
    "d_is_initialized dk' = GPT_DISK_INIT_MAGIC" "d_devpath dk' = buf"
    "handle_fits dk' d (?h PRIMARY_GPT a) a (?h SECONDARY_GPT ab) ab"
    using update_crc_of_disk [OF lay twin dk a] by blast
  have "runs (gpt_disk_commit (Some dk') w) Q"
  proof (rule runs_commit [OF U(2)]; (unfold U(3))?)
    show "disks w (cstr buf) = Some d" by (rule w)
    show "runs (write_disk dk' d) (\<lambda>(r, d'). Q (r, w\<lparr>disks := (disks w)(cstr buf \<mapsto> d')\<rparr>))"
    proof (rule runs_write_disk [OF assms(1) lay U(4)], goal_cases)
      case (1 d')
      then have "valid_copy crc32 d' SECONDARY_GPT" using valid [of SECONDARY_GPT] by (simp add: valid_copy_def entries_crc_ok_def)
      then show ?case using fail [of d'] 1 by auto
    next
      case (2 d')
      then show ?case using fail [of d'] new [of d' PRIMARY_GPT a] by auto
    next
      case (3 d')
      then have "valid_copy crc32 d' g" for g
        using new [of d' PRIMARY_GPT a] new [of d' SECONDARY_GPT ab] by (cases g) simp_all
      then show ?case using ok [of d'] 3 by simp
    qed
  qed
  then show ?thesis by (simp add: U(1))
qed

section \<open>The partition map\<close>

definition disk_of :: "world \<Rightarrow> string \<Rightarrow> string option" where
  "disk_of w n = (let (r, buf) = get_dev_path_from_partition_name w n (replicate PATH_MAX NUL) in
     if r = 0 then Some (cstr buf) else None)"

lemma dev_path_fail: "get_dev_path_from_partition_name w n buf = (r, buf') \<Longrightarrow> r \<noteq> 0 \<Longrightarrow> buf' = buf"
  by (auto simp: get_dev_path_from_partition_name_def Let_def split: if_splits option.splits)

lemma dev_path_length: "get_dev_path_from_partition_name w n buf = (r, buf') \<Longrightarrow> length buf' = length buf"
  by (auto simp: get_dev_path_from_partition_name_def snprintf_def Let_def split: if_splits option.splits)

lemma partition_map_loop_spec:
  "partition_map_loop w ns (replicate PATH_MAX NUL) m p =
     (case filter (\<lambda>n. disk_of w n = Some p) ns of [] \<Rightarrow> m p
      | l \<Rightarrow> Some (case m p of None \<Rightarrow> l | Some v \<Rightarrow> v @ l))"
proof (induction ns arbitrary: m)
  case (Cons n ns)
  obtain r buf where g: "get_dev_path_from_partition_name w n (replicate PATH_MAX NUL) = (r, buf)" by fastforce
  show ?case
  proof (cases "r = 0")
    case False
    then show ?thesis using Cons.IH g dev_path_fail [OF g] by (simp add: disk_of_def)
  next
    case True
    then have "disk_of w n = Some (cstr buf)" using g by (simp add: disk_of_def)
    moreover have "length buf = PATH_MAX" using dev_path_length [OF g] by simp
    ultimately show ?thesis using g True
      by (cases "m (cstr buf)") (auto simp: Cons.IH Let_def split: option.split list.split)
  qed
qed simp


section \<open>Properties\<close>

text \<open>A phone with one eMMC disk: every partition is on it.\<close>

lemma sample_emmc_path:
  "get_dev_path_from_partition_name sample_emmc n (replicate PATH_MAX NUL) =
     (0, overwrite 0 (BLK_DEV_FILE @ [NUL]) (replicate PATH_MAX NUL))"
  "cstr (overwrite 0 (BLK_DEV_FILE @ [NUL]) (replicate PATH_MAX NUL)) = BLK_DEV_FILE"
proof -
  have b: "length BLK_DEV_FILE = 18" "NUL \<notin> set BLK_DEV_FILE" by code_simp+
  have p: "PATH_MAX = 4096" "PATH_TRUNCATE_LOC + 1 \<le> 4096" by code_simp+
  have "take (PATH_MAX - 1) (cstr BLK_DEV_FILE) = BLK_DEV_FILE" by code_simp
  with p show "get_dev_path_from_partition_name sample_emmc n (replicate PATH_MAX NUL) =
     (0, overwrite 0 (BLK_DEV_FILE @ [NUL]) (replicate PATH_MAX NUL))"
    using sample_emmc_not_ufs by (simp add: get_dev_path_from_partition_name_def snprintf_def)
  show "cstr (overwrite 0 (BLK_DEV_FILE @ [NUL]) (replicate PATH_MAX NUL)) = BLK_DEV_FILE"
  proof -
    have "\<forall>c \<in> set BLK_DEV_FILE. c \<noteq> NUL" using b(2) by auto
    then show ?thesis using takeWhile_append2 [of BLK_DEV_FILE "\<lambda>c. c \<noteq> NUL"] by (simp add: overwrite_def cstr_def)
  qed
qed


lemma sample_dev_twin: "twin_headers sample_dev" "valid_copy sum_crc sample_dev g"
proof -
  note p = sample_header_geometry [unfolded geometry_def prod.inject]
  show "twin_headers sample_dev" by (simp add: twin_headers_def arr_len_def ent_len_def sample_dev_parts p)
  show "valid_copy sum_crc sample_dev g" by (simp add: valid_copy_def sample_dev_state sample_dev_crc)
qed

text \<open>
  Reading a disk into a fresh handle is memory-safe, leaves the disk as it is, and either fails, because a system call failed, or
  fills the handle with exactly the two headers and the two entry arrays on the disk, the array size and the path.
\<close>

theorem gpt_disk_get_disk_info_exact:
  assumes "get_dev_path_from_partition_name w n (replicate PATH_MAX NUL) = (0, buf)"
    and "disks w (cstr buf) = Some d" and "no_short d" and "gpt_layout d" and "twin_headers d"
    and "gpt_disk_alloc True = Some dk"
  shows "runs (gpt_disk_get_disk_info crc32 (Some n) dk w) (\<lambda>(r, dk', w').
     (\<exists>d'. w' = w\<lparr>disks := (disks w)(cstr buf \<mapsto> d')\<rparr> \<and> same_dev d d') \<and>
     (r = 0 \<and> handle_of dk' buf d \<or> r = -1 \<and> evs d \<noteq> []))"
  using assms by (intro runs_get_disk_info [OF assms(1-4)]) (auto simp: twin_headers_def gpt_disk_alloc_def)

theorem gpt_disk_get_disk_info_exact_witness:
  "\<exists>dk dk' w'. gpt_disk_alloc True = Some dk \<and>
     gpt_disk_get_disk_info sum_crc (Some ''tz'') dk sample_emmc = Some (0, dk', w') \<and>
     d_pentry_arr dk' = Some sample_array"
proof -
  obtain dk where dk: "gpt_disk_alloc True = Some dk" by (simp add: gpt_disk_alloc_def)
  have d: "disks sample_emmc (cstr (overwrite 0 (BLK_DEV_FILE @ [NUL]) (replicate PATH_MAX NUL))) = Some sample_dev"
    by (simp add: sample_emmc_path sample_emmc_def)
  from gpt_disk_get_disk_info_exact [OF sample_emmc_path(1) d sample_dev_no_short sample_dev_layout sample_dev_twin(1) dk,
      of sum_crc "''tz''"] dk show ?thesis
    by (auto simp: runs_iff handle_of_def sample_dev_parts(3) sample_dev_entries)
qed



text \<open>
  \<open>gpt_disk_get_pentry\<close> on a handle that was filled returns the offset of the first entry of the chosen copy that carries the name, as
  it is or with the suffix bak, and null when there is none; on a handle that was not filled it returns null.
\<close>

theorem gpt_disk_get_pentry_first:
  assumes "NUL \<notin> set n" and "gpt_layout d"
  shows "(handle_of dk buf d \<longrightarrow> (\<exists>res. gpt_disk_get_pentry (Some dk) (Some n) g = Some res \<and>
       res = map_option ((*) 128) (first_from (\<lambda>e. pentry_name e \<in> {n, n @ ''bak''}) 0 (pentry_list (entries d g))))) \<and>
     (d_is_initialized dk \<noteq> GPT_DISK_INIT_MAGIC \<longrightarrow> gpt_disk_get_pentry (Some dk) (Some n) g = Some None)"
proof -
  obtain m where m: "length (entries d g) = 128 * m" using ent_len_128 [OF assms(2)] assms(2) by auto
  have len: "length (entries d g) = ent_len d" using assms(2) by simp
  have "named n = (\<lambda>e. pentry_name e \<in> {n, n @ ''bak''})" by (auto simp: named_def)
  then show ?thesis
    using gpt_pentry_seek_refines [OF m assms(1), of 0] len
    by (cases g) (auto simp: gpt_disk_get_pentry_def handle_of_def)
qed

theorem gpt_disk_get_pentry_first_witness:
  "\<exists>dk. handle_of dk '''' sample_dev \<and> gpt_disk_get_pentry (Some dk) (Some ''tz'') SECONDARY_GPT = Some (Some 0)"
proof -
  let ?dk = "\<lparr>d_hdr = Some (hdr sample_dev PRIMARY_GPT), d_hdr_crc = 0, d_hdr_bak = Some (hdr sample_dev SECONDARY_GPT),
    d_hdr_bak_crc = 0, d_pentry_arr = Some sample_array, d_pentry_arr_bak = Some sample_array, d_pentry_arr_size = 384,
    d_pentry_size = 128, d_pentry_arr_crc = 0, d_pentry_arr_bak_crc = 0, d_devpath = '''', d_block_size = 128,
    d_is_initialized = GPT_DISK_INIT_MAGIC\<rparr>"
  have "ent_len sample_dev = 384"
    by (simp add: ent_len_def sample_dev_parts sample_header_geometry [unfolded geometry_def prod.inject])
  then have h: "handle_of ?dk '''' sample_dev" by (simp add: handle_of_def sample_dev_entries)
  have n: "NUL \<notin> set ''tz''" by (simp add: NUL_def)
  have "first_from (\<lambda>e. pentry_name e \<in> {''tz'', ''tz'' @ ''bak''}) 0 (pentry_list sample_array) = Some 0"
    by code_simp
  then have "gpt_disk_get_pentry (Some ?dk) (Some ''tz'') SECONDARY_GPT = Some (Some 0)"
    using gpt_disk_get_pentry_first [OF n sample_dev_layout, of ?dk "''''" SECONDARY_GPT] h
    by (simp only: sample_dev_entries) auto
  then show ?thesis using h by blast
qed

text \<open>
  The partition map groups the given names by the disk they are on: after a call with a non-empty list every disk is mapped to the names that
  were there before followed by exactly the names of the list on that disk, in the order of the list; names without a disk are
  skipped.
\<close>

theorem gpt_utils_get_partition_map_groups:
  assumes "ns \<noteq> []"
  shows "\<exists>m'. gpt_utils_get_partition_map w ns m = (0, m') \<and>
     (\<forall>p. m' p = (case filter (\<lambda>n. disk_of w n = Some p) ns of [] \<Rightarrow> m p
        | l \<Rightarrow> Some (case m p of None \<Rightarrow> l | Some v \<Rightarrow> v @ l)))"
  using assms by (simp add: gpt_utils_get_partition_map_def partition_map_loop_spec Suc_le_eq)

theorem gpt_utils_get_partition_map_groups_witness:
  "\<exists>m'. gpt_utils_get_partition_map sample_emmc [''tz'', ''boot''] Map.empty = (0, m') \<and>
     m' BLK_DEV_FILE = Some [''tz'', ''boot'']"
proof -
  have "disk_of sample_emmc n = Some BLK_DEV_FILE" for n by (simp add: disk_of_def sample_emmc_path)
  then show ?thesis
    using gpt_utils_get_partition_map_groups [of "[''tz'', ''boot'']" sample_emmc Map.empty] by auto
qed

end
