(* ===== verification/Cpp_Arith.thy ===== *)
theory Cpp_Arith
  imports Prelude "HOL-Library.Signed_Division" "HOL-Library.Log_Nat"
begin

text \<open>
  The arithmetic of C++ the power service uses: signed 64 and 32 bit integers, whose overflow is undefined
  behaviour and hence \<open>None\<close>, conversions that wrap, and \<open>double\<close>. A finite double is the rational number it
  denotes; every operation is the exact one followed by rounding to 53 bits. Infinities and NaN
  only ever flow into a conversion to an integer, which is undefined for them.
\<close>

section \<open>Integers\<close>

definition ck64 :: "int \<Rightarrow> int option" where
  "ck64 x = (if - (2 ^ 63) \<le> x \<and> x < 2 ^ 63 then Some x else None)"

definition ck32 :: "int \<Rightarrow> int option" where
  "ck32 x = (if - (2 ^ 31) \<le> x \<and> x < 2 ^ 31 then Some x else None)"

definition to_s32 :: "int \<Rightarrow> int" where
  "to_s32 x = (x + 2 ^ 31) mod 2 ^ 32 - 2 ^ 31"

definition to_u32 :: "int \<Rightarrow> int" where
  "to_u32 x = x mod 2 ^ 32"

lemma ck64_in [simp]: "- (2 ^ 63) \<le> x \<Longrightarrow> x < 2 ^ 63 \<Longrightarrow> ck64 x = Some x"
  by (simp add: ck64_def)

lemma ck64_abs: "\<bar>x\<bar> < 2 ^ 63 \<Longrightarrow> ck64 x = Some x"
  by (simp add: ck64_def abs_less_iff)

lemma ck64_Some: "ck64 x = Some y \<longleftrightarrow> y = x \<and> - (2 ^ 63) \<le> x \<and> x < 2 ^ 63"
  by (auto simp: ck64_def)

lemma ck32_Some: "ck32 x = Some y \<longleftrightarrow> y = x \<and> - (2 ^ 31) \<le> x \<and> x < 2 ^ 31"
  by (auto simp: ck32_def)

lemma to_s32_range: "- (2 ^ 31) \<le> to_s32 x" "to_s32 x < 2 ^ 31"
  by (simp_all add: to_s32_def)

lemma to_s32_id: "- (2 ^ 31) \<le> x \<Longrightarrow> x < 2 ^ 31 \<Longrightarrow> to_s32 x = x"
  by (simp add: to_s32_def)

lemma sdiv_abs: "0 < c \<Longrightarrow> \<bar>x sdiv c\<bar> = \<bar>x :: int\<bar> div c"
  by (cases "x = 0") (simp_all add: signed_divide_int_def abs_mult abs_sgn_eq pos_imp_zdiv_nonneg_iff)

lemma sdiv_abs_le:
  assumes "0 < c"
  shows "\<bar>x sdiv c\<bar> * c \<le> \<bar>x :: int\<bar>"
  unfolding sdiv_abs [OF assms] using div_mult_mod_eq [of "\<bar>x\<bar>" c] pos_mod_sign [OF assms, of "\<bar>x\<bar>"] by linarith

section \<open>Doubles\<close>

definition round_even :: "rat \<Rightarrow> int" where
  "round_even x =
     (let f = \<lfloor>x\<rfloor>; r = x - of_int f in
      if r < 1 / 2 then f else if 1 / 2 < r then f + 1 else if even f then f else f + 1)"

text \<open>The exponent of the leading bit of a positive number.\<close>

definition leading :: "rat \<Rightarrow> int" where
  "leading x =
     (let (n, d) = quotient_of x; e = bitlen n - bitlen d in
      if 2 powi e \<le> x then e else e - 1)"

definition fl :: "rat \<Rightarrow> rat" where
  "fl x =
     (if x = 0 then 0
      else let e = max (leading \<bar>x\<bar> - 52) (-1074) in of_int (round_even (x / 2 powi e)) * 2 powi e)"

definition trunc :: "rat \<Rightarrow> int" where
  "trunc x = (if 0 \<le> x then \<lfloor>x\<rfloor> else \<lceil>x\<rceil>)"

definition cast64 :: "rat \<Rightarrow> int option" where
  "cast64 x = ck64 (trunc x)"

lemma round_even_near: "\<bar>of_int (round_even x) - x\<bar> \<le> 1 / 2"
proof -
  have "of_int \<lfloor>x\<rfloor> \<le> x" "x < of_int \<lfloor>x\<rfloor> + 1" by linarith+
  moreover have "round_even x = \<lfloor>x\<rfloor> \<and> x - of_int \<lfloor>x\<rfloor> \<le> 1 / 2 \<or>
      round_even x = \<lfloor>x\<rfloor> + 1 \<and> 1 / 2 \<le> x - of_int \<lfloor>x\<rfloor>"
    by (auto simp: round_even_def Let_def)
  ultimately show ?thesis by (elim disjE conjE) (simp_all add: abs_le_iff)
qed

lemma leading_le:
  assumes "0 < x"
  shows "2 powi (leading x) \<le> x"
proof -
  obtain n d where q: "quotient_of x = (n, d)" by fastforce
  then have d: "0 < d" and x: "x = of_int n / of_int d"
    using quotient_of_denom_pos quotient_of_div by blast+
  then have n: "0 < n" using assms by (simp add: zero_less_divide_iff)
  show ?thesis
  proof (cases "2 powi (bitlen n - bitlen d) \<le> x")
    case True
    then show ?thesis by (simp add: leading_def q)
  next
    case False
    have "2 ^ nat (bitlen n - 1) \<le> n" "d < 2 ^ nat (bitlen d)"
      using bitlen_bounds [OF n] bitlen_bounds [OF d] by simp_all
    then have "of_int (2 ^ nat (bitlen n - 1)) \<le> (of_int n :: rat)" "(of_int d :: rat) \<le> of_int (2 ^ nat (bitlen d))"
      by (simp_all only: of_int_le_iff)
    then have "(2 :: rat) ^ nat (bitlen n - 1) \<le> of_int n" "of_int d \<le> (2 :: rat) ^ nat (bitlen d)"
      by simp_all
    then have "2 ^ nat (bitlen n - 1) / 2 ^ nat (bitlen d) \<le> x"
      unfolding x using d n by (intro frac_le) simp_all
    moreover have "(2 :: rat) powi (bitlen n - bitlen d - 1) = 2 ^ nat (bitlen n - 1) / 2 ^ nat (bitlen d)"
    proof -
      have "(2 :: rat) powi (bitlen n - 1 - bitlen d) = 2 powi (bitlen n - 1) / 2 powi (bitlen d)"
        by (rule power_int_diff) simp
      moreover have "bitlen n - bitlen d - 1 = bitlen n - 1 - bitlen d" by simp
      moreover have "0 \<le> bitlen n - 1" "0 \<le> bitlen d" using n bitlen_nonneg [of d] bitlen_ge_iff_power [of 1 n] by auto
      ultimately show ?thesis by (simp only: power_int_def if_True)
    qed
    ultimately have "2 powi (bitlen n - bitlen d - 1) \<le> x" by simp
    with False show ?thesis by (simp add: leading_def q)
  qed
qed

text \<open>Rounding to \<open>p + 1\<close> bits, with \<open>- m\<close> as the least exponent.\<close>

lemma rounded_near:
  assumes "x \<noteq> 0" and "e = max (leading \<bar>x\<bar> - int p) (- int m)"
  shows "\<bar>of_int (round_even (x / 2 powi e)) * 2 powi e - x\<bar> \<le> \<bar>x\<bar> / 2 ^ (p + 1) + 1 / 2 ^ (m + 1)"
proof -
  have pos: "(0 :: rat) < 2 powi e" by simp
  have "\<bar>of_int (round_even (x / 2 powi e)) - x / 2 powi e\<bar> * 2 powi e \<le> 1 / 2 * 2 powi e"
    using round_even_near [of "x / 2 powi e"] pos by (intro mult_right_mono) simp_all
  moreover have "\<bar>of_int (round_even (x / 2 powi e)) - x / 2 powi e\<bar> * 2 powi e = \<bar>(of_int (round_even (x / 2 powi e)) - x / 2 powi e) * 2 powi e\<bar>"
    using pos by (simp add: abs_mult)
  moreover have "(of_int (round_even (x / 2 powi e)) - x / 2 powi e) * 2 powi e = of_int (round_even (x / 2 powi e)) * 2 powi e - x"
    by (simp add: left_diff_distrib)
  ultimately have near: "\<bar>of_int (round_even (x / 2 powi e)) * 2 powi e - x\<bar> \<le> 2 powi e / 2" by simp
  have "(2 :: rat) powi e \<le> \<bar>x\<bar> / 2 ^ p + 1 / 2 ^ m"
  proof (cases "leading \<bar>x\<bar> - int p \<le> - int m")
    case True
    then have "e = - int m" by (simp add: assms(2))
    then have "(2 :: rat) powi e = 1 / 2 ^ m" by (simp add: power_int_minus inverse_eq_divide)
    then show ?thesis by simp
  next
    case False
    then have "e = leading \<bar>x\<bar> - int p" by (simp add: assms(2))
    then have "(2 :: rat) powi e = 2 powi leading \<bar>x\<bar> / 2 ^ p" by (simp add: power_int_diff)
    moreover have "2 powi leading \<bar>x\<bar> \<le> \<bar>x\<bar>" using leading_le [of "\<bar>x\<bar>"] assms(1) by simp
    ultimately show ?thesis by (simp add: divide_right_mono add_increasing2)
  qed
  then show ?thesis using near by (simp add: add_divide_distrib)
qed

lemma fl_near: "\<bar>fl x - x\<bar> \<le> \<bar>x\<bar> / 2 ^ 53 + 1 / 2 ^ 1075"
  using rounded_near [of x "max (leading \<bar>x\<bar> - 52) (-1074)" 52 1074] by (simp add: fl_def Let_def)

lemma fl_bound: "\<bar>fl x\<bar> \<le> 2 * \<bar>x\<bar> + 1"
proof -
  have "\<bar>x\<bar> / 2 ^ 53 \<le> \<bar>x\<bar>" "1 / 2 ^ 1075 \<le> (1 :: rat)" by (simp_all add: divide_le_eq)
  then show ?thesis using fl_near [of x] by linarith
qed

lemma trunc_abs: "\<bar>of_int (trunc x)\<bar> \<le> \<bar>x\<bar>"
proof (cases "0 \<le> x")
  case True
  then show ?thesis by (simp add: trunc_def)
next
  case False
  then have "\<lceil>x\<rceil> \<le> 0" by (simp add: ceiling_le_zero)
  then have "of_int \<lceil>x\<rceil> \<le> (0 :: rat)" by simp
  then show ?thesis using False le_of_int_ceiling [of x] by (simp add: trunc_def)
qed

lemma trunc_bound: "\<bar>x\<bar> \<le> of_int b \<Longrightarrow> \<bar>trunc x\<bar> \<le> b"
proof -
  assume "\<bar>x\<bar> \<le> of_int b"
  then have "of_int \<bar>trunc x\<bar> \<le> (of_int b :: rat)" using trunc_abs [of x] by simp
  then show ?thesis by (simp only: of_int_le_iff)
qed

text \<open>Integers of up to 53 bits are doubles.\<close>

lemma leading_int: "0 < n \<Longrightarrow> leading (of_int n) = bitlen n - 1"
proof -
  assume n: "0 < n"
  have "2 ^ nat (bitlen n - 1) \<le> n" using bitlen_bounds [OF n] by simp
  then have "of_int (2 ^ nat (bitlen n - 1)) \<le> (of_int n :: rat)" by (simp only: of_int_le_iff)
  moreover have "0 \<le> bitlen n - 1" using n bitlen_ge_iff_power [of 1 n] by auto
  ultimately have "2 powi (bitlen n - 1) \<le> (of_int n :: rat)" by (simp add: power_int_def)
  moreover have "quotient_of (of_int n) = (n, 1)" by (simp add: quotient_of_int)
  moreover have "bitlen (1 :: int) = 1" by (simp add: bitlen_def floorlog_def)
  ultimately show ?thesis by (simp add: leading_def)
qed

lemma round_even_int: "round_even (of_int k) = k"
  by (simp add: round_even_def)

lemma fl_int:
  assumes "\<bar>n\<bar> < 2 ^ 53"
  shows "fl (of_int n) = of_int n"
proof (cases "n = 0")
  case False
  define e where "e = leading \<bar>of_int n\<bar> - 52"
  have "leading \<bar>of_int n\<bar> = bitlen \<bar>n\<bar> - 1" using leading_int [of "\<bar>n\<bar>"] False by simp
  moreover have "bitlen \<bar>n\<bar> \<le> 53" using bitlen_le_iff_power [of "\<bar>n\<bar>" 53] assms by simp
  moreover have "0 < bitlen \<bar>n\<bar>" using False bitlen_ge_iff_power [of 1 "\<bar>n\<bar>"] by auto
  ultimately have e: "e \<le> 0" "- 52 \<le> e" by (simp_all add: e_def)
  define p where "p = (2 :: int) ^ nat (- e)"
  have "(2 :: rat) powi e = inverse (2 powi (- e))" by (simp add: power_int_minus)
  also have "2 powi (- e) = (of_int p :: rat)" using e(1) by (simp add: power_int_def p_def)
  finally have q: "(2 :: rat) powi e = inverse (of_int p)" .
  have "of_int p \<noteq> (0 :: rat)" by (simp add: p_def)
  then have "of_int (round_even (of_int n / 2 powi e)) * 2 powi e = (of_int n :: rat)"
    unfolding q using round_even_int [of "n * p"] by (simp add: field_simps)
  moreover have "max e (-1074) = e" using e(2) by simp
  ultimately show ?thesis using False by (simp add: fl_def e_def Let_def)
qed (simp add: fl_def)

lemma fl_bound_int:
  assumes "\<bar>x\<bar> \<le> of_int b"
  shows "\<bar>fl x\<bar> \<le> of_int (2 * b + 1)"
  using fl_bound [of x] assms by simp

end
