(* ===== verification/Adpf_Pid.thy ===== *)
theory Adpf_Pid
  imports Cpp_Arith
begin

text \<open>
  The controller of \<open>PowerHintSession.cpp\<close> that turns reported work durations into a change of the CPU
  boost, and its equivalence with a closed form.
\<close>

section \<open>The controller\<close>

text \<open>
  The profile comes from \<open>libperfmgr\<close>; the model takes its fields as given. \<open>getPidIHighDivI\<close> and \<open>getPidILowDivI\<close> are the
  results of the accessors of those names.
\<close>

record AdpfConfig =
  mPidOn :: bool
  mPidPo :: rat
  mPidPu :: rat
  mPidI :: rat
  mPidDo :: rat
  mPidDu :: rat
  getPidIHighDivI :: int
  getPidILowDivI :: int
  mSamplingWindowP :: nat
  mSamplingWindowI :: nat
  mSamplingWindowD :: nat
  mUclampMinOn :: bool
  mUclampMinInit :: nat
  mUclampMinHigh :: nat
  mUclampMinLow :: nat
  mReportingRateLimitNs :: int
  mEarlyBoostOn :: bool
  mEarlyBoostTimeFactor :: rat
  mTargetTimeFactor :: rat
  mStaleTimeFactor :: rat

record WorkDuration =
  timeStampNanos :: int
  durationNanos :: int

definition ns_to_100us :: "int \<Rightarrow> int" where
  "ns_to_100us ns = ns sdiv 100000"

definition window_start :: "nat \<Rightarrow> nat \<Rightarrow> nat" where
  "window_start w len = (if w = 0 \<or> w > len then 0 else len - w)"

record pid_state =
  err_sum :: int
  derivative_sum :: int
  integral_error :: int
  previous_error :: int

text \<open>One round of the loop. The test against 20 times the target is only logged, but its arithmetic can overflow.\<close>

definition pid_step ::
  "AdpfConfig \<Rightarrow> int \<Rightarrow> int \<Rightarrow> bool \<Rightarrow> bool \<Rightarrow> bool \<Rightarrow> int \<Rightarrow> pid_state \<Rightarrow> pid_state option" where
  "pid_step cfg target dt in_p in_i in_d actual s = do {
     ck64 \<bar>actual\<bar>;
     ck64 (target * 20);
     diff \<leftarrow> ck64 (actual - target);
     let error = ns_to_100us diff;
     s \<leftarrow> (if in_d then do {
            x \<leftarrow> ck64 (error - previous_error s);
            y \<leftarrow> ck64 (derivative_sum s + x);
            Some (s\<lparr>derivative_sum := y\<rparr>) } else Some s);
     s \<leftarrow> (if in_p then do { y \<leftarrow> ck64 (err_sum s + error); Some (s\<lparr>err_sum := y\<rparr>) } else Some s);
     s \<leftarrow> (if in_i then do {
            x \<leftarrow> ck64 (error * dt);
            y \<leftarrow> ck64 (integral_error s + x);
            let y = min (getPidIHighDivI cfg) y;
            let y = max (getPidILowDivI cfg) y;
            Some (s\<lparr>integral_error := y\<rparr>) } else Some s);
     Some (s\<lparr>previous_error := error\<rparr>)
   }"

fun pid_loop ::
  "AdpfConfig \<Rightarrow> int \<Rightarrow> int \<Rightarrow> nat \<Rightarrow> nat \<Rightarrow> nat \<Rightarrow> nat \<Rightarrow> WorkDuration list \<Rightarrow> pid_state \<Rightarrow> pid_state option" where
  "pid_loop cfg target dt p_start i_start d_start i [] s = Some s"
| "pid_loop cfg target dt p_start i_start d_start i (w # ws) s = do {
     s \<leftarrow> pid_step cfg target dt (i \<ge> p_start) (i \<ge> i_start) (i \<ge> d_start) (durationNanos w) s;
     pid_loop cfg target dt p_start i_start d_start (i + 1) ws s
   }"

text \<open>Division of a double by an integer; by zero the result is infinite or not a number.\<close>

definition fdiv :: "rat \<Rightarrow> int \<Rightarrow> rat option" where
  "fdiv x n = (if n = 0 then None else Some (fl (x / fl (of_int n))))"

definition convertWorkDurationToBoostByPid ::
  "AdpfConfig \<Rightarrow> int \<Rightarrow> WorkDuration list \<Rightarrow> int \<Rightarrow> int \<Rightarrow> (int \<times> int \<times> int) option" where
  "convertWorkDurationToBoostByPid cfg targetDurationNanos actualDurations integral prev =
     (let len = length actualDurations;
          p_start = window_start (mSamplingWindowP cfg) len;
          i_start = window_start (mSamplingWindowI cfg) len;
          d_start = window_start (mSamplingWindowD cfg) len;
          dt = ns_to_100us targetDurationNanos;
          start = min p_start (min i_start d_start) in do {
      s \<leftarrow> pid_loop cfg targetDurationNanos dt p_start i_start d_start start (drop start actualDurations)
             \<lparr>err_sum = 0, derivative_sum = 0, integral_error = integral, previous_error = prev\<rparr>;
      p \<leftarrow> fdiv (fl ((if err_sum s > 0 then mPidPo cfg else mPidPu cfg) * fl (of_int (err_sum s)))) (int (len - p_start));
      pOut \<leftarrow> cast64 p;
      iOut \<leftarrow> cast64 (fl (mPidI cfg * fl (of_int (integral_error s))));
      d \<leftarrow> fdiv (fl ((if derivative_sum s > 0 then mPidDo cfg else mPidDu cfg) * fl (of_int (derivative_sum s)))) dt;
      d \<leftarrow> fdiv d (int (len - d_start));
      dOut \<leftarrow> cast64 d;
      pi \<leftarrow> ck64 (pOut + iOut);
      output \<leftarrow> ck64 (pi + dOut);
      Some (output, integral_error s, previous_error s)
     })"

section \<open>The closed form\<close>

definition errors :: "int \<Rightarrow> WorkDuration list \<Rightarrow> int list" where
  "errors target ws = map (\<lambda>w. ns_to_100us (durationNanos w - target)) ws"

definition clamp_add :: "AdpfConfig \<Rightarrow> int \<Rightarrow> int \<Rightarrow> int \<Rightarrow> int" where
  "clamp_add cfg dt e x = max (getPidILowDivI cfg) (min (getPidIHighDivI cfg) (x + e * dt))"

text \<open>
  The last \<open>n\<close> of the errors are the ones a window sees. The derivative telescopes: it is the last error minus the one
  before the window.
\<close>

definition pid_reference :: "AdpfConfig \<Rightarrow> int \<Rightarrow> WorkDuration list \<Rightarrow> int \<Rightarrow> int \<Rightarrow> pid_state" where
  "pid_reference cfg target ws integral prev =
     (let es = errors target ws; len = length es; dt = ns_to_100us target;
          p_start = window_start (mSamplingWindowP cfg) len;
          i_start = window_start (mSamplingWindowI cfg) len;
          d_start = window_start (mSamplingWindowD cfg) len in
      \<lparr>err_sum = sum_list (drop p_start es),
       derivative_sum = last es - (if d_start = min p_start (min i_start d_start) then prev else es ! (d_start - 1)),
       integral_error = fold (clamp_add cfg dt) (drop i_start es) integral,
       previous_error = last es\<rparr>)"


text \<open>The value the controller returns, from the sums.\<close>

definition pid_output :: "AdpfConfig \<Rightarrow> int \<Rightarrow> nat \<Rightarrow> pid_state \<Rightarrow> int" where
  "pid_output cfg dt len s =
     (let gain_p = (if err_sum s > 0 then mPidPo cfg else mPidPu cfg);
          gain_d = (if derivative_sum s > 0 then mPidDo cfg else mPidDu cfg);
          n_p = len - window_start (mSamplingWindowP cfg) len;
          n_d = len - window_start (mSamplingWindowD cfg) len in
      trunc (fl (fl (gain_p * of_int (err_sum s)) / of_nat n_p)) +
      trunc (fl (mPidI cfg * of_int (integral_error s))) +
      trunc (fl (fl (fl (gain_d * of_int (derivative_sum s)) / of_int dt) / of_nat n_d)))"

section \<open>The loop without overflow\<close>

definition pure_step :: "AdpfConfig \<Rightarrow> int \<Rightarrow> bool \<Rightarrow> bool \<Rightarrow> bool \<Rightarrow> int \<Rightarrow> pid_state \<Rightarrow> pid_state" where
  "pure_step cfg dt in_p in_i in_d e s =
     \<lparr>err_sum = err_sum s + (if in_p then e else 0),
      derivative_sum = derivative_sum s + (if in_d then e - previous_error s else 0),
      integral_error = (if in_i then clamp_add cfg dt e (integral_error s) else integral_error s),
      previous_error = e\<rparr>"

fun pure_loop :: "AdpfConfig \<Rightarrow> int \<Rightarrow> nat \<Rightarrow> nat \<Rightarrow> nat \<Rightarrow> nat \<Rightarrow> int list \<Rightarrow> pid_state \<Rightarrow> pid_state" where
  "pure_loop cfg dt p i d k [] s = s"
| "pure_loop cfg dt p i d k (e # es) s =
     pure_loop cfg dt p i d (k + 1) es (pure_step cfg dt (k \<ge> p) (k \<ge> i) (k \<ge> d) e s)"

lemma drop_Cons_diff: "drop (p - k) (e # es) = (if k \<ge> p then e # es else drop (p - (k + 1)) es)"
proof (cases "k \<ge> p")
  case False
  then have "p - k = Suc (p - (k + 1))" by simp
  with False show ?thesis by simp
qed simp

lemma pure_loop_sums:
  "err_sum (pure_loop cfg dt p i d k es s) = err_sum s + sum_list (drop (p - k) es)"
  "integral_error (pure_loop cfg dt p i d k es s) = fold (clamp_add cfg dt) (drop (i - k) es) (integral_error s)"
  "previous_error (pure_loop cfg dt p i d k es s) = (if es = [] then previous_error s else last es)"
  by (induction es arbitrary: k s) (auto simp: pure_step_def drop_Cons_diff simp del: drop_Suc_Cons)

lemma pure_loop_derivative:
  "d < k + length es \<Longrightarrow> es \<noteq> [] \<Longrightarrow> derivative_sum (pure_loop cfg dt p i d k es s) =
     derivative_sum s + last es - (if d \<le> k then previous_error s else es ! (d - k - 1))"
proof (induction es arbitrary: k s)
  case (Cons e es)
  show ?case
  proof (cases "es = []")
    case True
    then show ?thesis using Cons.prems by (simp add: pure_step_def)
  next
    case False
    then show ?thesis
      using Cons.prems Cons.IH [of "k + 1"]
      by (cases "d \<le> k"; cases "d = k + 1") (auto simp: pure_step_def nth_Cons' Suc_diff_Suc)
  qed
qed simp


section \<open>No overflow\<close>

text \<open>
  Ranges in which nothing overflows: durations up to 2^40 ns (18 minutes), a target of at least 100 us, batches of up
  to 65536 reports, gains up to 1024 and integral limits up to 2^40.
\<close>

definition pid_ranges :: "AdpfConfig \<Rightarrow> int \<Rightarrow> WorkDuration list \<Rightarrow> int \<Rightarrow> int \<Rightarrow> bool" where
  "pid_ranges cfg target ws integral prev \<longleftrightarrow>
     100000 \<le> target \<and> target \<le> 2 ^ 40 \<and> (\<forall>w \<in> set ws. \<bar>durationNanos w\<bar> \<le> 2 ^ 40) \<and>
     0 < length ws \<and> length ws \<le> 2 ^ 16 \<and> \<bar>prev\<bar> \<le> 2 ^ 40 \<and> \<bar>integral\<bar> \<le> 2 ^ 40 \<and>
     \<bar>getPidIHighDivI cfg\<bar> \<le> 2 ^ 40 \<and> \<bar>getPidILowDivI cfg\<bar> \<le> 2 ^ 40 \<and>
     (\<forall>k \<in> {mPidPo cfg, mPidPu cfg, mPidI cfg, mPidDo cfg, mPidDu cfg}. \<bar>k\<bar> \<le> 1024)"

lemma error_small:
  assumes "\<bar>a\<bar> \<le> 2 ^ 40" "0 < target" "target \<le> 2 ^ 40"
  shows "\<bar>ns_to_100us (a - target)\<bar> \<le> 2 ^ 25" "\<bar>ns_to_100us target\<bar> \<le> 2 ^ 24"
  using sdiv_abs_le [of 100000 "a - target"] sdiv_abs_le [of 100000 target] assms
  by (simp_all add: ns_to_100us_def)

lemma pid_step_pure:
  assumes a: "\<bar>a\<bar> \<le> 2 ^ 40" and t: "0 < target" "target \<le> 2 ^ 40" and dt: "\<bar>dt\<bar> \<le> 2 ^ 24"
    and s: "\<bar>err_sum s\<bar> \<le> 2 ^ 50" "\<bar>derivative_sum s\<bar> \<le> 2 ^ 60" "\<bar>integral_error s\<bar> \<le> 2 ^ 40"
      "\<bar>previous_error s\<bar> \<le> 2 ^ 40"
  shows "pid_step cfg target dt in_p in_i in_d a s =
     Some (pure_step cfg dt in_p in_i in_d (ns_to_100us (a - target)) s)"
proof -
  define e where "e = ns_to_100us (a - target)"
  have e: "\<bar>e\<bar> \<le> 2 ^ 25" using error_small(1) [OF a t] by (simp add: e_def)
  have m: "\<bar>e * dt\<bar> \<le> 2 ^ 49"
    using mult_mono [OF e dt] by (simp add: abs_mult)
  have "ck64 \<bar>a\<bar> = Some \<bar>a\<bar>" using a by (simp add: ck64_def)
  moreover have "ck64 (target * 20) = Some (target * 20)" "ck64 (a - target) = Some (a - target)"
    "ck64 (e - previous_error s) = Some (e - previous_error s)"
    "ck64 (derivative_sum s + (e - previous_error s)) = Some (derivative_sum s + (e - previous_error s))"
    "ck64 (err_sum s + e) = Some (err_sum s + e)" "ck64 (e * dt) = Some (e * dt)"
    "ck64 (integral_error s + e * dt) = Some (integral_error s + e * dt)"
    using assms e m by (simp_all add: ck64_def abs_le_iff)
  ultimately show ?thesis
    by (simp add: pid_step_def pure_step_def clamp_add_def flip: e_def)
qed

lemma clamp_add_small:
  "\<bar>getPidIHighDivI cfg\<bar> \<le> b \<Longrightarrow> \<bar>getPidILowDivI cfg\<bar> \<le> b \<Longrightarrow> \<bar>clamp_add cfg dt e x\<bar> \<le> b"
  by (auto simp: clamp_add_def max_def min_def)


lemma pid_loop_pure:
  assumes t: "0 < target" "target \<le> 2 ^ 40" and dt: "\<bar>dt\<bar> \<le> 2 ^ 24"
    and lim: "\<bar>getPidIHighDivI cfg\<bar> \<le> 2 ^ 40" "\<bar>getPidILowDivI cfg\<bar> \<le> 2 ^ 40"
  shows "\<forall>w \<in> set ws. \<bar>durationNanos w\<bar> \<le> 2 ^ 40 \<Longrightarrow> \<bar>err_sum s\<bar> + int (length ws) * 2 ^ 25 \<le> 2 ^ 50 \<Longrightarrow>
     \<bar>derivative_sum s\<bar> + int (length ws) * 2 ^ 41 \<le> 2 ^ 60 \<Longrightarrow> \<bar>integral_error s\<bar> \<le> 2 ^ 40 \<Longrightarrow>
     \<bar>previous_error s\<bar> \<le> 2 ^ 40 \<Longrightarrow>
     pid_loop cfg target dt p i d k ws s = Some (pure_loop cfg dt p i d k (errors target ws) s)"
proof (induction ws arbitrary: k s)
  case (Cons w ws)
  let ?e = "ns_to_100us (durationNanos w - target)"
  let ?s = "pure_step cfg dt (k \<ge> p) (k \<ge> i) (k \<ge> d) ?e s"
  have a: "\<bar>durationNanos w\<bar> \<le> 2 ^ 40" using Cons.prems(1) by simp
  have e: "\<bar>?e\<bar> \<le> 2 ^ 25" using error_small(1) [OF a t] .
  have "pid_step cfg target dt (k \<ge> p) (k \<ge> i) (k \<ge> d) (durationNanos w) s = Some ?s"
    using Cons.prems by (intro pid_step_pure [OF a t dt]) simp_all
  moreover have "pid_loop cfg target dt p i d (k + 1) ws ?s = Some (pure_loop cfg dt p i d (k + 1) (errors target ws) ?s)"
  proof (rule Cons.IH)
    show "\<bar>integral_error ?s\<bar> \<le> 2 ^ 40"
      using clamp_add_small [OF lim] Cons.prems(4) by (simp add: pure_step_def)
    have "\<bar>err_sum ?s\<bar> \<le> \<bar>err_sum s\<bar> + 2 ^ 25" "\<bar>derivative_sum ?s\<bar> \<le> \<bar>derivative_sum s\<bar> + (2 ^ 25 + 2 ^ 40)"
      using e Cons.prems(5) by (cases "k \<ge> p"; cases "k \<ge> d"; simp add: pure_step_def; linarith)+
    then show "\<bar>err_sum ?s\<bar> + int (length ws) * 2 ^ 25 \<le> 2 ^ 50" "\<bar>derivative_sum ?s\<bar> + int (length ws) * 2 ^ 41 \<le> 2 ^ 60"
      using Cons.prems(2,3) by simp_all
    show "\<bar>previous_error ?s\<bar> \<le> 2 ^ 40" using e by (simp add: pure_step_def)
  qed (use Cons.prems in simp)
  ultimately show ?case by (simp add: errors_def)
qed (simp add: errors_def)

lemma sum_list_small: "\<forall>x \<in> set xs. \<bar>x\<bar> \<le> (b :: int) \<Longrightarrow> \<bar>sum_list xs\<bar> \<le> int (length xs) * b"
  by (induction xs) (auto simp: algebra_simps abs_le_iff)

lemma fold_clamp_small:
  "\<bar>getPidIHighDivI cfg\<bar> \<le> b \<Longrightarrow> \<bar>getPidILowDivI cfg\<bar> \<le> b \<Longrightarrow> \<bar>x\<bar> \<le> b \<Longrightarrow> \<bar>fold (clamp_add cfg dt) es x\<bar> \<le> b"
  by (induction es arbitrary: x) (simp_all add: clamp_add_small)

lemma window_start_less: "0 < len \<Longrightarrow> window_start w len < len"
  by (auto simp: window_start_def)

lemma errors_small:
  assumes "pid_ranges cfg target ws integral prev" and "e \<in> set (errors target ws)"
  shows "\<bar>e\<bar> \<le> 2 ^ 25"
  using assms error_small(1) by (auto simp: errors_def pid_ranges_def)

lemma pid_reference_small:
  assumes R: "pid_ranges cfg target ws integral prev"
  shows "\<bar>err_sum (pid_reference cfg target ws integral prev)\<bar> \<le> 2 ^ 41"
    "\<bar>derivative_sum (pid_reference cfg target ws integral prev)\<bar> \<le> 2 ^ 41"
    "\<bar>integral_error (pid_reference cfg target ws integral prev)\<bar> \<le> 2 ^ 40"
proof -
  let ?es = "errors target ws"
  have len: "length ?es = length ws" "?es \<noteq> []" "length ws \<le> 2 ^ 16" using R by (auto simp: errors_def pid_ranges_def)
  have "\<bar>sum_list (drop k ?es)\<bar> \<le> 2 ^ 41" for k
  proof -
    have "\<bar>sum_list (drop k ?es)\<bar> \<le> int (length (drop k ?es)) * 2 ^ 25"
      using errors_small [OF R] by (intro sum_list_small) (auto dest: in_set_dropD)
    also have "\<dots> \<le> 2 ^ 16 * 2 ^ 25" using len by (intro mult_right_mono) simp_all
    finally show ?thesis by simp
  qed
  then show "\<bar>err_sum (pid_reference cfg target ws integral prev)\<bar> \<le> 2 ^ 41"
    by (simp add: pid_reference_def Let_def)
  have l: "\<bar>last ?es\<bar> \<le> 2 ^ 25" using errors_small [OF R] len(2) by simp
  have "\<bar>e\<bar> \<le> 2 ^ 40" if "e \<in> set ?es" for e using errors_small [OF R that] by simp
  then have "\<bar>?es ! (window_start w (length ?es) - 1)\<bar> \<le> 2 ^ 40" for w
    using window_start_less [of "length ?es" w] len(2) by (simp add: less_imp_diff_less)
  moreover have "\<bar>prev\<bar> \<le> 2 ^ 40" using R by (simp add: pid_ranges_def)
  ultimately have "\<bar>if c then prev else ?es ! (window_start w (length ?es) - 1)\<bar> \<le> 2 ^ 40" for c w
    by (cases c) simp_all
  then have "\<bar>last ?es - (if c then prev else ?es ! (window_start w (length ?es) - 1))\<bar> \<le> 2 ^ 25 + 2 ^ 40" for c w
    by (intro order_trans [OF abs_triangle_ineq4] add_mono l)
  then show "\<bar>derivative_sum (pid_reference cfg target ws integral prev)\<bar> \<le> 2 ^ 41"
    unfolding pid_reference_def Let_def pid_state.select_convs by (rule order_trans) simp
  show "\<bar>integral_error (pid_reference cfg target ws integral prev)\<bar> \<le> 2 ^ 40"
    using R fold_clamp_small [of cfg "2 ^ 40" integral] by (simp add: pid_reference_def Let_def pid_ranges_def)
qed

lemma pure_loop_reference:
  assumes "ws \<noteq> []" and p: "p = window_start (mSamplingWindowP cfg) (length ws)"
    and i: "i = window_start (mSamplingWindowI cfg) (length ws)" and d: "d = window_start (mSamplingWindowD cfg) (length ws)"
    and k: "k = min p (min i d)"
    and s: "s = \<lparr>err_sum = 0, derivative_sum = 0, integral_error = integral, previous_error = prev\<rparr>"
  shows "pure_loop cfg (ns_to_100us target) p i d k (drop k (errors target ws)) s = pid_reference cfg target ws integral prev"
    (is "?l = ?r")
proof -
  let ?es = "errors target ws"
  have len: "length ?es = length ws" by (simp add: errors_def)
  have less: "d < length ?es" "?es \<noteq> []" using window_start_less assms(1) by (auto simp: d errors_def)
  have ne: "drop k ?es \<noteq> []" using less(1) by (simp add: k)
  have R: "?r = \<lparr>err_sum = sum_list (drop p ?es), derivative_sum = last ?es - (if d = k then prev else ?es ! (d - 1)),
      integral_error = fold (clamp_add cfg (ns_to_100us target)) (drop i ?es) integral, previous_error = last ?es\<rparr>"
    by (simp add: pid_reference_def Let_def len flip: p i d k)
  have "err_sum ?l = err_sum ?r" "integral_error ?l = integral_error ?r" "previous_error ?l = previous_error ?r"
    unfolding R using ne by (simp_all add: pure_loop_sums s) (simp_all add: k)
  moreover have "derivative_sum ?l = derivative_sum ?r"
  proof -
    have "derivative_sum ?l = last (drop k ?es) - (if d \<le> k then prev else drop k ?es ! (d - k - 1))"
      using pure_loop_derivative [OF _ ne, of d k cfg "ns_to_100us target" p i s] less by (simp add: s k)
    moreover have "d \<le> k \<longleftrightarrow> d = k" by (auto simp: k)
    moreover have "drop k ?es ! (d - k - 1) = ?es ! (d - 1)" if "d \<noteq> k"
      using that less by (simp add: k nth_drop)
    ultimately show ?thesis unfolding R using ne by simp
  qed
  ultimately show ?thesis by (intro pid_state.equality) simp_all
qed


section \<open>The output without overflow\<close>

lemma fdiv_small:
  assumes "\<bar>x\<bar> \<le> of_int b" and "0 < n" "n < 2 ^ 53"
  shows "fdiv x n = Some (fl (x / of_int n))" and "\<bar>fl (x / of_int n)\<bar> \<le> of_int (2 * b + 1)"
proof -
  show "fdiv x n = Some (fl (x / of_int n))" using assms fl_int [of n] by (simp add: fdiv_def)
  have "\<bar>x / of_int n\<bar> \<le> \<bar>x\<bar>" using assms(2) by (simp add: divide_le_eq mult_le_cancel_left1)
  then show "\<bar>fl (x / of_int n)\<bar> \<le> of_int (2 * b + 1)" using assms(1) by (intro fl_bound_int) linarith
qed

lemma gain_small:
  assumes "\<bar>k\<bar> \<le> 1024" and "\<bar>x\<bar> \<le> 2 ^ 41"
  shows "\<bar>fl (k * of_int x)\<bar> \<le> of_int (2 ^ 52 + 1)"
proof -
  have "\<bar>of_int x :: rat\<bar> \<le> of_int (2 ^ 41)" using assms(2) by (simp only: of_int_le_iff flip: of_int_abs)
  then have "\<bar>k * of_int x\<bar> \<le> 1024 * of_int (2 ^ 41)" unfolding abs_mult using assms(1) by (intro mult_mono) simp_all
  then have "\<bar>k * of_int x\<bar> \<le> of_int (2 ^ 51)" by simp
  from fl_bound_int [OF this] show ?thesis by simp
qed

lemma cast64_small: "\<bar>x\<bar> \<le> of_int b \<Longrightarrow> b < 2 ^ 62 \<Longrightarrow> cast64 x = Some (trunc x)"
  using trunc_bound [of x b] by (simp add: cast64_def ck64_abs)

lemma ck64_add3:
  assumes "\<bar>a\<bar> \<le> 2 ^ 60" "\<bar>b\<bar> \<le> 2 ^ 60" "\<bar>c\<bar> \<le> 2 ^ 60"
  shows "ck64 (a + b) = Some (a + b)" "ck64 (a + b + c) = Some (a + b + c)"
  using assms by (auto simp: ck64_def abs_le_iff)


lemma output_small:
  assumes R: "pid_ranges cfg target ws integral prev" and S: "s = pid_reference cfg target ws integral prev"
    and dt: "0 < dt" "dt < 2 ^ 53"
  shows "(do {
      p \<leftarrow> fdiv (fl ((if err_sum s > 0 then mPidPo cfg else mPidPu cfg) * fl (of_int (err_sum s))))
            (int (length ws - window_start (mSamplingWindowP cfg) (length ws)));
      pOut \<leftarrow> cast64 p;
      iOut \<leftarrow> cast64 (fl (mPidI cfg * fl (of_int (integral_error s))));
      d \<leftarrow> fdiv (fl ((if derivative_sum s > 0 then mPidDo cfg else mPidDu cfg) * fl (of_int (derivative_sum s)))) dt;
      d \<leftarrow> fdiv d (int (length ws - window_start (mSamplingWindowD cfg) (length ws)));
      dOut \<leftarrow> cast64 d;
      pi \<leftarrow> ck64 (pOut + iOut);
      output \<leftarrow> ck64 (pi + dOut);
      Some (output, integral_error s, previous_error s) }) =
    Some (pid_output cfg dt (length ws) s, integral_error s, previous_error s)"
proof -
  define gp gd where "gp = (if err_sum s > 0 then mPidPo cfg else mPidPu cfg)"
    and "gd = (if derivative_sum s > 0 then mPidDo cfg else mPidDu cfg)"
  have g: "\<bar>gp\<bar> \<le> 1024" "\<bar>gd\<bar> \<le> 1024" "\<bar>mPidI cfg\<bar> \<le> 1024"
    using R by (simp_all add: gp_def gd_def pid_ranges_def)
  have small: "\<bar>err_sum s\<bar> \<le> 2 ^ 41" "\<bar>derivative_sum s\<bar> \<le> 2 ^ 41" "\<bar>integral_error s\<bar> \<le> 2 ^ 41"
    using pid_reference_small [OF R] by (simp_all add: S)
  have fi: "fl (of_int (err_sum s)) = of_int (err_sum s)" "fl (of_int (derivative_sum s)) = of_int (derivative_sum s)"
    "fl (of_int (integral_error s)) = of_int (integral_error s)"
    using small by (intro fl_int; simp)+
  define np nd where "np = length ws - window_start (mSamplingWindowP cfg) (length ws)"
    and "nd = length ws - window_start (mSamplingWindowD cfg) (length ws)"
  have len: "0 < length ws" "length ws \<le> 2 ^ 16" using R by (simp_all add: pid_ranges_def)
  have n: "0 < int np" "int np < 2 ^ 53" "0 < int nd" "int nd < 2 ^ 53"
    using window_start_less [OF len(1)] len(2) by (simp_all add: np_def nd_def)
  define P I D where "P = fl (fl (gp * of_int (err_sum s)) / of_int (int np))"
    and "I = fl (mPidI cfg * of_int (integral_error s))"
    and "D = fl (fl (fl (gd * of_int (derivative_sum s)) / of_int dt) / of_int (int nd))"
  note p = fdiv_small [OF gain_small [OF g(1) small(1)] n(1,2), folded P_def]
  note d1 = fdiv_small [OF gain_small [OF g(2) small(2)] dt]
  note d2 = fdiv_small [OF d1(2) n(3,4), folded D_def]
  note i = gain_small [OF g(3) small(3), folded I_def]
  note t = trunc_bound [OF p(2)] trunc_bound [OF i] trunc_bound [OF d2(2)]
  have c: "cast64 P = Some (trunc P)" "cast64 I = Some (trunc I)" "cast64 D = Some (trunc D)"
    using cast64_small [OF p(2)] cast64_small [OF i] cast64_small [OF d2(2)] by simp_all
  have a: "ck64 (trunc P + trunc I) = Some (trunc P + trunc I)"
    "ck64 (trunc P + trunc I + trunc D) = Some (trunc P + trunc I + trunc D)"
    using ck64_add3 [of "trunc P" "trunc I" "trunc D"] t by simp_all
  have out: "pid_output cfg dt (length ws) s = trunc P + trunc I + trunc D"
    by (simp add: pid_output_def Let_def P_def I_def D_def gp_def gd_def np_def nd_def)
  show ?thesis
    unfolding fi out gp_def [symmetric] gd_def [symmetric] np_def [symmetric] nd_def [symmetric]
    by (simp add: p(1) d1(1) d2(1) c a flip: I_def)
qed

lemma convert_pure:
  assumes "pid_ranges cfg target ws integral prev"
  shows "convertWorkDurationToBoostByPid cfg target ws integral prev =
     (let s = pid_reference cfg target ws integral prev in
      Some (pid_output cfg (ns_to_100us target) (length ws) s, integral_error s, previous_error s))"
proof -
  note R = assms [unfolded pid_ranges_def]
  have t: "0 < target" "target \<le> 2 ^ 40" and ws: "ws \<noteq> []" using R by auto
  define dt where "dt = ns_to_100us target"
  have "1 \<le> dt" using R by (simp add: dt_def ns_to_100us_def signed_divide_int_def int_one_le_iff_zero_less pos_imp_zdiv_pos_iff)
  moreover have "\<bar>dt\<bar> \<le> 2 ^ 24" using error_small(2) [OF _ t, of 0] by (simp add: dt_def)
  ultimately have dt: "0 < dt" "dt < 2 ^ 53" "\<bar>dt\<bar> \<le> 2 ^ 24" by simp_all
  define p i d where "p = window_start (mSamplingWindowP cfg) (length ws)"
    and "i = window_start (mSamplingWindowI cfg) (length ws)" and "d = window_start (mSamplingWindowD cfg) (length ws)"
  define k where "k = min p (min i d)"
  define s0 where "s0 = \<lparr>err_sum = 0, derivative_sum = 0, integral_error = integral, previous_error = prev\<rparr>"
  have "length ws \<le> 65536" using R by simp
  then have "length ws - k \<le> 65536" by (rule order_trans [OF diff_le_self])
  then have "pid_loop cfg target dt p i d k (drop k ws) s0 = Some (pure_loop cfg dt p i d k (errors target (drop k ws)) s0)"
    using R by (intro pid_loop_pure [OF t dt(3)]) (auto simp: s0_def dest: in_set_dropD)
  moreover have "errors target (drop k ws) = drop k (errors target ws)" by (simp add: errors_def drop_map)
  ultimately have "pid_loop cfg target dt p i d k (drop k ws) s0 = Some (pid_reference cfg target ws integral prev)"
    using pure_loop_reference [OF ws p_def i_def d_def k_def s0_def] by (simp add: dt_def)
  then show ?thesis
    unfolding convertWorkDurationToBoostByPid_def Let_def
    unfolding dt_def [symmetric] p_def [symmetric] i_def [symmetric] d_def [symmetric] k_def [symmetric] s0_def [symmetric]
    using output_small [OF assms refl dt(1,2)] by (simp add: p_def d_def)
qed


section \<open>Properties\<close>

text \<open>
  Claim C11. The controller equals its closed form. For durations up to 18 minutes, a target of at least 100 us, batches of up to 65536 reports and gains up to 1024
  nothing overflows, and the loop over the batch computes exactly: the sum of the errors in the proportional window, the last error minus
  the one before the derivative window, the clamped integral over its window, and from these the output.
\<close>

theorem convertWorkDurationToBoostByPid_closed_form:
  assumes "pid_ranges cfg target ws integral prev"
  shows "convertWorkDurationToBoostByPid cfg target ws integral prev =
     (let s = pid_reference cfg target ws integral prev in
      Some (pid_output cfg (ns_to_100us target) (length ws) s, integral_error s, previous_error s))"
  using assms by (rule convert_pure)

text \<open>A profile with the gains of a real device, for the concrete instances.\<close>

definition sample_adpf :: AdpfConfig where
  "sample_adpf =
     \<lparr>mPidOn = True, mPidPo = 2, mPidPu = 1, mPidI = 1 / 2, mPidDo = 500, mPidDu = 0, getPidIHighDivI = 512,
      getPidILowDivI = -30, mSamplingWindowP = 1, mSamplingWindowI = 0, mSamplingWindowD = 1, mUclampMinOn = True,
      mUclampMinInit = 200, mUclampMinHigh = 480, mUclampMinLow = 2, mReportingRateLimitNs = 166666660,
      mEarlyBoostOn = False, mEarlyBoostTimeFactor = 4 / 5, mTargetTimeFactor = 1, mStaleTimeFactor = 20\<rparr>"

definition work :: "int \<Rightarrow> WorkDuration" where
  "work d = \<lparr>timeStampNanos = 0, durationNanos = d\<rparr>"

theorem convertWorkDurationToBoostByPid_closed_form_witness:
  "pid_ranges sample_adpf 10000000 [work 12000000, work 11000000] 0 0 \<and>
   convertWorkDurationToBoostByPid sample_adpf 10000000 [work 12000000, work 11000000] 0 0 = Some (276, 512, 10)"
proof -
  have r: "pid_ranges sample_adpf 10000000 [work 12000000, work 11000000] 0 0"
    by (simp add: pid_ranges_def sample_adpf_def work_def)
  moreover have ref: "pid_reference sample_adpf 10000000 [work 12000000, work 11000000] 0 0 =
      \<lparr>err_sum = 10, derivative_sum = -10, integral_error = 512, previous_error = 10\<rparr>"
    by (simp add: pid_reference_def errors_def window_start_def clamp_add_def ns_to_100us_def signed_divide_int_def
        sample_adpf_def work_def Let_def)
  moreover have "pid_output sample_adpf (ns_to_100us 10000000) (Suc (Suc 0))
      (pid_reference sample_adpf 10000000 [work 12000000, work 11000000] 0 0) = 276"
    using fl_int [of 0] fl_int [of 20] fl_int [of 256] unfolding ref
    by (simp add: pid_output_def window_start_def sample_adpf_def trunc_def)
  ultimately show ?thesis using convertWorkDurationToBoostByPid_closed_form [OF r] by (simp add: Let_def)
qed


text \<open>
  The lower limit on the target is real: with a target under 100 us the controller divides by zero, whatever the reports are.
\<close>

theorem convertWorkDurationToBoostByPid_short_target:
  assumes "\<bar>target\<bar> < 100000"
  shows "convertWorkDurationToBoostByPid cfg target ws integral prev = None"
proof -
  have "ns_to_100us target = 0"
    using sdiv_abs [of 100000 target] assms by (simp add: ns_to_100us_def)
  then show ?thesis
    by (auto simp: convertWorkDurationToBoostByPid_def Let_def fdiv_def bind_eq_None_conv)
qed

theorem convertWorkDurationToBoostByPid_short_target_witness:
  "convertWorkDurationToBoostByPid sample_adpf 99999 [work 99999] 0 0 = None"
  by (rule convertWorkDurationToBoostByPid_short_target) simp

end
