(* ===== verification/Power_Session.thy ===== *)
theory Power_Session
  imports Adpf_Pid
begin

text \<open>
  The hint sessions of the power service: \<open>PowerSessionManager.cpp\<close>, which keeps the sessions of every thread and sets the
  CPU boost of a thread to the largest its live sessions ask for, and \<open>PowerHintSession.cpp\<close>, whose sessions ask for it.
  Calls are atomic: they run one after the other, as the locks of the two classes make them do.
  What the code asks of \<open>libperfmgr\<close>, the message looper and the kernel is a list of events.
\<close>

section \<open>State\<close>

datatype handler = ManagerHandler | WakeupHandler | StaleTimerHandler nat | EarlyBoostHandler nat

datatype event =
    DoHint string
  | DoHintFor string int
  | EndHint string
  | SetAdpfProfile string
  | SetUclamp int int
  | SetTaskProfiles int string
  | SendMessage handler
  | SendMessageDelayed int handler
  | RemoveMessages handler

datatype status = STATUS_OK | EX_ILLEGAL_STATE | EX_ILLEGAL_ARGUMENT | EX_UNSUPPORTED_OPERATION

text \<open>\<open>AppHintDesc\<close> and the other members of a session in one record; a session is named by a number.\<close>

record session =
  tgid :: int
  uid :: int
  threadIds :: "int list"
  duration :: int
  current_min :: int
  is_active :: bool
  update_count :: nat
  integral_err :: int
  previous_err :: int
  mLastUpdatedTime :: int
  mSessionClosed :: bool
  mLastStartedTimeNs :: int
  mLastDurationNs :: int
  mWorkPeriodNs :: int

text \<open>Both timers of a session are objects of their own, which outlive it.\<close>

record timer =
  mTime :: int
  mIsMonitoring :: bool
  mIsSessionDead :: bool

text \<open>
  \<open>heap\<close> holds the live sessions. An unordered set is a list without repetitions. The last six fields stand for the
  surroundings: the steady clock, the current profile (null is \<open>None\<close>), the hints the device
  knows, which task profiles can be set, the first user id of applications, and what was asked so far.
\<close>

record power =
  heap :: "nat \<Rightarrow> session option"
  stale_timer :: "nat \<Rightarrow> timer option"
  boost_timer :: "nat \<Rightarrow> timer option"
  mSessions :: "nat list"
  mTidRefCountMap :: "int \<Rightarrow> int option"
  mTidSessionListMap :: "int \<Rightarrow> nat list option"
  mActive :: bool
  mDisplayRefreshRate :: int
  kDisableBoostHintName :: string
  now :: int
  adpf :: "AdpfConfig option"
  hint_supported :: "string \<Rightarrow> bool"
  task_profile_ok :: "int \<Rightarrow> string \<Rightarrow> bool"
  AID_APP_START :: int
  events :: "event list"

definition emit :: "event \<Rightarrow> power \<Rightarrow> power" where
  "emit e \<sigma> = \<sigma>\<lparr>events := events \<sigma> @ [e]\<rparr>"

definition set_insert :: "'a \<Rightarrow> 'a list \<Rightarrow> 'a list" where
  "set_insert x xs = (if x \<in> set xs then xs else xs @ [x])"

definition upd_session :: "nat \<Rightarrow> (session \<Rightarrow> session) \<Rightarrow> power \<Rightarrow> power option" where
  "upd_session sid f \<sigma> = do { s \<leftarrow> heap \<sigma> sid; Some (\<sigma>\<lparr>heap := (heap \<sigma>)(sid \<mapsto> f s)\<rparr>) }"

definition upd_stale :: "nat \<Rightarrow> (timer \<Rightarrow> timer) \<Rightarrow> power \<Rightarrow> power option" where
  "upd_stale sid f \<sigma> = do { h \<leftarrow> stale_timer \<sigma> sid; Some (\<sigma>\<lparr>stale_timer := (stale_timer \<sigma>)(sid \<mapsto> f h)\<rparr>) }"

definition upd_boost :: "nat \<Rightarrow> (timer \<Rightarrow> timer) \<Rightarrow> power \<Rightarrow> power option" where
  "upd_boost sid f \<sigma> = do { h \<leftarrow> boost_timer \<sigma> sid; Some (\<sigma>\<lparr>boost_timer := (boost_timer \<sigma>)(sid \<mapsto> f h)\<rparr>) }"

section \<open>Reading a session\<close>

definition scaled :: "int \<Rightarrow> rat \<Rightarrow> int option" where
  "scaled n x = cast64 (fl (fl (of_int n) * x))"

definition getStaleTime :: "AdpfConfig \<Rightarrow> session \<Rightarrow> int option" where
  "getStaleTime cfg s = do {
     x \<leftarrow> scaled (duration s) (mStaleTimeFactor cfg);
     ck64 (mLastUpdatedTime s + x)
   }"

definition isTimeout :: "power \<Rightarrow> session \<Rightarrow> bool option" where
  "isTimeout \<sigma> s = do {
     cfg \<leftarrow> adpf \<sigma>;
     t \<leftarrow> getStaleTime cfg s;
     Some (now \<sigma> \<ge> t)
   }"

definition isAppSession :: "power \<Rightarrow> session \<Rightarrow> bool" where
  "isAppSession \<sigma> s \<longleftrightarrow> uid s \<ge> AID_APP_START \<sigma>"

section \<open>PowerSessionManager\<close>

definition sched_setattr :: "int \<Rightarrow> int \<Rightarrow> power \<Rightarrow> power option" where
  "sched_setattr pid util_min \<sigma> = do {
     cfg \<leftarrow> adpf \<sigma>;
     Some (if \<not> mUclampMinOn cfg then \<sigma> else emit (SetUclamp pid util_min) \<sigma>)
   }"

definition set_uclamp_min :: "int \<Rightarrow> int \<Rightarrow> power \<Rightarrow> power option" where
  "set_uclamp_min tid mn \<sigma> =
     (let mn = max 0 mn;
          mn = min mn 1024 in
      sched_setattr tid mn \<sigma>)"

definition updateHintMode :: "string \<Rightarrow> bool \<Rightarrow> power \<Rightarrow> power" where
  "updateHintMode mode enabled \<sigma> =
     (let \<sigma> =
        (if enabled \<and> take 8 mode = ''REFRESH_'' then
           if mode = ''REFRESH_120FPS'' then \<sigma>\<lparr>mDisplayRefreshRate := 120\<rparr>
           else if mode = ''REFRESH_90FPS'' then \<sigma>\<lparr>mDisplayRefreshRate := 90\<rparr>
           else if mode = ''REFRESH_60FPS'' then \<sigma>\<lparr>mDisplayRefreshRate := 60\<rparr>
           else \<sigma>
         else \<sigma>) in
      if adpf \<sigma> \<noteq> None then emit (SetAdpfProfile mode) \<sigma> else \<sigma>)"

definition updateHintBoost :: "string \<Rightarrow> int \<Rightarrow> power \<Rightarrow> power" where
  "updateHintBoost boost durationMs \<sigma> =
     (if boost = ''DISPLAY_UPDATE_IMMINENT'' then emit (SendMessage WakeupHandler) \<sigma> else \<sigma>)"

definition getDisplayRefreshRate :: "power \<Rightarrow> int" where
  "getDisplayRefreshRate \<sigma> = mDisplayRefreshRate \<sigma>"

fun add_tids :: "nat \<Rightarrow> int list \<Rightarrow> power \<Rightarrow> power option" where
  "add_tids sid [] \<sigma> = Some \<sigma>"
| "add_tids sid (t # ts) \<sigma> =
     (let l = (case mTidSessionListMap \<sigma> t of None \<Rightarrow> [] | Some l \<Rightarrow> l);
          \<sigma> = \<sigma>\<lparr>mTidSessionListMap := (mTidSessionListMap \<sigma>)(t \<mapsto> set_insert sid l)\<rparr> in
      case mTidRefCountMap \<sigma> t of
        None \<Rightarrow>
          (let \<sigma> = emit (SetTaskProfiles t ''ResetUclampGrp'') \<sigma> in
           if \<not> task_profile_ok \<sigma> t ''ResetUclampGrp'' then add_tids sid ts \<sigma>
           else add_tids sid ts (\<sigma>\<lparr>mTidRefCountMap := (mTidRefCountMap \<sigma>)(t \<mapsto> 1)\<rparr>))
      | Some n \<Rightarrow>
          if n \<le> 0 then add_tids sid ts \<sigma>
          else do {
            n \<leftarrow> ck32 (n + 1);
            add_tids sid ts (\<sigma>\<lparr>mTidRefCountMap := (mTidRefCountMap \<sigma>)(t \<mapsto> n)\<rparr>)
          })"

definition addPowerSession :: "nat \<Rightarrow> power \<Rightarrow> power option" where
  "addPowerSession sid \<sigma> = do {
     s \<leftarrow> heap \<sigma> sid;
     \<sigma> \<leftarrow> add_tids sid (threadIds s) \<sigma>;
     Some (\<sigma>\<lparr>mSessions := set_insert sid (mSessions \<sigma>)\<rparr>)
   }"

fun remove_tids :: "nat \<Rightarrow> int list \<Rightarrow> power \<Rightarrow> power option" where
  "remove_tids sid [] \<sigma> = Some \<sigma>"
| "remove_tids sid (t # ts) \<sigma> =
     (case mTidRefCountMap \<sigma> t of
        None \<Rightarrow> remove_tids sid ts \<sigma>
      | Some n \<Rightarrow> do {
          let l = (case mTidSessionListMap \<sigma> t of None \<Rightarrow> [] | Some l \<Rightarrow> l);
          let \<sigma> = \<sigma>\<lparr>mTidSessionListMap := (mTidSessionListMap \<sigma>)(t \<mapsto> removeAll sid l)\<rparr>;
          n \<leftarrow> ck32 (n - 1);
          let \<sigma> = \<sigma>\<lparr>mTidRefCountMap := (mTidRefCountMap \<sigma>)(t \<mapsto> n)\<rparr>;
          let \<sigma> =
            (if n \<le> 0 then
               let \<sigma> = emit (SetTaskProfiles t ''NoResetUclampGrp'') \<sigma> in
               \<sigma>\<lparr>mTidRefCountMap := (mTidRefCountMap \<sigma>)(t := None)\<rparr>
             else \<sigma>);
          remove_tids sid ts \<sigma>
        })"

definition removePowerSession :: "nat \<Rightarrow> power \<Rightarrow> power option" where
  "removePowerSession sid \<sigma> = do {
     s \<leftarrow> heap \<sigma> sid;
     \<sigma> \<leftarrow> remove_tids sid (threadIds s) \<sigma>;
     Some (\<sigma>\<lparr>mSessions := removeAll sid (mSessions \<sigma>)\<rparr>)
   }"

fun tid_max :: "power \<Rightarrow> nat list \<Rightarrow> int \<Rightarrow> int option" where
  "tid_max \<sigma> [] m = Some m"
| "tid_max \<sigma> (sid # sids) m = do {
     s \<leftarrow> heap \<sigma> sid;
     skip \<leftarrow> (if \<not> is_active s then Some True else isTimeout \<sigma> s);
     tid_max \<sigma> sids (if skip then m else max m (current_min s))
   }"

fun uclamp_tids :: "int \<Rightarrow> int list \<Rightarrow> power \<Rightarrow> power option" where
  "uclamp_tids val [] \<sigma> = Some \<sigma>"
| "uclamp_tids val (t # ts) \<sigma> = do {
     let l = (case mTidSessionListMap \<sigma> t of None \<Rightarrow> [] | Some l \<Rightarrow> l);
     let \<sigma> = \<sigma>\<lparr>mTidSessionListMap := (mTidSessionListMap \<sigma>)(t \<mapsto> l)\<rparr>;
     tidMax \<leftarrow> tid_max \<sigma> l 0;
     \<sigma> \<leftarrow> set_uclamp_min t (max val tidMax) \<sigma>;
     uclamp_tids val ts \<sigma>
   }"

definition setUclampMinLocked :: "nat \<Rightarrow> int \<Rightarrow> power \<Rightarrow> power option" where
  "setUclampMinLocked sid val \<sigma> = do {
     s \<leftarrow> heap \<sigma> sid;
     uclamp_tids val (threadIds s) \<sigma>
   }"

definition setUclampMin :: "nat \<Rightarrow> int \<Rightarrow> power \<Rightarrow> power option" where
  "setUclampMin sid val \<sigma> = setUclampMinLocked sid val \<sigma>"

fun any_active :: "power \<Rightarrow> nat list \<Rightarrow> bool option" where
  "any_active \<sigma> [] = Some False"
| "any_active \<sigma> (sid # sids) = do {
     s \<leftarrow> heap \<sigma> sid;
     live \<leftarrow> (if \<not> is_active s then Some False else do { t \<leftarrow> isTimeout \<sigma> s; Some (\<not> t) });
     if live \<and> isAppSession \<sigma> s then Some True else any_active \<sigma> sids
   }"

definition isAnyAppSessionActive :: "power \<Rightarrow> (bool option \<times> power) option" where
  "isAnyAppSessionActive \<sigma> = do {
     active \<leftarrow> any_active \<sigma> (mSessions \<sigma>);
     Some (if active = mActive \<sigma> then (None, \<sigma>) else (Some active, \<sigma>\<lparr>mActive := active\<rparr>))
   }"

definition enableSystemTopAppBoost :: "power \<Rightarrow> power" where
  "enableSystemTopAppBoost \<sigma> =
     (if hint_supported \<sigma> (kDisableBoostHintName \<sigma>) then emit (EndHint (kDisableBoostHintName \<sigma>)) \<sigma> else \<sigma>)"

definition disableSystemTopAppBoost :: "power \<Rightarrow> power" where
  "disableSystemTopAppBoost \<sigma> =
     (if hint_supported \<sigma> (kDisableBoostHintName \<sigma>) then emit (DoHint (kDisableBoostHintName \<sigma>)) \<sigma> else \<sigma>)"

definition manager_handleMessage :: "power \<Rightarrow> power option" where
  "manager_handleMessage \<sigma> = do {
     (active, \<sigma>) \<leftarrow> isAnyAppSessionActive \<sigma>;
     Some (case active of
             None \<Rightarrow> \<sigma>
           | Some a \<Rightarrow> if a then disableSystemTopAppBoost \<sigma> else enableSystemTopAppBoost \<sigma>)
   }"


section \<open>PowerHintSession\<close>

definition updateUniveralBoostMode :: "nat \<Rightarrow> power \<Rightarrow> power option" where
  "updateUniveralBoostMode sid \<sigma> = do {
     s \<leftarrow> heap \<sigma> sid;
     Some (if \<not> isAppSession \<sigma> s then \<sigma> else emit (SendMessage ManagerHandler) \<sigma>)
   }"

definition stale_updateTimer_at :: "nat \<Rightarrow> int \<Rightarrow> power \<Rightarrow> power option" where
  "stale_updateTimer_at sid staleTime \<sigma> = do {
     \<sigma> \<leftarrow> upd_stale sid (\<lambda>h. h\<lparr>mTime := staleTime\<rparr>) \<sigma>;
     let \<sigma> = emit (RemoveMessages (StaleTimerHandler sid)) \<sigma>;
     let \<sigma> = emit (SendMessage (StaleTimerHandler sid)) \<sigma>;
     upd_stale sid (\<lambda>h. h\<lparr>mIsMonitoring := True\<rparr>) \<sigma>
   }"

definition stale_updateTimer :: "nat \<Rightarrow> power \<Rightarrow> power option" where
  "stale_updateTimer sid \<sigma> = do {
     s \<leftarrow> heap \<sigma> sid;
     cfg \<leftarrow> adpf \<sigma>;
     x \<leftarrow> scaled (duration s) (mStaleTimeFactor cfg);
     staleTime \<leftarrow> ck64 (now \<sigma> + x);
     stale_updateTimer_at sid staleTime \<sigma>
   }"

definition setSessionUclampMin :: "nat \<Rightarrow> int \<Rightarrow> power \<Rightarrow> power option" where
  "setSessionUclampMin sid mn \<sigma> = do {
     \<sigma> \<leftarrow> upd_session sid (\<lambda>s. s\<lparr>current_min := mn\<rparr>) \<sigma>;
     \<sigma> \<leftarrow> (if mn \<noteq> 0 then stale_updateTimer sid \<sigma> else Some \<sigma>);
     setUclampMin sid mn \<sigma>
   }"

definition new_timer :: timer where
  "new_timer = \<lparr>mTime = 0, mIsMonitoring = False, mIsSessionDead = False\<rparr>"

text \<open>A session and its timers are named by a number that was never used before.\<close>

definition PowerHintSession :: "nat \<Rightarrow> int \<Rightarrow> int \<Rightarrow> int list \<Rightarrow> int \<Rightarrow> power \<Rightarrow> power option" where
  "PowerHintSession sid tg u tids dur \<sigma> = do {
     started \<leftarrow> ck64 (now \<sigma> - dur);
     let s = \<lparr>tgid = tg, uid = u, threadIds = tids, duration = dur, current_min = 0, is_active = True,
              update_count = 0, integral_err = 0, previous_err = 0, mLastUpdatedTime = now \<sigma>, mSessionClosed = False,
              mLastStartedTimeNs = started, mLastDurationNs = dur, mWorkPeriodNs = dur\<rparr>;
     let \<sigma> = \<sigma>\<lparr>heap := (heap \<sigma>)(sid \<mapsto> s), stale_timer := (stale_timer \<sigma>)(sid \<mapsto> new_timer),
                boost_timer := (boost_timer \<sigma>)(sid \<mapsto> new_timer)\<rparr>;
     \<sigma> \<leftarrow> addPowerSession sid \<sigma>;
     cfg \<leftarrow> adpf \<sigma>;
     setSessionUclampMin sid (to_s32 (int (mUclampMinInit cfg))) \<sigma>
   }"

definition setStale :: "nat \<Rightarrow> power \<Rightarrow> power option" where
  "setStale sid \<sigma> = do {
     \<sigma> \<leftarrow> setUclampMin sid 0 \<sigma>;
     updateUniveralBoostMode sid \<sigma>
   }"

definition pause :: "nat \<Rightarrow> power \<Rightarrow> (status \<times> power) option" where
  "pause sid \<sigma> = do {
     s \<leftarrow> heap \<sigma> sid;
     if mSessionClosed s then Some (EX_ILLEGAL_STATE, \<sigma>)
     else if \<not> is_active s then Some (EX_ILLEGAL_STATE, \<sigma>)
     else do {
       \<sigma> \<leftarrow> upd_session sid (\<lambda>s. s\<lparr>is_active := False\<rparr>) \<sigma>;
       \<sigma> \<leftarrow> setStale sid \<sigma>;
       \<sigma> \<leftarrow> updateUniveralBoostMode sid \<sigma>;
       Some (STATUS_OK, \<sigma>)
     }
   }"

definition resume :: "nat \<Rightarrow> power \<Rightarrow> (status \<times> power) option" where
  "resume sid \<sigma> = do {
     s \<leftarrow> heap \<sigma> sid;
     if mSessionClosed s then Some (EX_ILLEGAL_STATE, \<sigma>)
     else if is_active s then Some (EX_ILLEGAL_STATE, \<sigma>)
     else do {
       \<sigma> \<leftarrow> upd_session sid (\<lambda>s. s\<lparr>is_active := True\<rparr>) \<sigma>;
       s \<leftarrow> heap \<sigma> sid;
       \<sigma> \<leftarrow> setSessionUclampMin sid (current_min s) \<sigma>;
       \<sigma> \<leftarrow> updateUniveralBoostMode sid \<sigma>;
       Some (STATUS_OK, \<sigma>)
     }
   }"

definition stale_setSessionDead :: "nat \<Rightarrow> power \<Rightarrow> power option" where
  "stale_setSessionDead sid \<sigma> = do {
     \<sigma> \<leftarrow> upd_stale sid (\<lambda>h. h\<lparr>mIsSessionDead := True\<rparr>) \<sigma>;
     Some (emit (RemoveMessages (StaleTimerHandler sid)) \<sigma>)
   }"

definition boost_setSessionDead :: "nat \<Rightarrow> power \<Rightarrow> power option" where
  "boost_setSessionDead sid \<sigma> = do {
     \<sigma> \<leftarrow> upd_boost sid (\<lambda>h. h\<lparr>mIsSessionDead := True\<rparr>) \<sigma>;
     Some (emit (RemoveMessages (EarlyBoostHandler sid)) \<sigma>)
   }"

definition close :: "nat \<Rightarrow> power \<Rightarrow> (status \<times> power) option" where
  "close sid \<sigma> = do {
     s \<leftarrow> heap \<sigma> sid;
     if mSessionClosed s then Some (EX_ILLEGAL_STATE, \<sigma>)
     else do {
       \<sigma> \<leftarrow> upd_session sid (\<lambda>s. s\<lparr>mSessionClosed := True\<rparr>) \<sigma>;
       \<sigma> \<leftarrow> removePowerSession sid \<sigma>;
       \<sigma> \<leftarrow> setSessionUclampMin sid 0 \<sigma>;
       \<sigma> \<leftarrow> upd_session sid (\<lambda>s. s\<lparr>mSessionClosed := True\<rparr>) \<sigma>;
       \<sigma> \<leftarrow> upd_session sid (\<lambda>s. s\<lparr>is_active := False\<rparr>) \<sigma>;
       \<sigma> \<leftarrow> boost_setSessionDead sid \<sigma>;
       \<sigma> \<leftarrow> stale_setSessionDead sid \<sigma>;
       \<sigma> \<leftarrow> updateUniveralBoostMode sid \<sigma>;
       Some (STATUS_OK, \<sigma>)
     }
   }"

definition delete_PowerHintSession :: "nat \<Rightarrow> power \<Rightarrow> power option" where
  "delete_PowerHintSession sid \<sigma> = do {
     (st, \<sigma>) \<leftarrow> close sid \<sigma>;
     Some (\<sigma>\<lparr>heap := (heap \<sigma>)(sid := None)\<rparr>)
   }"

definition updateTargetWorkDuration :: "nat \<Rightarrow> int \<Rightarrow> power \<Rightarrow> (status \<times> power) option" where
  "updateTargetWorkDuration sid targetDurationNanos \<sigma> = do {
     s \<leftarrow> heap \<sigma> sid;
     if mSessionClosed s then Some (EX_ILLEGAL_STATE, \<sigma>)
     else if targetDurationNanos \<le> 0 then Some (EX_ILLEGAL_ARGUMENT, \<sigma>)
     else do {
       cfg \<leftarrow> adpf \<sigma>;
       targetDurationNanos \<leftarrow> scaled targetDurationNanos (mTargetTimeFactor cfg);
       \<sigma> \<leftarrow> upd_session sid (\<lambda>s. s\<lparr>duration := targetDurationNanos\<rparr>) \<sigma>;
       Some (STATUS_OK, \<sigma>)
     }
   }"

definition updateWorkPeriod :: "nat \<Rightarrow> WorkDuration list \<Rightarrow> power \<Rightarrow> power option" where
  "updateWorkPeriod sid actualDurations \<sigma> =
     (if length actualDurations = 0 then Some \<sigma>
      else do {
        s \<leftarrow> heap \<sigma> sid;
        started \<leftarrow>
          (if length actualDurations \<ge> 2 then
             let last = actualDurations ! (length actualDurations - 2) in
             ck64 (timeStampNanos last - durationNanos last)
           else Some (mLastStartedTimeNs s));
        let current = last actualDurations;
        curr_start \<leftarrow> ck64 (timeStampNanos current - durationNanos current);
        period \<leftarrow> ck64 (curr_start - started);
        in_range \<leftarrow> (if period > 0 then do { d2 \<leftarrow> ck64 (duration s * 2); Some (period < d2) } else Some False);
        work_period \<leftarrow>
          (if in_range then
             cast64 (fl (fl (fl (9 / 10) * fl (of_int (mWorkPeriodNs s))) + fl (fl (1 / 10) * fl (of_int period))))
           else Some (mWorkPeriodNs s));
        upd_session sid (\<lambda>s. s\<lparr>mWorkPeriodNs := work_period, mLastStartedTimeNs := curr_start,
          mLastDurationNs := durationNanos current\<rparr>) \<sigma>
      })"

definition getEarlyBoostTime :: "AdpfConfig \<Rightarrow> session \<Rightarrow> int option" where
  "getEarlyBoostTime cfg s = do {
     earlyBoostTimeoutNs \<leftarrow> scaled (duration s) (mEarlyBoostTimeFactor cfg);
     rest \<leftarrow> ck64 (mWorkPeriodNs s - mLastDurationNs s);
     nextStartTime \<leftarrow> ck64 (mLastUpdatedTime s + rest);
     ck64 (nextStartTime + earlyBoostTimeoutNs)
   }"

definition boost_updateTimer :: "nat \<Rightarrow> int \<Rightarrow> power \<Rightarrow> power option" where
  "boost_updateTimer sid boostTime \<sigma> = do {
     \<sigma> \<leftarrow> upd_boost sid (\<lambda>h. h\<lparr>mTime := boostTime\<rparr>) \<sigma>;
     let \<sigma> = emit (RemoveMessages (EarlyBoostHandler sid)) \<sigma>;
     let \<sigma> = emit (SendMessage (EarlyBoostHandler sid)) \<sigma>;
     upd_boost sid (\<lambda>h. h\<lparr>mIsMonitoring := True\<rparr>) \<sigma>
   }"

text \<open>The last part of a report, once the profile says that the controller is on.\<close>

definition next_boost :: "AdpfConfig \<Rightarrow> int \<Rightarrow> int \<Rightarrow> int option" where
  "next_boost cfg cur output = do {
     x \<leftarrow> ck32 (cur + to_s32 output);
     let next_min = min (to_s32 (int (mUclampMinHigh cfg))) x;
     Some (max (to_s32 (int (mUclampMinLow cfg))) next_min)
   }"

definition report_pid :: "AdpfConfig \<Rightarrow> nat \<Rightarrow> WorkDuration list \<Rightarrow> power \<Rightarrow> power option" where
  "report_pid cfg sid actualDurations \<sigma> = do {
     s \<leftarrow> heap \<sigma> sid;
     (output, integral, previous) \<leftarrow>
       convertWorkDurationToBoostByPid cfg (duration s) actualDurations (integral_err s) (previous_err s);
     \<sigma> \<leftarrow> upd_session sid (\<lambda>s. s\<lparr>integral_err := integral, previous_err := previous\<rparr>) \<sigma>;
     next_min \<leftarrow> next_boost cfg (current_min s) output;
     \<sigma> \<leftarrow> setSessionUclampMin sid next_min \<sigma>;
     s \<leftarrow> heap \<sigma> sid;
     staleTime \<leftarrow> getStaleTime cfg s;
     \<sigma> \<leftarrow> stale_updateTimer_at sid staleTime \<sigma>;
     if mEarlyBoostOn cfg then do {
       \<sigma> \<leftarrow> updateWorkPeriod sid actualDurations \<sigma>;
       s \<leftarrow> heap \<sigma> sid;
       boostTime \<leftarrow> getEarlyBoostTime cfg s;
       boost_updateTimer sid boostTime \<sigma>
     } else Some \<sigma>
   }"

definition reportActualWorkDuration :: "nat \<Rightarrow> WorkDuration list \<Rightarrow> power \<Rightarrow> (status \<times> power) option" where
  "reportActualWorkDuration sid actualDurations \<sigma> = do {
     s \<leftarrow> heap \<sigma> sid;
     if mSessionClosed s then Some (EX_ILLEGAL_STATE, \<sigma>)
     else if duration s = 0 then Some (EX_ILLEGAL_STATE, \<sigma>)
     else if length actualDurations = 0 then Some (EX_ILLEGAL_ARGUMENT, \<sigma>)
     else if \<not> is_active s then Some (EX_ILLEGAL_STATE, \<sigma>)
     else do {
       cfg \<leftarrow> adpf \<sigma>;
       \<sigma> \<leftarrow> upd_session sid (\<lambda>s. s\<lparr>update_count := (update_count s + 1) mod 2 ^ 64\<rparr>) \<sigma>;
       isFirstFrame \<leftarrow> isTimeout \<sigma> s;
       \<sigma> \<leftarrow> upd_session sid (\<lambda>s. s\<lparr>mLastUpdatedTime := now \<sigma>\<rparr>) \<sigma>;
       \<sigma> \<leftarrow> (if isFirstFrame then updateUniveralBoostMode sid \<sigma> else Some \<sigma>);
       \<sigma> \<leftarrow> (if \<not> mPidOn cfg then setSessionUclampMin sid (to_s32 (int (mUclampMinHigh cfg))) \<sigma>
            else report_pid cfg sid actualDurations \<sigma>);
       Some (STATUS_OK, \<sigma>)
     }
   }"

definition wakeup :: "nat \<Rightarrow> power \<Rightarrow> power option" where
  "wakeup sid \<sigma> = do {
     s \<leftarrow> heap \<sigma> sid;
     if mSessionClosed s \<or> \<not> is_active s then Some \<sigma>
     else do {
       t \<leftarrow> isTimeout \<sigma> s;
       if \<not> t then Some \<sigma>
       else do {
         cfg \<leftarrow> adpf \<sigma>;
         let mn = max (current_min s) (to_s32 (int (mUclampMinInit cfg)));
         \<sigma> \<leftarrow> upd_session sid (\<lambda>s. s\<lparr>current_min := mn\<rparr>) \<sigma>;
         \<sigma> \<leftarrow> setUclampMinLocked sid mn \<sigma>;
         stale_updateTimer sid \<sigma>
       }
     }
   }"

fun wake_all :: "nat list \<Rightarrow> power \<Rightarrow> power option" where
  "wake_all [] \<sigma> = Some \<sigma>"
| "wake_all (sid # sids) \<sigma> = do { \<sigma> \<leftarrow> wakeup sid \<sigma>; wake_all sids \<sigma> }"

definition wakeSessions :: "power \<Rightarrow> power option" where
  "wakeSessions \<sigma> = wake_all (mSessions \<sigma>) \<sigma>"

text \<open>
  The handler of the stale timer in two parts, because nothing keeps the session alive between the test of
  \<open>mIsSessionDead\<close> and the use of \<open>mSession\<close>.
\<close>

definition stale_expired :: "nat \<Rightarrow> power \<Rightarrow> power option" where
  "stale_expired sid \<sigma> = do {
     h \<leftarrow> stale_timer \<sigma> sid;
     next \<leftarrow> ck64 (mTime h - now \<sigma>);
     if next > 0 then
       Some (emit (SendMessageDelayed next (StaleTimerHandler sid)) (emit (RemoveMessages (StaleTimerHandler sid)) \<sigma>))
     else do {
       \<sigma> \<leftarrow> setStale sid \<sigma>;
       upd_stale sid (\<lambda>h. h\<lparr>mIsMonitoring := False\<rparr>) \<sigma>
     }
   }"

definition stale_handleMessage :: "nat \<Rightarrow> power \<Rightarrow> power option" where
  "stale_handleMessage sid \<sigma> = do {
     h \<leftarrow> stale_timer \<sigma> sid;
     if mIsSessionDead h then Some \<sigma> else stale_expired sid \<sigma>
   }"

definition boost_handleMessage :: "nat \<Rightarrow> power \<Rightarrow> power option" where
  "boost_handleMessage sid \<sigma> = do {
     h \<leftarrow> boost_timer \<sigma> sid;
     if mIsSessionDead h then Some \<sigma>
     else do {
       next \<leftarrow> ck64 (mTime h - now \<sigma>);
       if next > 0 then
         Some (emit (SendMessageDelayed next (EarlyBoostHandler sid)) (emit (RemoveMessages (EarlyBoostHandler sid)) \<sigma>))
       else do {
         cfg \<leftarrow> adpf \<sigma>;
         \<sigma> \<leftarrow> setUclampMin sid (to_s32 (int (mUclampMinHigh cfg))) \<sigma>;
         upd_boost sid (\<lambda>h. h\<lparr>mIsMonitoring := False\<rparr>) \<sigma>
       }
     }
   }"

end
