(* ===== verification/Power_Invariant.thy ===== *)
theory Power_Invariant
  imports Power_Session
begin

text \<open>
  What holds of the sessions in every execution: the tables of the manager agree with the sessions that exist, the
  requests to the kernel and to \<open>libperfmgr\<close> are in order, and no message ever touches a session that is gone.
\<close>

section \<open>Operations that leave the tables alone\<close>

definition tid_sessions :: "power \<Rightarrow> int \<Rightarrow> nat list" where
  "tid_sessions \<sigma> t = (case mTidSessionListMap \<sigma> t of None \<Rightarrow> [] | Some l \<Rightarrow> l)"

definition tids :: "power \<Rightarrow> nat \<Rightarrow> int list" where
  "tids \<sigma> sid = (case heap \<sigma> sid of None \<Rightarrow> [] | Some s \<Rightarrow> threadIds s)"

definition is_open :: "power \<Rightarrow> nat \<Rightarrow> bool" where
  "is_open \<sigma> sid \<longleftrightarrow> (\<exists>s. heap \<sigma> sid = Some s \<and> \<not> mSessionClosed s)"

definition live_timer :: "(nat \<Rightarrow> timer option) \<Rightarrow> nat \<Rightarrow> bool" where
  "live_timer m sid \<longleftrightarrow> (\<exists>h. m sid = Some h \<and> \<not> mIsSessionDead h)"

text \<open>The parts of the state the invariants speak about, and the surroundings.\<close>

definition tables where
  "tables \<sigma> = (dom (heap \<sigma>), tids \<sigma>, is_open \<sigma>, mSessions \<sigma>, mTidRefCountMap \<sigma>, tid_sessions \<sigma>,
     dom (stale_timer \<sigma>), dom (boost_timer \<sigma>), live_timer (stale_timer \<sigma>), live_timer (boost_timer \<sigma>))"

definition surroundings where
  "surroundings \<sigma> = (now \<sigma>, adpf \<sigma>, hint_supported \<sigma>, task_profile_ok \<sigma>, AID_APP_START \<sigma>, kDisableBoostHintName \<sigma>)"

definition quiet_event :: "event \<Rightarrow> bool" where
  "quiet_event e = (case e of DoHint n \<Rightarrow> False | EndHint n \<Rightarrow> False | SetUclamp t v \<Rightarrow> 0 \<le> v \<and> v \<le> 1024 | _ \<Rightarrow> True)"

lemma quiet_event_simps [simp]:
  "quiet_event (SendMessage h)" "quiet_event (SendMessageDelayed n h)" "quiet_event (RemoveMessages h)"
  "quiet_event (SetTaskProfiles t p)" "quiet_event (SetAdpfProfile p)" "quiet_event (DoHintFor m d)"
  "quiet_event (SetUclamp t v) \<longleftrightarrow> 0 \<le> v \<and> v \<le> 1024" "\<not> quiet_event (DoHint m)" "\<not> quiet_event (EndHint m)"
  by (simp_all add: quiet_event_def)

definition grows :: "power \<Rightarrow> power \<Rightarrow> bool" where
  "grows \<sigma> \<sigma>' \<longleftrightarrow> surroundings \<sigma>' = surroundings \<sigma> \<and> mActive \<sigma>' = mActive \<sigma> \<and>
     (\<exists>es. events \<sigma>' = events \<sigma> @ es \<and> list_all quiet_event es)"

definition quiet :: "power \<Rightarrow> power \<Rightarrow> bool" where
  "quiet \<sigma> \<sigma>' \<longleftrightarrow> tables \<sigma>' = tables \<sigma> \<and> grows \<sigma> \<sigma>'"


text \<open>
  A relation between states that the elementary steps respect is respected by every operation on an
  existing session, because the operations are made of nothing else.
\<close>

locale frame =
  fixes R :: "power \<Rightarrow> power \<Rightarrow> bool"
  assumes R_refl: "\<And>\<sigma>. R \<sigma> \<sigma>"
    and R_trans: "\<And>\<sigma> \<sigma>1 \<sigma>2. R \<sigma> \<sigma>1 \<Longrightarrow> R \<sigma>1 \<sigma>2 \<Longrightarrow> R \<sigma> \<sigma>2"
    and R_emit: "\<And>\<sigma> e. quiet_event e \<Longrightarrow> R \<sigma> (emit e \<sigma>)"
    and R_lists: "\<And>\<sigma> t. R \<sigma> (\<sigma>\<lparr>mTidSessionListMap := (mTidSessionListMap \<sigma>)(t \<mapsto> tid_sessions \<sigma> t)\<rparr>)"
    and R_session: "\<And>\<sigma> sid s s'. heap \<sigma> sid = Some s \<Longrightarrow> threadIds s' = threadIds s \<Longrightarrow> mSessionClosed s' = mSessionClosed s \<Longrightarrow>
       R \<sigma> (\<sigma>\<lparr>heap := (heap \<sigma>)(sid \<mapsto> s')\<rparr>)"
    and R_stale: "\<And>\<sigma> sid h h'. stale_timer \<sigma> sid = Some h \<Longrightarrow> mIsSessionDead h' = mIsSessionDead h \<Longrightarrow>
       R \<sigma> (\<sigma>\<lparr>stale_timer := (stale_timer \<sigma>)(sid \<mapsto> h')\<rparr>)"
    and R_boost: "\<And>\<sigma> sid h h'. boost_timer \<sigma> sid = Some h \<Longrightarrow> mIsSessionDead h' = mIsSessionDead h \<Longrightarrow>
       R \<sigma> (\<sigma>\<lparr>boost_timer := (boost_timer \<sigma>)(sid \<mapsto> h')\<rparr>)"
begin

lemma upd_session: "upd_session sid f \<sigma> = Some \<sigma>' \<Longrightarrow> (\<And>s. threadIds (f s) = threadIds s) \<Longrightarrow>
    (\<And>s. mSessionClosed (f s) = mSessionClosed s) \<Longrightarrow> R \<sigma> \<sigma>'"
  by (auto simp: upd_session_def bind_eq_Some_conv intro: R_session)

lemma upd_stale: "upd_stale sid f \<sigma> = Some \<sigma>' \<Longrightarrow> (\<And>h. mIsSessionDead (f h) = mIsSessionDead h) \<Longrightarrow> R \<sigma> \<sigma>'"
  by (auto simp: upd_stale_def bind_eq_Some_conv intro: R_stale)

lemma upd_boost: "upd_boost sid f \<sigma> = Some \<sigma>' \<Longrightarrow> (\<And>h. mIsSessionDead (f h) = mIsSessionDead h) \<Longrightarrow> R \<sigma> \<sigma>'"
  by (auto simp: upd_boost_def bind_eq_Some_conv intro: R_boost)

lemma emits: "R \<sigma> \<sigma>1 \<Longrightarrow> quiet_event e \<Longrightarrow> R \<sigma> (emit e \<sigma>1)"
  using R_emit R_trans by blast

lemma set_uclamp_min: "set_uclamp_min t v \<sigma> = Some \<sigma>' \<Longrightarrow> R \<sigma> \<sigma>'"
  by (auto simp: set_uclamp_min_def sched_setattr_def bind_eq_Some_conv intro!: R_emit R_refl)

lemma uclamp_tids: "uclamp_tids v ts \<sigma> = Some \<sigma>' \<Longrightarrow> R \<sigma> \<sigma>'"
proof (induction ts arbitrary: \<sigma>)
  case Nil
  then show ?case by (simp add: R_refl)
next
  case (Cons t ts)
  let ?\<sigma> = "\<sigma>\<lparr>mTidSessionListMap := (mTidSessionListMap \<sigma>)(t \<mapsto> tid_sessions \<sigma> t)\<rparr>"
  from Cons.prems obtain m \<sigma>1 where "set_uclamp_min t m ?\<sigma> = Some \<sigma>1" and "uclamp_tids v ts \<sigma>1 = Some \<sigma>'"
    by (auto simp: bind_eq_Some_conv Let_def simp flip: tid_sessions_def)
  then show ?case using R_lists R_trans set_uclamp_min Cons.IH by blast
qed

lemma setUclampMin: "setUclampMin sid v \<sigma> = Some \<sigma>' \<Longrightarrow> R \<sigma> \<sigma>'"
  by (auto simp: setUclampMin_def setUclampMinLocked_def bind_eq_Some_conv intro: uclamp_tids)

lemma updateUniveralBoostMode: "updateUniveralBoostMode sid \<sigma> = Some \<sigma>' \<Longrightarrow> R \<sigma> \<sigma>'"
  by (auto simp: updateUniveralBoostMode_def bind_eq_Some_conv intro!: R_emit R_refl)

lemma stale_updateTimer_at: "stale_updateTimer_at sid x \<sigma> = Some \<sigma>' \<Longrightarrow> R \<sigma> \<sigma>'"
proof -
  assume "stale_updateTimer_at sid x \<sigma> = Some \<sigma>'"
  then obtain \<sigma>1 where 1: "upd_stale sid (\<lambda>h. h\<lparr>mTime := x\<rparr>) \<sigma> = Some \<sigma>1"
    and 2: "upd_stale sid (\<lambda>h. h\<lparr>mIsMonitoring := True\<rparr>)
      (emit (SendMessage (StaleTimerHandler sid)) (emit (RemoveMessages (StaleTimerHandler sid)) \<sigma>1)) = Some \<sigma>'"
    by (auto simp: stale_updateTimer_at_def bind_eq_Some_conv)
  show ?thesis by (rule R_trans [OF emits [OF emits [OF upd_stale [OF 1]]] upd_stale [OF 2]]) simp_all
qed

lemma boost_updateTimer: "boost_updateTimer sid x \<sigma> = Some \<sigma>' \<Longrightarrow> R \<sigma> \<sigma>'"
proof -
  assume "boost_updateTimer sid x \<sigma> = Some \<sigma>'"
  then obtain \<sigma>1 where 1: "upd_boost sid (\<lambda>h. h\<lparr>mTime := x\<rparr>) \<sigma> = Some \<sigma>1"
    and 2: "upd_boost sid (\<lambda>h. h\<lparr>mIsMonitoring := True\<rparr>)
      (emit (SendMessage (EarlyBoostHandler sid)) (emit (RemoveMessages (EarlyBoostHandler sid)) \<sigma>1)) = Some \<sigma>'"
    by (auto simp: boost_updateTimer_def bind_eq_Some_conv)
  show ?thesis by (rule R_trans [OF emits [OF emits [OF upd_boost [OF 1]]] upd_boost [OF 2]]) simp_all
qed

lemma stale_updateTimer: "stale_updateTimer sid \<sigma> = Some \<sigma>' \<Longrightarrow> R \<sigma> \<sigma>'"
  by (auto simp: stale_updateTimer_def bind_eq_Some_conv intro: stale_updateTimer_at)

lemma setSessionUclampMin: "setSessionUclampMin sid v \<sigma> = Some \<sigma>' \<Longrightarrow> R \<sigma> \<sigma>'"
  unfolding setSessionUclampMin_def bind_eq_Some_conv
  by (elim exE conjE, rule R_trans [OF upd_session], assumption, simp, simp)
    (auto split: if_splits intro: R_trans stale_updateTimer setUclampMin)

lemma setStale: "setStale sid \<sigma> = Some \<sigma>' \<Longrightarrow> R \<sigma> \<sigma>'"
  by (auto simp: setStale_def bind_eq_Some_conv intro: R_trans setUclampMin updateUniveralBoostMode)

text \<open>
  The other operations, in the form of a rule for each call inside them: the state so far is related to the first one, and so is
  the state after the call.
\<close>

lemma call: "ends m (R \<sigma>1) \<Longrightarrow> R \<sigma> \<sigma>1 \<Longrightarrow> (\<And>\<sigma>2. R \<sigma> \<sigma>2 \<Longrightarrow> ends (k \<sigma>2) Q) \<Longrightarrow> ends (m \<bind> k) Q"
  using R_trans by (cases m) (auto simp: ends_def)

lemma call_last: "ends m (R \<sigma>1) \<Longrightarrow> R \<sigma> \<sigma>1 \<Longrightarrow> ends m (R \<sigma>)"
  using R_trans by (auto simp: ends_def)

lemma ops:
  "(\<And>s. threadIds (f s) = threadIds s) \<Longrightarrow> (\<And>s. mSessionClosed (f s) = mSessionClosed s) \<Longrightarrow> ends (upd_session sid f \<sigma>) (R \<sigma>)"
  "(\<And>h. mIsSessionDead (g h) = mIsSessionDead h) \<Longrightarrow> ends (upd_stale sid g \<sigma>) (R \<sigma>)"
  "(\<And>h. mIsSessionDead (g h) = mIsSessionDead h) \<Longrightarrow> ends (upd_boost sid g \<sigma>) (R \<sigma>)"
  "ends (setUclampMin sid v \<sigma>) (R \<sigma>)" "ends (updateUniveralBoostMode sid \<sigma>) (R \<sigma>)"
  "ends (stale_updateTimer_at sid v \<sigma>) (R \<sigma>)" "ends (boost_updateTimer sid v \<sigma>) (R \<sigma>)"
  "ends (stale_updateTimer sid \<sigma>) (R \<sigma>)" "ends (setSessionUclampMin sid v \<sigma>) (R \<sigma>)" "ends (setStale sid \<sigma>) (R \<sigma>)"
  using upd_session upd_stale upd_boost setUclampMin updateUniveralBoostMode stale_updateTimer_at boost_updateTimer
    stale_updateTimer setSessionUclampMin setStale
  by (simp_all add: ends_def)

lemmas calls = ops [THEN call] ops [THEN call_last]

lemmas reads =
  ends_val [where m = "heap \<sigma> sid" for \<sigma> sid] ends_val [where m = "adpf \<sigma>" for \<sigma>] ends_val [where m = "ck64 x" for x]
  ends_val [where m = "stale_timer \<sigma> sid" for \<sigma> sid] ends_val [where m = "boost_timer \<sigma> sid" for \<sigma> sid]
  ends_val [where m = "scaled n x" for n x] ends_val [where m = "isTimeout \<sigma> s" for \<sigma> s]
  ends_val [where m = "getStaleTime cfg s" for cfg s] ends_val [where m = "getEarlyBoostTime cfg s" for cfg s]
  ends_val [where m = "next_boost cfg x y" for cfg x y]
  ends_val [where m = "convertWorkDurationToBoostByPid cfg n ws x y" for cfg n ws x y]

lemma updateWorkPeriod: "ends (updateWorkPeriod sid ws \<sigma>) (R \<sigma>)"
  unfolding updateWorkPeriod_def by (auto simp: Let_def intro!: R_refl calls ends_val)

lemma report_pid: "ends (report_pid cfg sid ws \<sigma>) (R \<sigma>)"
  unfolding report_pid_def by (auto simp: Let_def intro!: R_refl calls updateWorkPeriod [THEN call] reads)

lemma reportActualWorkDuration: "ends (reportActualWorkDuration sid ws \<sigma>) (\<lambda>(st, \<sigma>'). R \<sigma> \<sigma>')"
  unfolding reportActualWorkDuration_def by (auto simp: Let_def intro!: R_refl calls report_pid [THEN call] reads) (rule R_refl)

lemma pause: "ends (pause sid \<sigma>) (\<lambda>(st, \<sigma>'). R \<sigma> \<sigma>')"
  unfolding pause_def by (auto intro!: R_refl calls reads)

lemma resume: "ends (resume sid \<sigma>) (\<lambda>(st, \<sigma>'). R \<sigma> \<sigma>')"
  unfolding resume_def by (auto intro!: R_refl calls reads)

lemma updateTargetWorkDuration: "ends (updateTargetWorkDuration sid n \<sigma>) (\<lambda>(st, \<sigma>'). R \<sigma> \<sigma>')"
  unfolding updateTargetWorkDuration_def by (auto intro!: R_refl calls reads)

lemma wakeup: "ends (wakeup sid \<sigma>) (R \<sigma>)"
  unfolding wakeup_def setUclampMin_def [symmetric] by (auto simp: Let_def intro!: R_refl calls reads) (rule R_refl)

lemma wakeSessions: "ends (wakeSessions \<sigma>) (R \<sigma>)"
proof -
  have "R \<sigma> \<sigma>1 \<Longrightarrow> ends (wake_all sids \<sigma>1) (R \<sigma>)" for sids \<sigma>1
    by (induction sids arbitrary: \<sigma>1) (auto intro!: wakeup [THEN call])
  then show ?thesis by (simp add: wakeSessions_def R_refl)
qed

lemma stale_handleMessage: "ends (stale_handleMessage sid \<sigma>) (R \<sigma>)"
  unfolding stale_handleMessage_def stale_expired_def by (auto intro!: R_refl emits calls reads) (rule R_refl)

lemma boost_handleMessage: "ends (boost_handleMessage sid \<sigma>) (R \<sigma>)"
  unfolding boost_handleMessage_def by (auto intro!: R_refl emits calls reads) (rule R_refl)

end


lemma grows_refl: "grows \<sigma> \<sigma>"
  by (simp add: grows_def)

lemma grows_trans: "grows \<sigma> \<sigma>1 \<Longrightarrow> grows \<sigma>1 \<sigma>2 \<Longrightarrow> grows \<sigma> \<sigma>2"
  by (auto simp: grows_def)

lemma emit_fields [simp]:
  "heap (emit e \<sigma>) = heap \<sigma>" "stale_timer (emit e \<sigma>) = stale_timer \<sigma>" "boost_timer (emit e \<sigma>) = boost_timer \<sigma>"
  "mSessions (emit e \<sigma>) = mSessions \<sigma>" "mTidRefCountMap (emit e \<sigma>) = mTidRefCountMap \<sigma>"
  "mTidSessionListMap (emit e \<sigma>) = mTidSessionListMap \<sigma>" "mActive (emit e \<sigma>) = mActive \<sigma>"
  "surroundings (emit e \<sigma>) = surroundings \<sigma>" "tables (emit e \<sigma>) = tables \<sigma>" "events (emit e \<sigma>) = events \<sigma> @ [e]"
  "now (emit e \<sigma>) = now \<sigma>" "adpf (emit e \<sigma>) = adpf \<sigma>" "task_profile_ok (emit e \<sigma>) = task_profile_ok \<sigma>"
  "hint_supported (emit e \<sigma>) = hint_supported \<sigma>" "AID_APP_START (emit e \<sigma>) = AID_APP_START \<sigma>"
  "kDisableBoostHintName (emit e \<sigma>) = kDisableBoostHintName \<sigma>"
  by (simp_all add: emit_def surroundings_def tables_def tids_def is_open_def tid_sessions_def fun_eq_iff)

lemma tables_session:
  assumes "heap \<sigma> sid = Some s" and "threadIds s' = threadIds s" and "mSessionClosed s' = mSessionClosed s"
  shows "tables (\<sigma>\<lparr>heap := (heap \<sigma>)(sid \<mapsto> s')\<rparr>) = tables \<sigma>"
  using assms by (auto simp: tables_def tids_def is_open_def tid_sessions_def fun_eq_iff)

lemma live_timer_upd: "m sid = Some h \<Longrightarrow> mIsSessionDead h' = mIsSessionDead h \<Longrightarrow> live_timer (m(sid \<mapsto> h')) = live_timer m"
  by (auto simp: live_timer_def fun_eq_iff)

lemma tables_timers:
  "stale_timer \<sigma> sid = Some h \<Longrightarrow> mIsSessionDead h' = mIsSessionDead h \<Longrightarrow>
     tables (\<sigma>\<lparr>stale_timer := (stale_timer \<sigma>)(sid \<mapsto> h')\<rparr>) = tables \<sigma>"
  "boost_timer \<sigma> sid = Some h \<Longrightarrow> mIsSessionDead h' = mIsSessionDead h \<Longrightarrow>
     tables (\<sigma>\<lparr>boost_timer := (boost_timer \<sigma>)(sid \<mapsto> h')\<rparr>) = tables \<sigma>"
  by (auto simp: tables_def tids_def is_open_def tid_sessions_def fun_eq_iff live_timer_upd)

lemma tables_lists: "tables (\<sigma>\<lparr>mTidSessionListMap := (mTidSessionListMap \<sigma>)(t \<mapsto> tid_sessions \<sigma> t)\<rparr>) = tables \<sigma>"
  by (auto simp: tables_def tids_def is_open_def tid_sessions_def fun_eq_iff)

interpretation quiet: frame quiet
proof unfold_locales
  show "quiet \<sigma> \<sigma>" for \<sigma> by (simp add: quiet_def grows_refl)
  show "quiet \<sigma> \<sigma>1 \<Longrightarrow> quiet \<sigma>1 \<sigma>2 \<Longrightarrow> quiet \<sigma> \<sigma>2" for \<sigma> \<sigma>1 \<sigma>2
    using grows_trans by (auto simp: quiet_def)
  show "quiet_event e \<Longrightarrow> quiet \<sigma> (emit e \<sigma>)" for \<sigma> e by (simp add: quiet_def grows_def)
qed (simp_all add: quiet_def tables_session tables_timers tables_lists, simp_all add: grows_def surroundings_def)


section \<open>The invariant of the tables\<close>

definition refs :: "power \<Rightarrow> int \<Rightarrow> nat" where
  "refs \<sigma> t = sum_list (map (\<lambda>sid. count_list (tids \<sigma> sid) t) (mSessions \<sigma>))"

definition ref_ok :: "power \<Rightarrow> (int \<Rightarrow> nat) \<Rightarrow> bool" where
  "ref_ok \<sigma> r \<longleftrightarrow> (\<forall>t. mTidRefCountMap \<sigma> t = (if r t = 0 then None else Some (int (r t))))"

text \<open>
  The sessions of the manager are the ones that exist and are not closed, every thread lists exactly the sessions that name it, its count is
  the number of times they do, and a timer that is not dead belongs to an open session.
\<close>

definition power_inv :: "power \<Rightarrow> bool" where
  "power_inv \<sigma> \<longleftrightarrow>
     distinct (mSessions \<sigma>) \<and> (\<forall>sid. sid \<in> set (mSessions \<sigma>) \<longleftrightarrow> is_open \<sigma> sid) \<and>
     (\<forall>t sid. sid \<in> set (tid_sessions \<sigma> t) \<longleftrightarrow> is_open \<sigma> sid \<and> t \<in> set (tids \<sigma> sid)) \<and>
     ref_ok \<sigma> (refs \<sigma>) \<and>
     (\<forall>sid. live_timer (stale_timer \<sigma>) sid \<or> live_timer (boost_timer \<sigma>) sid \<longrightarrow> is_open \<sigma> sid) \<and>
     dom (heap \<sigma>) \<subseteq> dom (stale_timer \<sigma>) \<inter> dom (boost_timer \<sigma>)"

lemma power_invD:
  assumes "power_inv \<sigma>"
  shows "distinct (mSessions \<sigma>)" "\<And>sid. sid \<in> set (mSessions \<sigma>) \<longleftrightarrow> is_open \<sigma> sid"
    "\<And>t sid. sid \<in> set (tid_sessions \<sigma> t) \<longleftrightarrow> is_open \<sigma> sid \<and> t \<in> set (tids \<sigma> sid)" "ref_ok \<sigma> (refs \<sigma>)"
    "\<And>sid. live_timer (stale_timer \<sigma>) sid \<Longrightarrow> is_open \<sigma> sid" "\<And>sid. live_timer (boost_timer \<sigma>) sid \<Longrightarrow> is_open \<sigma> sid"
    "dom (heap \<sigma>) \<subseteq> dom (stale_timer \<sigma>)" "dom (heap \<sigma>) \<subseteq> dom (boost_timer \<sigma>)"
  using assms unfolding power_inv_def by blast+

lemma power_invI:
  assumes "distinct (mSessions \<sigma>)" and "\<And>sid. sid \<in> set (mSessions \<sigma>) \<longleftrightarrow> is_open \<sigma> sid"
    and "\<And>t sid. sid \<in> set (tid_sessions \<sigma> t) \<longleftrightarrow> is_open \<sigma> sid \<and> t \<in> set (tids \<sigma> sid)" and "ref_ok \<sigma> (refs \<sigma>)"
    and "\<And>sid. live_timer (stale_timer \<sigma>) sid \<Longrightarrow> is_open \<sigma> sid" and "\<And>sid. live_timer (boost_timer \<sigma>) sid \<Longrightarrow> is_open \<sigma> sid"
    and "dom (heap \<sigma>) \<subseteq> dom (stale_timer \<sigma>)" and "dom (heap \<sigma>) \<subseteq> dom (boost_timer \<sigma>)"
  shows "power_inv \<sigma>"
  using assms unfolding power_inv_def by blast

lemma tablesD:
  assumes "tables \<sigma>' = tables \<sigma>"
  shows "dom (heap \<sigma>') = dom (heap \<sigma>)" "tids \<sigma>' = tids \<sigma>" "is_open \<sigma>' = is_open \<sigma>" "mSessions \<sigma>' = mSessions \<sigma>"
    "mTidRefCountMap \<sigma>' = mTidRefCountMap \<sigma>" "tid_sessions \<sigma>' = tid_sessions \<sigma>"
    "dom (stale_timer \<sigma>') = dom (stale_timer \<sigma>)" "dom (boost_timer \<sigma>') = dom (boost_timer \<sigma>)"
    "live_timer (stale_timer \<sigma>') = live_timer (stale_timer \<sigma>)" "live_timer (boost_timer \<sigma>') = live_timer (boost_timer \<sigma>)"
  using assms by (simp_all add: tables_def)

lemma power_inv_tables: "tables \<sigma>' = tables \<sigma> \<Longrightarrow> power_inv \<sigma>' = power_inv \<sigma>"
  using tablesD [of \<sigma>' \<sigma>] by (simp add: power_inv_def ref_ok_def refs_def)

lemma quiet_keeps: "quiet \<sigma>1 \<sigma>2 \<Longrightarrow> power_inv \<sigma>1 \<Longrightarrow> power_inv \<sigma>2" "quiet \<sigma>1 \<sigma>2 \<Longrightarrow> grows \<sigma> \<sigma>1 \<Longrightarrow> grows \<sigma> \<sigma>2"
  using power_inv_tables [of \<sigma>2 \<sigma>1] grows_trans [of \<sigma> \<sigma>1 \<sigma>2] by (simp_all add: quiet_def)

lemma set_set_insert [simp]: "set (set_insert x xs) = insert x (set xs)" "distinct xs \<Longrightarrow> distinct (set_insert x xs)"
  by (auto simp: set_insert_def)

lemma is_open_open: "is_open \<sigma> sid \<Longrightarrow> sid \<in> dom (heap \<sigma>)"
  by (auto simp: is_open_def)

definition rest :: "power \<Rightarrow> (nat \<Rightarrow> session option) \<times> (nat \<Rightarrow> timer option) \<times> (nat \<Rightarrow> timer option) \<times> nat list" where
  "rest \<sigma> = (heap \<sigma>, stale_timer \<sigma>, boost_timer \<sigma>, mSessions \<sigma>)"

lemma add_tids_spec:
  assumes "add_tids sid ts \<sigma> = Some \<sigma>'" and "\<forall>t p. task_profile_ok \<sigma> t p" and "ref_ok \<sigma> r"
  shows "rest \<sigma>' = rest \<sigma> \<and> grows \<sigma> \<sigma>' \<and> ref_ok \<sigma>' (\<lambda>t. r t + count_list ts t) \<and>
     (\<forall>t. set (tid_sessions \<sigma>' t) = set (tid_sessions \<sigma> t) \<union> (if t \<in> set ts then {sid} else {}))"
  using assms
proof (induction ts arbitrary: \<sigma> r)
  case Nil
  then show ?case by (simp add: grows_refl)
next
  case (Cons t ts)
  define \<sigma>1 where "\<sigma>1 = \<sigma>\<lparr>mTidSessionListMap := (mTidSessionListMap \<sigma>)(t \<mapsto> set_insert sid (tid_sessions \<sigma> t))\<rparr>"
  define \<sigma>2 where "\<sigma>2 = (if r t = 0 then (emit (SetTaskProfiles t ''ResetUclampGrp'') \<sigma>1)\<lparr>mTidRefCountMap := (mTidRefCountMap \<sigma>)(t \<mapsto> 1)\<rparr>
     else \<sigma>1\<lparr>mTidRefCountMap := (mTidRefCountMap \<sigma>)(t \<mapsto> int (r t) + 1)\<rparr>)"
  have m: "mTidRefCountMap \<sigma> t = (if r t = 0 then None else Some (int (r t)))" using Cons.prems(3) by (simp add: ref_ok_def)
  have "add_tids sid ts \<sigma>2 = Some \<sigma>'"
    using Cons.prems(1,2) m
    by (auto simp: \<sigma>2_def \<sigma>1_def Let_def bind_eq_Some_conv ck32_Some simp flip: tid_sessions_def split: if_splits)
  moreover have "ref_ok \<sigma>2 (r(t := r t + 1))" using Cons.prems(3) by (auto simp: ref_ok_def \<sigma>2_def \<sigma>1_def)
  moreover have "\<forall>t p. task_profile_ok \<sigma>2 t p" using Cons.prems(2) by (simp add: \<sigma>2_def \<sigma>1_def)
  ultimately have IH: "rest \<sigma>' = rest \<sigma>2 \<and> grows \<sigma>2 \<sigma>' \<and> ref_ok \<sigma>' (\<lambda>u. (r(t := r t + 1)) u + count_list ts u) \<and>
     (\<forall>u. set (tid_sessions \<sigma>' u) = set (tid_sessions \<sigma>2 u) \<union> (if u \<in> set ts then {sid} else {}))"
    using Cons.IH by blast
  have "rest \<sigma>2 = rest \<sigma>" by (simp add: \<sigma>2_def \<sigma>1_def rest_def)
  moreover have "grows \<sigma> \<sigma>2" by (simp add: \<sigma>2_def \<sigma>1_def grows_def surroundings_def)
  moreover have "tid_sessions \<sigma>2 = (tid_sessions \<sigma>)(t := set_insert sid (tid_sessions \<sigma> t))"
    by (auto simp: \<sigma>2_def \<sigma>1_def tid_sessions_def fun_eq_iff)
  moreover have "(\<lambda>u. (r(t := r t + 1)) u + count_list ts u) = (\<lambda>u. r u + count_list (t # ts) u)" by auto
  ultimately show ?case using IH grows_trans [of \<sigma> \<sigma>2 \<sigma>'] by auto
qed


lemma remove_tids_spec:
  assumes "remove_tids sid ts \<sigma> = Some \<sigma>'" and "ref_ok \<sigma> r" and "\<And>t. count_list ts t \<le> r t"
  shows "rest \<sigma>' = rest \<sigma> \<and> grows \<sigma> \<sigma>' \<and> ref_ok \<sigma>' (\<lambda>t. r t - count_list ts t) \<and>
     (\<forall>t. set (tid_sessions \<sigma>' t) = set (tid_sessions \<sigma> t) - (if t \<in> set ts then {sid} else {}))"
  using assms
proof (induction ts arbitrary: \<sigma> r)
  case Nil
  then show ?case by (simp add: grows_refl)
next
  case (Cons t ts)
  define \<sigma>1 where "\<sigma>1 = \<sigma>\<lparr>mTidSessionListMap := (mTidSessionListMap \<sigma>)(t \<mapsto> removeAll sid (tid_sessions \<sigma> t))\<rparr>"
  define \<sigma>2 where "\<sigma>2 = (if r t = 1 then (emit (SetTaskProfiles t ''NoResetUclampGrp'') \<sigma>1)\<lparr>mTidRefCountMap := (mTidRefCountMap \<sigma>)(t := None)\<rparr>
     else \<sigma>1\<lparr>mTidRefCountMap := (mTidRefCountMap \<sigma>)(t \<mapsto> int (r t) - 1)\<rparr>)"
  have pos: "0 < r t" using Cons.prems(3) [of t] by (simp split: if_splits)
  have m: "mTidRefCountMap \<sigma> t = Some (int (r t))" using Cons.prems(2) pos by (simp add: ref_ok_def)
  have "remove_tids sid ts \<sigma>2 = Some \<sigma>'"
    using Cons.prems(1) m pos
    by (auto simp: \<sigma>2_def \<sigma>1_def Let_def bind_eq_Some_conv ck32_Some emit_def simp flip: tid_sessions_def split: if_splits)
  moreover have "ref_ok \<sigma>2 (r(t := r t - 1))" using Cons.prems(2) pos by (auto simp: ref_ok_def \<sigma>2_def \<sigma>1_def)
  moreover have "count_list ts u \<le> (r(t := r t - 1)) u" for u using Cons.prems(3) [of u] by auto
  ultimately have IH: "rest \<sigma>' = rest \<sigma>2 \<and> grows \<sigma>2 \<sigma>' \<and> ref_ok \<sigma>' (\<lambda>u. (r(t := r t - 1)) u - count_list ts u) \<and>
     (\<forall>u. set (tid_sessions \<sigma>' u) = set (tid_sessions \<sigma>2 u) - (if u \<in> set ts then {sid} else {}))"
    using Cons.IH by blast
  have "rest \<sigma>2 = rest \<sigma>" by (simp add: \<sigma>2_def \<sigma>1_def rest_def)
  moreover have "grows \<sigma> \<sigma>2" by (simp add: \<sigma>2_def \<sigma>1_def grows_def surroundings_def)
  moreover have "tid_sessions \<sigma>2 = (tid_sessions \<sigma>)(t := removeAll sid (tid_sessions \<sigma> t))"
    by (auto simp: \<sigma>2_def \<sigma>1_def tid_sessions_def fun_eq_iff)
  moreover have "(\<lambda>u. (r(t := r t - 1)) u - count_list ts u) = (\<lambda>u. r u - count_list (t # ts) u)" by auto
  ultimately show ?case using IH grows_trans [of \<sigma> \<sigma>2 \<sigma>'] by auto
qed

lemma restD:
  assumes "rest \<sigma>' = rest \<sigma>"
  shows "heap \<sigma>' = heap \<sigma>" "stale_timer \<sigma>' = stale_timer \<sigma>" "boost_timer \<sigma>' = boost_timer \<sigma>" "mSessions \<sigma>' = mSessions \<sigma>"
    "tids \<sigma>' = tids \<sigma>" "is_open \<sigma>' = is_open \<sigma>"
  using assms by (auto simp: rest_def tids_def is_open_def fun_eq_iff)

text \<open>A new session enters the tables.\<close>

text \<open>A session entered in the tables: the state \<open>\<sigma>1\<close> has the new object on the heap with its threads counted, all else is that of \<open>\<sigma>\<close>.\<close>

lemma entered_inv:
  assumes inv: "power_inv \<sigma>" and none: "heap \<sigma> sid = None"
    and s: "threadIds s = ts" "\<not> mSessionClosed s" and h: "heap \<sigma>1 = (heap \<sigma>)(sid \<mapsto> s)" and ss: "mSessions \<sigma>1 = mSessions \<sigma>"
    and tm: "stale_timer \<sigma>1 = (stale_timer \<sigma>)(sid \<mapsto> new_timer)" "boost_timer \<sigma>1 = (boost_timer \<sigma>)(sid \<mapsto> new_timer)"
    and rf: "ref_ok \<sigma>1 (\<lambda>t. refs \<sigma> t + count_list ts t)"
    and td: "\<And>t. set (tid_sessions \<sigma>1 t) = set (tid_sessions \<sigma> t) \<union> (if t \<in> set ts then {sid} else {})"
  shows "power_inv (\<sigma>1\<lparr>mSessions := set_insert sid (mSessions \<sigma>1)\<rparr>)" (is "power_inv ?\<sigma>")
proof (rule power_invI)
  note I = power_invD [OF inv]
  have closed: "\<not> is_open \<sigma> sid" and notin: "sid \<notin> set (mSessions \<sigma>)" using none I(2) by (simp_all add: is_open_def)
  have t: "tids ?\<sigma> = (tids \<sigma>)(sid := ts)" "is_open ?\<sigma> = (is_open \<sigma>)(sid := True)"
    using s by (auto simp: h tids_def is_open_def fun_eq_iff)
  have ss': "mSessions ?\<sigma> = mSessions \<sigma> @ [sid]" using ss notin by (simp add: set_insert_def)
  have "map (\<lambda>x. count_list (tids ?\<sigma> x) u) (mSessions \<sigma>) = map (\<lambda>x. count_list (tids \<sigma> x) u) (mSessions \<sigma>)" for u
    using notin by (auto simp: t)
  then have "refs ?\<sigma> u = refs \<sigma> u + count_list ts u" for u
    by (simp only: refs_def ss' map_append sum_list_append) (simp add: t)
  then show "ref_ok ?\<sigma> (refs ?\<sigma>)" using rf by (simp add: ref_ok_def)
  have "tid_sessions ?\<sigma> = tid_sessions \<sigma>1" by (simp add: tid_sessions_def fun_eq_iff)
  then show "x \<in> set (tid_sessions ?\<sigma> v) \<longleftrightarrow> is_open ?\<sigma> x \<and> v \<in> set (tids ?\<sigma> x)" for x v
    using I(3) td [of v] closed by (cases "x = sid") (auto simp: t)
  show "distinct (mSessions ?\<sigma>)" "x \<in> set (mSessions ?\<sigma>) \<longleftrightarrow> is_open ?\<sigma> x" for x
    using I(1,2) notin unfolding ss' t by auto
  show "live_timer (stale_timer ?\<sigma>) x \<Longrightarrow> is_open ?\<sigma> x" "live_timer (boost_timer ?\<sigma>) x \<Longrightarrow> is_open ?\<sigma> x" for x
    using I(5,6) [of x] by (cases "x = sid"; simp add: t tm live_timer_def)+
  show "dom (heap ?\<sigma>) \<subseteq> dom (stale_timer ?\<sigma>)" "dom (heap ?\<sigma>) \<subseteq> dom (boost_timer ?\<sigma>)"
    using I(7,8) by (auto simp: h tm)
qed

lemma create_inv:
  assumes inv: "power_inv \<sigma>" and ok: "\<forall>t p. task_profile_ok \<sigma> t p" and fresh: "sid \<notin> dom (stale_timer \<sigma>)"
  shows "ends (PowerHintSession sid tg u ts dur \<sigma>) (\<lambda>\<sigma>'. power_inv \<sigma>' \<and> grows \<sigma> \<sigma>')"
  unfolding PowerHintSession_def
proof (rule ends_val, goal_cases)
  case (1 started)
  define s where "s = \<lparr>tgid = tg, uid = u, threadIds = ts, duration = dur, current_min = 0, is_active = True,
              update_count = 0, integral_err = 0, previous_err = 0, mLastUpdatedTime = now \<sigma>, mSessionClosed = False,
              mLastStartedTimeNs = started, mLastDurationNs = dur, mWorkPeriodNs = dur\<rparr>"
  define \<sigma>0 where "\<sigma>0 = \<sigma>\<lparr>heap := (heap \<sigma>)(sid \<mapsto> s), stale_timer := (stale_timer \<sigma>)(sid \<mapsto> new_timer),
                boost_timer := (boost_timer \<sigma>)(sid \<mapsto> new_timer)\<rparr>"
  note I = power_invD [OF inv]
  have none: "heap \<sigma> sid = None" using I(7) fresh by auto
  have "ends (addPowerSession sid \<sigma>0) (\<lambda>\<sigma>'. power_inv \<sigma>' \<and> grows \<sigma> \<sigma>')"
    unfolding addPowerSession_def
  proof (rule ends_val, rule ends_val, simp only: ends_simps, goal_cases)
    case (1 s0 \<sigma>1)
    have s0: "threadIds s0 = ts" using 1(1) by (auto simp: \<sigma>0_def s_def)
    have "ref_ok \<sigma>0 (refs \<sigma>)" using I(4) by (simp add: \<sigma>0_def ref_ok_def)
    with add_tids_spec [OF 1(2) [unfolded s0]] ok have A: "rest \<sigma>1 = rest \<sigma>0" "grows \<sigma>0 \<sigma>1"
      "ref_ok \<sigma>1 (\<lambda>t. refs \<sigma> t + count_list ts t)"
      "\<And>t. set (tid_sessions \<sigma>1 t) = set (tid_sessions \<sigma>0 t) \<union> (if t \<in> set ts then {sid} else {})"
      by (auto simp: \<sigma>0_def)
    note r = restD [OF A(1)]
    let ?\<sigma> = "\<sigma>1\<lparr>mSessions := set_insert sid (mSessions \<sigma>1)\<rparr>"
    have "tid_sessions \<sigma>0 = tid_sessions \<sigma>" by (auto simp: tid_sessions_def \<sigma>0_def fun_eq_iff)
    with A(3,4) r(1-4) have "power_inv ?\<sigma>"
      by (intro entered_inv [OF inv none, of s ts]) (simp_all add: \<sigma>0_def s_def)
    moreover have "grows \<sigma> ?\<sigma>" using A(2) by (simp add: grows_def surroundings_def \<sigma>0_def)
    ultimately show ?case by simp
  qed
  then have "ends (addPowerSession sid \<sigma>0 \<bind> (\<lambda>\<sigma>. adpf \<sigma> \<bind>
      (\<lambda>cfg. setSessionUclampMin sid (to_s32 (int (mUclampMinInit cfg))) \<sigma>))) (\<lambda>\<sigma>'. power_inv \<sigma>' \<and> grows \<sigma> \<sigma>')"
    by (rule ends_bind, intro ends_val, intro ends_mono [OF quiet.ops(9)]) (blast intro: quiet_keeps)
  then show ?case by (simp add: Let_def \<sigma>0_def s_def)
qed


text \<open>A closed session has left the tables. First what \<open>removePowerSession\<close> does, which later steps keep.\<close>

definition shut :: "power \<Rightarrow> nat \<Rightarrow> power \<Rightarrow> bool" where
  "shut \<sigma> sid \<sigma>' \<longleftrightarrow>
     dom (heap \<sigma>') = dom (heap \<sigma>) \<and> tids \<sigma>' = tids \<sigma> \<and> is_open \<sigma>' = (is_open \<sigma>)(sid := False) \<and>
     mSessions \<sigma>' = removeAll sid (mSessions \<sigma>) \<and> ref_ok \<sigma>' (\<lambda>t. refs \<sigma> t - count_list (tids \<sigma> sid) t) \<and>
     (\<forall>t. set (tid_sessions \<sigma>' t) = set (tid_sessions \<sigma> t) - (if t \<in> set (tids \<sigma> sid) then {sid} else {})) \<and>
     dom (stale_timer \<sigma>') = dom (stale_timer \<sigma>) \<and> dom (boost_timer \<sigma>') = dom (boost_timer \<sigma>) \<and>
     (\<forall>x. x \<noteq> sid \<longrightarrow> live_timer (stale_timer \<sigma>') x = live_timer (stale_timer \<sigma>) x \<and>
        live_timer (boost_timer \<sigma>') x = live_timer (boost_timer \<sigma>) x) \<and> grows \<sigma> \<sigma>'"

lemma shut_quiet: "shut \<sigma> sid \<sigma>1 \<Longrightarrow> quiet \<sigma>1 \<sigma>2 \<Longrightarrow> shut \<sigma> sid \<sigma>2"
  using tablesD [of \<sigma>2 \<sigma>1] grows_trans [of \<sigma> \<sigma>1 \<sigma>2] by (simp add: shut_def quiet_def ref_ok_def)

lemma refs_split:
  assumes "distinct (mSessions \<sigma>)" and "sid \<in> set (mSessions \<sigma>)"
  shows "refs \<sigma> t = count_list (tids \<sigma> sid) t + sum_list (map (\<lambda>x. count_list (tids \<sigma> x) t) (removeAll sid (mSessions \<sigma>)))"
  using sum_list_map_remove1 [OF assms(2)] distinct_remove1_removeAll [OF assms(1)] by (simp add: refs_def)

lemma remove_shut:
  assumes inv: "power_inv \<sigma>" and s: "heap \<sigma> sid = Some s" "\<not> mSessionClosed s"
  shows "ends (removePowerSession sid (\<sigma>\<lparr>heap := (heap \<sigma>)(sid \<mapsto> s\<lparr>mSessionClosed := True\<rparr>)\<rparr>)) (shut \<sigma> sid)"
  unfolding removePowerSession_def
proof (rule ends_val, rule ends_val, simp only: ends_simps, goal_cases)
  case (1 s' \<sigma>1)
  let ?\<sigma>0 = "\<sigma>\<lparr>heap := (heap \<sigma>)(sid \<mapsto> s\<lparr>mSessionClosed := True\<rparr>)\<rparr>"
  note I = power_invD [OF inv]
  have t: "threadIds s' = tids \<sigma> sid" using 1(1) s by (auto simp: tids_def)
  have "sid \<in> set (mSessions \<sigma>)" using I(2) s by (auto simp: is_open_def)
  then have "count_list (threadIds s') u \<le> refs \<sigma> u" for u using refs_split [OF I(1)] by (simp add: t)
  moreover have "ref_ok ?\<sigma>0 (refs \<sigma>)" using I(4) by (simp add: ref_ok_def)
  ultimately have A: "rest \<sigma>1 = rest ?\<sigma>0" "grows ?\<sigma>0 \<sigma>1" "ref_ok \<sigma>1 (\<lambda>u. refs \<sigma> u - count_list (tids \<sigma> sid) u)"
    "\<And>u. set (tid_sessions \<sigma>1 u) = set (tid_sessions ?\<sigma>0 u) - (if u \<in> set (tids \<sigma> sid) then {sid} else {})"
    using remove_tids_spec [OF 1(2)] t by auto
  note r = restD [OF A(1)]
  have "tids ?\<sigma>0 = tids \<sigma>" "is_open ?\<sigma>0 = (is_open \<sigma>)(sid := False)" "tid_sessions ?\<sigma>0 = tid_sessions \<sigma>"
    using s by (auto simp: tids_def is_open_def tid_sessions_def fun_eq_iff)
  moreover have "tids (\<sigma>1\<lparr>mSessions := l\<rparr>) = tids \<sigma>1" "is_open (\<sigma>1\<lparr>mSessions := l\<rparr>) = is_open \<sigma>1"
    "tid_sessions (\<sigma>1\<lparr>mSessions := l\<rparr>) = tid_sessions \<sigma>1" for l
    by (auto simp: tids_def is_open_def tid_sessions_def fun_eq_iff)
  moreover have "dom (heap ?\<sigma>0) = dom (heap \<sigma>)" using s by auto
  moreover have "grows \<sigma> (\<sigma>1\<lparr>mSessions := l\<rparr>)" for l using A(2) by (simp add: grows_def surroundings_def)
  ultimately show ?case
    using A(3,4) r unfolding shut_def by (simp add: ref_ok_def)
qed

lemma shut_closed:
  assumes "shut \<sigma> sid \<sigma>1" and "upd_session sid (\<lambda>s. s\<lparr>mSessionClosed := True\<rparr>) \<sigma>1 = Some \<sigma>2"
  shows "shut \<sigma> sid \<sigma>2"
proof -
  obtain s where s: "heap \<sigma>1 sid = Some s" "\<sigma>2 = \<sigma>1\<lparr>heap := (heap \<sigma>1)(sid \<mapsto> s\<lparr>mSessionClosed := True\<rparr>)\<rparr>"
    using assms(2) by (auto simp: upd_session_def bind_eq_Some_conv)
  have "\<not> is_open \<sigma>1 sid" using assms(1) by (simp add: shut_def)
  then have "mSessionClosed s" using s by (simp add: is_open_def)
  then have "quiet \<sigma>1 \<sigma>2" using quiet.R_session [OF s(1), of "s\<lparr>mSessionClosed := True\<rparr>"] s(2) by simp
  then show ?thesis using assms(1) shut_quiet by blast
qed

lemma shut_inv:
  assumes inv: "power_inv \<sigma>" and "is_open \<sigma> sid" and S: "shut \<sigma> sid \<sigma>'"
    and dead: "\<not> live_timer (stale_timer \<sigma>') sid" "\<not> live_timer (boost_timer \<sigma>') sid"
  shows "power_inv \<sigma>'"
proof (rule power_invI)
  note I = power_invD [OF inv] and D = S [unfolded shut_def]
  have mem: "sid \<in> set (mSessions \<sigma>)" using I(2) assms(2) by simp
  have eq: "tids \<sigma>' = tids \<sigma>" "is_open \<sigma>' = (is_open \<sigma>)(sid := False)" "mSessions \<sigma>' = removeAll sid (mSessions \<sigma>)"
    using D by simp_all
  show "distinct (mSessions \<sigma>')" "x \<in> set (mSessions \<sigma>') \<longleftrightarrow> is_open \<sigma>' x" for x
    using I(1,2) unfolding eq by (auto simp: distinct_removeAll)
  have "refs \<sigma>' = (\<lambda>t. refs \<sigma> t - count_list (tids \<sigma> sid) t)"
    using refs_split [OF I(1) mem] by (auto simp: refs_def eq)
  then show "ref_ok \<sigma>' (refs \<sigma>')" using D by simp
  show "x \<in> set (tid_sessions \<sigma>' t) \<longleftrightarrow> is_open \<sigma>' x \<and> t \<in> set (tids \<sigma>' x)" for x t
  proof -
    have "set (tid_sessions \<sigma>' t) = set (tid_sessions \<sigma> t) - (if t \<in> set (tids \<sigma> sid) then {sid} else {})" using D by blast
    then show ?thesis using I(3) [of x t] by (cases "x = sid") (auto simp: eq)
  qed
  show "live_timer (stale_timer \<sigma>') x \<Longrightarrow> is_open \<sigma>' x" "live_timer (boost_timer \<sigma>') x \<Longrightarrow> is_open \<sigma>' x" for x
    using I(5,6) [of x] dead D by (cases "x = sid"; simp add: eq)+
  show "dom (heap \<sigma>') \<subseteq> dom (stale_timer \<sigma>')" "dom (heap \<sigma>') \<subseteq> dom (boost_timer \<sigma>')" using I(7,8) D by simp_all
qed


lemma shut_timers:
  "shut \<sigma> sid \<sigma>1 \<Longrightarrow> ends (boost_setSessionDead sid \<sigma>1) (\<lambda>\<sigma>2. shut \<sigma> sid \<sigma>2 \<and> \<not> live_timer (boost_timer \<sigma>2) sid)"
  "shut \<sigma> sid \<sigma>1 \<Longrightarrow> \<not> live_timer (boost_timer \<sigma>1) sid \<Longrightarrow>
     ends (stale_setSessionDead sid \<sigma>1) (\<lambda>\<sigma>2. shut \<sigma> sid \<sigma>2 \<and> \<not> live_timer (boost_timer \<sigma>2) sid \<and> \<not> live_timer (stale_timer \<sigma>2) sid)"
proof -
  have e: "shut \<sigma> sid \<sigma>2 \<Longrightarrow> shut \<sigma> sid (emit (RemoveMessages h) \<sigma>2)" for \<sigma>2 h
    using shut_quiet quiet.R_emit by simp
  have b: "boost_timer \<sigma>1 sid = Some h \<Longrightarrow> shut \<sigma> sid \<sigma>1 \<Longrightarrow>
      shut \<sigma> sid (\<sigma>1\<lparr>boost_timer := (boost_timer \<sigma>1)(sid \<mapsto> h')\<rparr>)" for h h'
    by (auto simp: shut_def tids_def is_open_def tid_sessions_def ref_ok_def grows_def surroundings_def live_timer_def fun_eq_iff)
  have s: "stale_timer \<sigma>1 sid = Some h \<Longrightarrow> shut \<sigma> sid \<sigma>1 \<Longrightarrow>
      shut \<sigma> sid (\<sigma>1\<lparr>stale_timer := (stale_timer \<sigma>1)(sid \<mapsto> h')\<rparr>)" for h h'
    by (auto simp: shut_def tids_def is_open_def tid_sessions_def ref_ok_def grows_def surroundings_def live_timer_def fun_eq_iff)
  show "shut \<sigma> sid \<sigma>1 \<Longrightarrow> ends (boost_setSessionDead sid \<sigma>1) (\<lambda>\<sigma>2. shut \<sigma> sid \<sigma>2 \<and> \<not> live_timer (boost_timer \<sigma>2) sid)"
    unfolding boost_setSessionDead_def upd_boost_def
    by (cases "boost_timer \<sigma>1 sid") (simp_all add: e b, simp add: live_timer_def)
  show "shut \<sigma> sid \<sigma>1 \<Longrightarrow> \<not> live_timer (boost_timer \<sigma>1) sid \<Longrightarrow>
     ends (stale_setSessionDead sid \<sigma>1) (\<lambda>\<sigma>2. shut \<sigma> sid \<sigma>2 \<and> \<not> live_timer (boost_timer \<sigma>2) sid \<and> \<not> live_timer (stale_timer \<sigma>2) sid)"
    unfolding stale_setSessionDead_def upd_stale_def
    by (cases "stale_timer \<sigma>1 sid") (simp_all add: e s, simp add: live_timer_def)
qed

lemma close_shut:
  assumes inv: "power_inv \<sigma>" and Some: "heap \<sigma> sid = Some s" and False: "\<not> mSessionClosed s"
  shows "ends (close sid \<sigma>) (\<lambda>(st, \<sigma>'). shut \<sigma> sid \<sigma>' \<and> \<not> live_timer (boost_timer \<sigma>') sid \<and> \<not> live_timer (stale_timer \<sigma>') sid)"
    (is "ends _ ?Q")
  unfolding close_def Some option.simps upd_session_def [of sid _ \<sigma>] bind.simps if_not_P [OF False]
proof (rule ends_bind [OF remove_shut [OF inv Some False]])
  fix \<sigma>1 assume 1: "shut \<sigma> sid \<sigma>1"
  show "ends (do {
      \<sigma> \<leftarrow> setSessionUclampMin sid 0 \<sigma>1;
      \<sigma> \<leftarrow> upd_session sid (\<lambda>s. s\<lparr>mSessionClosed := True\<rparr>) \<sigma>;
      \<sigma> \<leftarrow> upd_session sid (\<lambda>s. s\<lparr>is_active := False\<rparr>) \<sigma>;
      \<sigma> \<leftarrow> boost_setSessionDead sid \<sigma>;
      \<sigma> \<leftarrow> stale_setSessionDead sid \<sigma>;
      \<sigma> \<leftarrow> updateUniveralBoostMode sid \<sigma>;
      Some (STATUS_OK, \<sigma>) }) ?Q"
    apply (rule ends_bind [OF quiet.ops(9)])
    apply (drule shut_quiet [OF 1])
    apply (rule ends_val)
    apply (drule (1) shut_closed)
    apply (rule ends_bind [OF quiet.ops(1)])
      apply (simp, simp)
    apply (drule (1) shut_quiet)
    apply (rule ends_bind [OF shut_timers(1)], assumption)
    apply (rule ends_bind [OF shut_timers(2)], blast, blast)
    apply (rule ends_bind [OF quiet.ops(5)])
    subgoal for _ _ _ _ \<sigma>5 \<sigma>6
      using shut_quiet [of \<sigma> sid \<sigma>5 \<sigma>6] tablesD [of \<sigma>6 \<sigma>5] by (simp add: quiet_def)
    done
qed

lemma close_inv:
  assumes inv: "power_inv \<sigma>"
  shows "ends (close sid \<sigma>) (\<lambda>(st, \<sigma>'). power_inv \<sigma>' \<and> grows \<sigma> \<sigma>' \<and> \<not> is_open \<sigma>' sid)"
proof (cases "heap \<sigma> sid")
  case None
  then show ?thesis by (simp add: close_def)
next
  case (Some s)
  show ?thesis
  proof (cases "mSessionClosed s")
    case True
    then show ?thesis using inv Some by (simp add: close_def is_open_def grows_refl)
  next
    case False
    then have op: "is_open \<sigma> sid" using Some by (simp add: is_open_def)
    show ?thesis
    proof (rule ends_mono [OF close_shut [OF inv Some False]], clarify, intro conjI)
      fix \<sigma>' assume S: "shut \<sigma> sid \<sigma>'" and d: "\<not> live_timer (boost_timer \<sigma>') sid" "\<not> live_timer (stale_timer \<sigma>') sid"
      show "power_inv \<sigma>'" using shut_inv [OF inv op S] d by simp
      show "grows \<sigma> \<sigma>'" "\<not> is_open \<sigma>' sid" using S by (simp_all add: shut_def)
    qed
  qed
qed


lemma delete_inv:
  assumes inv: "power_inv \<sigma>"
  shows "ends (delete_PowerHintSession sid \<sigma>) (\<lambda>\<sigma>'. power_inv \<sigma>' \<and> grows \<sigma> \<sigma>')"
  unfolding delete_PowerHintSession_def
proof (rule ends_bind [OF close_inv [OF inv]], clarsimp)
  fix \<sigma>1 assume 1: "power_inv \<sigma>1" "grows \<sigma> \<sigma>1" "\<not> is_open \<sigma>1 sid"
  let ?\<sigma> = "\<sigma>1\<lparr>heap := (heap \<sigma>1)(sid := None)\<rparr>"
  note I = power_invD [OF 1(1)]
  have o: "is_open ?\<sigma> = is_open \<sigma>1" using 1(3) by (auto simp: is_open_def fun_eq_iff)
  have t: "is_open \<sigma>1 x \<Longrightarrow> tids ?\<sigma> x = tids \<sigma>1 x" for x using 1(3) by (auto simp: tids_def)
  have ts: "tid_sessions ?\<sigma> = tid_sessions \<sigma>1" by (simp add: tid_sessions_def fun_eq_iff)
  have "refs ?\<sigma> u = refs \<sigma>1 u" for u
    unfolding refs_def using I(2) t by (auto intro!: arg_cong [where f = sum_list])
  then have "power_inv ?\<sigma>"
    using I by (intro power_invI) (auto simp: o ts t ref_ok_def)
  moreover have "grows \<sigma> ?\<sigma>" using 1(2) by (simp add: grows_def surroundings_def)
  ultimately show "power_inv ?\<sigma> \<and> grows \<sigma> ?\<sigma>" by simp
qed

section \<open>Executions\<close>

text \<open>
  Clients create, use and destroy sessions; the looper delivers messages; the power service passes hints on; and the
  surroundings move: time passes and the profile is exchanged. In any order.
\<close>

inductive power_step :: "power \<Rightarrow> power \<Rightarrow> bool" where
  create: "sid \<notin> dom (stale_timer \<sigma>) \<Longrightarrow> PowerHintSession sid tg u ts dur \<sigma> = Some \<sigma>' \<Longrightarrow> power_step \<sigma> \<sigma>'"
| close: "close sid \<sigma> = Some (st, \<sigma>') \<Longrightarrow> power_step \<sigma> \<sigma>'"
| delete: "delete_PowerHintSession sid \<sigma> = Some \<sigma>' \<Longrightarrow> power_step \<sigma> \<sigma>'"
| pause: "pause sid \<sigma> = Some (st, \<sigma>') \<Longrightarrow> power_step \<sigma> \<sigma>'"
| resume: "resume sid \<sigma> = Some (st, \<sigma>') \<Longrightarrow> power_step \<sigma> \<sigma>'"
| target: "updateTargetWorkDuration sid n \<sigma> = Some (st, \<sigma>') \<Longrightarrow> power_step \<sigma> \<sigma>'"
| report: "reportActualWorkDuration sid ws \<sigma> = Some (st, \<sigma>') \<Longrightarrow> power_step \<sigma> \<sigma>'"
| stale: "stale_handleMessage sid \<sigma> = Some \<sigma>' \<Longrightarrow> power_step \<sigma> \<sigma>'"
| boost: "boost_handleMessage sid \<sigma> = Some \<sigma>' \<Longrightarrow> power_step \<sigma> \<sigma>'"
| wake: "wakeSessions \<sigma> = Some \<sigma>' \<Longrightarrow> power_step \<sigma> \<sigma>'"
| manager: "manager_handleMessage \<sigma> = Some \<sigma>' \<Longrightarrow> power_step \<sigma> \<sigma>'"
| hint_mode: "power_step \<sigma> (updateHintMode mode enabled \<sigma>)"
| hint_boost: "power_step \<sigma> (updateHintBoost boost n \<sigma>)"
| environment: "now \<sigma> \<le> n \<Longrightarrow> power_step \<sigma> (\<sigma>\<lparr>now := n, adpf := c\<rparr>)"

text \<open>The state the singleton is constructed in.\<close>

definition initial :: "power \<Rightarrow> bool" where
  "initial \<sigma> \<longleftrightarrow> heap \<sigma> = Map.empty \<and> stale_timer \<sigma> = Map.empty \<and> boost_timer \<sigma> = Map.empty \<and> mSessions \<sigma> = [] \<and>
     mTidRefCountMap \<sigma> = Map.empty \<and> mTidSessionListMap \<sigma> = Map.empty \<and> \<not> mActive \<sigma> \<and> mDisplayRefreshRate \<sigma> = 60 \<and> events \<sigma> = []"

lemma initial_inv: "initial \<sigma> \<Longrightarrow> power_inv \<sigma>"
  by (simp add: initial_def power_inv_def is_open_def tid_sessions_def live_timer_def ref_ok_def refs_def)

definition boost_hint :: "event \<Rightarrow> bool" where
  "boost_hint e = (case e of DoHint n \<Rightarrow> True | EndHint n \<Rightarrow> True | _ \<Rightarrow> False)"

definition fixed where
  "fixed \<sigma> = (hint_supported \<sigma>, task_profile_ok \<sigma>, AID_APP_START \<sigma>, kDisableBoostHintName \<sigma>)"

text \<open>What every step does to the events, and that it keeps the invariant.\<close>

definition step_ok :: "power \<Rightarrow> power \<Rightarrow> bool" where
  "step_ok \<sigma> \<sigma>' \<longleftrightarrow> power_inv \<sigma>' \<and> fixed \<sigma>' = fixed \<sigma> \<and>
     (\<exists>es. events \<sigma>' = events \<sigma> @ es \<and>
       (list_all quiet_event es \<and> mActive \<sigma>' = mActive \<sigma> \<or>
        mActive \<sigma>' \<noteq> mActive \<sigma> \<and> es = (if \<not> hint_supported \<sigma> (kDisableBoostHintName \<sigma>) then []
          else if mActive \<sigma>' then [DoHint (kDisableBoostHintName \<sigma>)] else [EndHint (kDisableBoostHintName \<sigma>)])))"

lemma step_ok_grows: "power_inv \<sigma>' \<Longrightarrow> grows \<sigma> \<sigma>' \<Longrightarrow> step_ok \<sigma> \<sigma>'"
  by (auto simp: step_ok_def grows_def fixed_def surroundings_def)

lemma step_ok_quiet: "power_inv \<sigma> \<Longrightarrow> quiet \<sigma> \<sigma>' \<Longrightarrow> step_ok \<sigma> \<sigma>'"
  using quiet_keeps(1) [of \<sigma> \<sigma>'] by (intro step_ok_grows) (simp_all add: quiet_def)

lemma step_ok_manager: "power_inv \<sigma> \<Longrightarrow> manager_handleMessage \<sigma> = Some \<sigma>' \<Longrightarrow> step_ok \<sigma> \<sigma>'"
proof -
  assume inv: "power_inv \<sigma>" and m: "manager_handleMessage \<sigma> = Some \<sigma>'"
  have t: "tables (\<sigma>\<lparr>mActive := a\<rparr>) = tables \<sigma>" for a
    by (simp add: tables_def tids_def is_open_def tid_sessions_def fun_eq_iff)
  have "tables \<sigma>' = tables \<sigma>"
    using m t by (auto simp: manager_handleMessage_def isAnyAppSessionActive_def bind_eq_Some_conv
        disableSystemTopAppBoost_def enableSystemTopAppBoost_def split: if_splits)
  then have "power_inv \<sigma>'" using inv power_inv_tables [of \<sigma>' \<sigma>] by simp
  then show ?thesis
    using m by (auto simp: step_ok_def manager_handleMessage_def isAnyAppSessionActive_def bind_eq_Some_conv fixed_def
        disableSystemTopAppBoost_def enableSystemTopAppBoost_def split: if_splits)
qed

lemma power_step_ok:
  assumes "power_step \<sigma> \<sigma>'" and inv: "power_inv \<sigma>" and ok: "\<forall>t p. task_profile_ok \<sigma> t p"
  shows "step_ok \<sigma> \<sigma>'"
  using assms(1)
proof cases
  case (create sid tg u ts dur)
  then show ?thesis using create_inv [OF inv ok, of sid tg u ts dur] step_ok_grows by (simp add: ends_def)
next
  case (close sid st)
  then show ?thesis using close_inv [OF inv, of sid] step_ok_grows by (auto simp: ends_def)
next
  case (delete sid)
  then show ?thesis using delete_inv [OF inv, of sid] step_ok_grows by (simp add: ends_def)
next
  case (pause sid st)
  then show ?thesis using quiet.pause [of sid \<sigma>] step_ok_quiet [OF inv] by (auto simp: ends_def)
next
  case (resume sid st)
  then show ?thesis using quiet.resume [of sid \<sigma>] step_ok_quiet [OF inv] by (auto simp: ends_def)
next
  case (target sid n st)
  then show ?thesis using quiet.updateTargetWorkDuration [of sid n \<sigma>] step_ok_quiet [OF inv] by (auto simp: ends_def)
next
  case (report sid ws st)
  then show ?thesis using quiet.reportActualWorkDuration [of sid ws \<sigma>] step_ok_quiet [OF inv] by (auto simp: ends_def)
next
  case (stale sid)
  then show ?thesis using quiet.stale_handleMessage [of sid \<sigma>] step_ok_quiet [OF inv] by (simp add: ends_def)
next
  case (boost sid)
  then show ?thesis using quiet.boost_handleMessage [of sid \<sigma>] step_ok_quiet [OF inv] by (simp add: ends_def)
next
  case wake
  then show ?thesis using quiet.wakeSessions [of \<sigma>] step_ok_quiet [OF inv] by (simp add: ends_def)
next
  case manager
  then show ?thesis by (rule step_ok_manager [OF inv])
next
  case (hint_mode mode enabled)
  let ?\<sigma> = "\<lambda>n. \<sigma>\<lparr>mDisplayRefreshRate := n\<rparr>"
  have "quiet \<sigma> (?\<sigma> n)" for n
    by (auto simp: quiet_def tables_def tids_def is_open_def tid_sessions_def grows_def surroundings_def fun_eq_iff)
  then have "quiet \<sigma> \<sigma>'"
    unfolding hint_mode updateHintMode_def Let_def using quiet.emits quiet.R_refl by simp
  then show ?thesis by (rule step_ok_quiet [OF inv])
next
  case (hint_boost boost n)
  then show ?thesis
    using quiet.R_emit [of "SendMessage WakeupHandler" \<sigma>] quiet.R_refl [of \<sigma>]
    by (intro step_ok_quiet [OF inv]) (simp add: updateHintBoost_def)
next
  case (environment n c)
  then have "tables \<sigma>' = tables \<sigma>" by (simp add: tables_def tids_def is_open_def tid_sessions_def fun_eq_iff)
  then have "power_inv \<sigma>'" using inv power_inv_tables [of \<sigma>' \<sigma>] by simp
  then show ?thesis using environment by (simp add: step_ok_def fixed_def)
qed

end
