(* ===== verification/Power_Safety.thy ===== *)
theory Power_Safety
  imports Power_Invariant
begin

text \<open>
  The properties of the hint sessions: the invariant over all executions, the values requested from the kernel, and the absence
  of undefined behaviour.
\<close>

section \<open>All executions\<close>

definition reachable :: "power \<Rightarrow> power \<Rightarrow> bool" where
  "reachable \<sigma>0 \<sigma> \<longleftrightarrow> initial \<sigma>0 \<and> (\<forall>t p. task_profile_ok \<sigma>0 t p) \<and> power_step\<^sup>*\<^sup>* \<sigma>0 \<sigma>"

definition alternating :: "power \<Rightarrow> bool" where
  "alternating \<sigma> \<longleftrightarrow> turns (DoHint (kDisableBoostHintName \<sigma>)) (EndHint (kDisableBoostHintName \<sigma>)) False (events \<sigma>) =
     Some (hint_supported \<sigma> (kDisableBoostHintName \<sigma>) \<and> mActive \<sigma>)"

lemma boost_hint_simps [simp]: "boost_hint (DoHint k)" "boost_hint (EndHint k)"
  by (simp_all add: boost_hint_def)

lemma step_ok_events:
  assumes "step_ok \<sigma> \<sigma>'" and "list_all (\<lambda>e. boost_hint e \<or> quiet_event e) (events \<sigma>)"
  shows "list_all (\<lambda>e. boost_hint e \<or> quiet_event e) (events \<sigma>')"
proof -
  from assms(1) obtain es where es: "events \<sigma>' = events \<sigma> @ es"
    and "list_all quiet_event es \<or> es = [] \<or> (\<exists>k. es = [DoHint k]) \<or> (\<exists>k. es = [EndHint k])"
    unfolding step_ok_def by metis
  then have "list_all (\<lambda>e. boost_hint e \<or> quiet_event e) es" by (auto simp: list_all_iff)
  then show ?thesis using assms(2) es by simp
qed

lemma alternating_step:
  assumes "step_ok \<sigma> \<sigma>'" and "alternating \<sigma>"
  shows "alternating \<sigma>'"
proof -
  let ?k = "kDisableBoostHintName \<sigma>"
  from assms(1) obtain es where f: "fixed \<sigma>' = fixed \<sigma>" and es: "events \<sigma>' = events \<sigma> @ es"
    and c: "list_all quiet_event es \<and> mActive \<sigma>' = mActive \<sigma> \<or>
        mActive \<sigma>' \<noteq> mActive \<sigma> \<and> es = (if \<not> hint_supported \<sigma> ?k then []
          else if mActive \<sigma>' then [DoHint ?k] else [EndHint ?k])"
    by (auto simp: step_ok_def)
  have s: "hint_supported \<sigma>' = hint_supported \<sigma>" "kDisableBoostHintName \<sigma>' = ?k" using f by (simp_all add: fixed_def)
  have "list_all quiet_event es \<Longrightarrow> turns (DoHint ?k) (EndHint ?k) b es = Some b" for b
    by (rule turns_other) (auto simp: list_all_iff quiet_event_def)
  then show ?thesis
    using c assms(2) unfolding alternating_def s es turns_append by (auto split: if_splits)
qed

lemma reachable_ok:
  assumes "reachable \<sigma>0 \<sigma>"
  shows "power_inv \<sigma>" "fixed \<sigma> = fixed \<sigma>0" "alternating \<sigma>" "list_all (\<lambda>e. boost_hint e \<or> quiet_event e) (events \<sigma>)"
proof -
  have "power_step\<^sup>*\<^sup>* \<sigma>0 \<sigma>" and i: "initial \<sigma>0" "\<forall>t p. task_profile_ok \<sigma>0 t p" using assms by (auto simp: reachable_def)
  then have "power_inv \<sigma> \<and> fixed \<sigma> = fixed \<sigma>0 \<and> alternating \<sigma> \<and> list_all (\<lambda>e. boost_hint e \<or> quiet_event e) (events \<sigma>)"
  proof (induction rule: rtranclp_induct)
    case base
    have "alternating \<sigma>0" using i(1) by (simp add: alternating_def initial_def)
    then show ?case using initial_inv [OF i(1)] i(1) by (simp add: initial_def)
  next
    case (step \<sigma>1 \<sigma>2)
    have "task_profile_ok \<sigma>1 = task_profile_ok \<sigma>0" using step by (simp add: fixed_def)
    then have ok: "step_ok \<sigma>1 \<sigma>2" using power_step_ok [OF step(2)] step i(2) by simp
    then show ?case using step_ok_events [OF ok] alternating_step [OF ok] step by (simp add: step_ok_def)
  qed
  then show "power_inv \<sigma>" "fixed \<sigma> = fixed \<sigma>0" "alternating \<sigma>" "list_all (\<lambda>e. boost_hint e \<or> quiet_event e) (events \<sigma>)"
    by simp_all
qed


section \<open>No undefined behaviour\<close>

text \<open>
  Times for which the arithmetic does not overflow: durations up to 2^40 ns, clock readings up to 2^61 ns (73 years), a stale factor up to 1024;
  and fewer than 2^31 sessions for a thread.
\<close>

definition calm :: "power \<Rightarrow> bool" where
  "calm \<sigma> \<longleftrightarrow> (\<exists>cfg. adpf \<sigma> = Some cfg \<and> \<bar>mStaleTimeFactor cfg\<bar> \<le> 1024) \<and> \<bar>now \<sigma>\<bar> \<le> 2 ^ 61 \<and>
     (\<forall>sid s. heap \<sigma> sid = Some s \<longrightarrow> \<bar>duration s\<bar> \<le> 2 ^ 40 \<and> \<bar>mLastUpdatedTime s\<bar> \<le> 2 ^ 61) \<and>
     (\<forall>sid h. stale_timer \<sigma> sid = Some h \<or> boost_timer \<sigma> sid = Some h \<longrightarrow> \<bar>mTime h\<bar> \<le> 2 ^ 62) \<and>
     (\<forall>t n. mTidRefCountMap \<sigma> t = Some n \<longrightarrow> n < 2 ^ 31)"

text \<open>Only sessions that exist are listed, and they have their timers.\<close>

definition listed :: "power \<Rightarrow> bool" where
  "listed \<sigma> \<longleftrightarrow> (\<forall>t. set (tid_sessions \<sigma> t) \<subseteq> dom (heap \<sigma>)) \<and> set (mSessions \<sigma>) \<subseteq> dom (heap \<sigma>) \<and>
     dom (heap \<sigma>) \<subseteq> dom (stale_timer \<sigma>) \<and> dom (heap \<sigma>) \<subseteq> dom (boost_timer \<sigma>)"

definition safe :: "power \<Rightarrow> power \<Rightarrow> bool" where
  "safe \<sigma> \<sigma>' \<longleftrightarrow> calm \<sigma>' \<and> listed \<sigma>' \<and> dom (heap \<sigma>) = dom (heap \<sigma>')"

lemma power_inv_listed: "power_inv \<sigma> \<Longrightarrow> listed \<sigma>"
  unfolding listed_def using power_invD [of \<sigma>] is_open_open [of \<sigma>] by blast

lemma scaled_small:
  assumes "\<bar>n\<bar> \<le> 2 ^ 40" and "\<bar>x\<bar> \<le> 1024"
  obtains y where "scaled n x = Some y" and "\<bar>y\<bar> \<le> 2 ^ 53"
proof
  have n: "fl (of_int n) = of_int n" using assms(1) by (intro fl_int) simp
  have b: "\<bar>fl (x * of_int n)\<bar> \<le> of_int (2 ^ 52 + 1)" using assms by (intro gain_small) simp_all
  then show "scaled n x = Some (trunc (fl (x * of_int n)))"
    unfolding scaled_def n using cast64_small [OF b] by (simp add: mult.commute)
  show "\<bar>trunc (fl (x * of_int n))\<bar> \<le> 2 ^ 53" using trunc_bound [OF b] by simp
qed

lemma calm_timeout:
  assumes "calm \<sigma>" and "heap \<sigma> sid = Some s"
  obtains b where "isTimeout \<sigma> s = Some b"
proof -
  obtain cfg where cfg: "adpf \<sigma> = Some cfg" "\<bar>mStaleTimeFactor cfg\<bar> \<le> 1024" using assms(1) by (auto simp: calm_def)
  have s: "\<bar>duration s\<bar> \<le> 2 ^ 40" "\<bar>mLastUpdatedTime s\<bar> \<le> 2 ^ 61" using assms by (auto simp: calm_def)
  obtain y where y: "scaled (duration s) (mStaleTimeFactor cfg) = Some y" "\<bar>y\<bar> \<le> 2 ^ 53" using scaled_small [OF s(1) cfg(2)] .
  then have "ck64 (mLastUpdatedTime s + y) = Some (mLastUpdatedTime s + y)" using s(2) by (simp add: ck64_def abs_le_iff)
  then show ?thesis using that cfg(1) y(1) by (simp add: isTimeout_def getStaleTime_def)
qed

lemma runs_tid_max:
  assumes "calm \<sigma>" and "set l \<subseteq> dom (heap \<sigma>)"
  shows "\<exists>m'. tid_max \<sigma> l m = Some m'"
  using assms(2)
proof (induction l arbitrary: m)
  case (Cons sid l)
  then obtain s where s: "heap \<sigma> sid = Some s" by auto
  obtain b where "isTimeout \<sigma> s = Some b" using calm_timeout [OF assms(1) s] .
  then show ?case using Cons s by simp
qed simp

lemma safe_refl: "calm \<sigma> \<Longrightarrow> listed \<sigma> \<Longrightarrow> safe \<sigma> \<sigma>"
  by (simp add: safe_def)

lemma safe_trans: "safe \<sigma> \<sigma>1 \<Longrightarrow> safe \<sigma>1 \<sigma>2 \<Longrightarrow> safe \<sigma> \<sigma>2"
  by (simp add: safe_def)

lemma tid_sessions_simps [simp]:
  "tid_sessions (emit e \<sigma>) = tid_sessions \<sigma>"
  "tid_sessions (\<sigma>\<lparr>mTidSessionListMap := (mTidSessionListMap \<sigma>)(t \<mapsto> tid_sessions \<sigma> t)\<rparr>) = tid_sessions \<sigma>"
  "tid_sessions (\<sigma>\<lparr>heap := m\<rparr>) = tid_sessions \<sigma>" "tid_sessions (\<sigma>\<lparr>stale_timer := ti\<rparr>) = tid_sessions \<sigma>"
  "tid_sessions (\<sigma>\<lparr>boost_timer := ti\<rparr>) = tid_sessions \<sigma>" "tid_sessions (\<sigma>\<lparr>mActive := b\<rparr>) = tid_sessions \<sigma>"
  "tid_sessions (\<sigma>\<lparr>mSessions := l\<rparr>) = tid_sessions \<sigma>"
  by (auto simp: tid_sessions_def fun_eq_iff)

lemma safe_simps [simp]:
  "calm (emit e \<sigma>) = calm \<sigma>" "listed (emit e \<sigma>) = listed \<sigma>"
  "calm (\<sigma>\<lparr>mTidSessionListMap := m\<rparr>) = calm \<sigma>" "calm (\<sigma>\<lparr>mActive := b\<rparr>) = calm \<sigma>" "listed (\<sigma>\<lparr>mActive := b\<rparr>) = listed \<sigma>"
  "listed (\<sigma>\<lparr>mTidSessionListMap := (mTidSessionListMap \<sigma>)(t \<mapsto> tid_sessions \<sigma> t)\<rparr>) = listed \<sigma>"
  by (simp_all add: calm_def listed_def)

lemma safe_emit: "safe \<sigma> \<sigma>1 \<Longrightarrow> safe \<sigma> (emit e \<sigma>1)"
  by (simp add: safe_def)

lemma safe_lists: "safe \<sigma> \<sigma>1 \<Longrightarrow> safe \<sigma> (\<sigma>1\<lparr>mTidSessionListMap := (mTidSessionListMap \<sigma>1)(t \<mapsto> tid_sessions \<sigma>1 t)\<rparr>)"
  by (simp add: safe_def)

lemma runs_uclamp_tids: "safe \<sigma> \<sigma>1 \<Longrightarrow> runs (uclamp_tids v ts \<sigma>1) (safe \<sigma>)"
proof (induction ts arbitrary: \<sigma>1)
  case (Cons t ts)
  let ?\<sigma> = "\<sigma>1\<lparr>mTidSessionListMap := (mTidSessionListMap \<sigma>1)(t \<mapsto> tid_sessions \<sigma>1 t)\<rparr>"
  have S: "safe \<sigma> ?\<sigma>" using safe_lists [OF Cons.prems] .
  obtain cfg where cfg: "adpf ?\<sigma> = Some cfg" using S by (auto simp: safe_def calm_def)
  have "listed \<sigma>1" using Cons.prems by (simp add: safe_def)
  then have "set (tid_sessions \<sigma>1 t) \<subseteq> dom (heap ?\<sigma>)" by (simp add: listed_def)
  then obtain m where m: "tid_max ?\<sigma> (tid_sessions \<sigma>1 t) 0 = Some m" using runs_tid_max [of ?\<sigma> "tid_sessions \<sigma>1 t" 0] S by (auto simp: safe_def)
  obtain \<sigma>2 where "set_uclamp_min t (max v m) ?\<sigma> = Some \<sigma>2" "safe \<sigma> \<sigma>2"
    using cfg S safe_emit by (auto simp: set_uclamp_min_def sched_setattr_def)
  then show ?case
    using m Cons.IH [of \<sigma>2] by (simp add: Let_def flip: tid_sessions_def)
qed simp


text \<open>One rule for each call: it is defined where its session exists, and the state after it is as good as the one before.\<close>

lemma safe_upd:
  assumes "safe \<sigma> \<sigma>1" and "heap \<sigma>1 sid = Some s" and "duration s' = duration s" and "mLastUpdatedTime s' = mLastUpdatedTime s"
  shows "safe \<sigma> (\<sigma>1\<lparr>heap := (heap \<sigma>1)(sid \<mapsto> s')\<rparr>)"
proof -
  let ?\<sigma> = "\<sigma>1\<lparr>heap := (heap \<sigma>1)(sid \<mapsto> s')\<rparr>"
  have d: "dom (heap ?\<sigma>) = dom (heap \<sigma>1)" using assms(2) by auto
  have "calm ?\<sigma>" using assms unfolding safe_def calm_def by auto
  moreover have "listed ?\<sigma>" using assms(1) unfolding safe_def listed_def d by simp
  ultimately show ?thesis using assms(1) d by (simp add: safe_def)
qed

lemma safe_stale:
  assumes "safe \<sigma> \<sigma>1" and "stale_timer \<sigma>1 sid = Some h" and "\<bar>mTime h'\<bar> \<le> 2 ^ 62"
  shows "safe \<sigma> (\<sigma>1\<lparr>stale_timer := (stale_timer \<sigma>1)(sid \<mapsto> h')\<rparr>)"
proof -
  have "dom ((stale_timer \<sigma>1)(sid \<mapsto> h')) = dom (stale_timer \<sigma>1)" using assms(2) by auto
  then show ?thesis using assms unfolding safe_def calm_def listed_def by simp
qed

lemma safe_boost:
  assumes "safe \<sigma> \<sigma>1" and "boost_timer \<sigma>1 sid = Some h" and "\<bar>mTime h'\<bar> \<le> 2 ^ 62"
  shows "safe \<sigma> (\<sigma>1\<lparr>boost_timer := (boost_timer \<sigma>1)(sid \<mapsto> h')\<rparr>)"
proof -
  have "dom ((boost_timer \<sigma>1)(sid \<mapsto> h')) = dom (boost_timer \<sigma>1)" using assms(2) by auto
  then show ?thesis using assms unfolding safe_def calm_def listed_def by simp
qed

lemma safe_session: "safe \<sigma> \<sigma>1 \<Longrightarrow> sid \<in> dom (heap \<sigma>) \<Longrightarrow> \<exists>s. heap \<sigma>1 sid = Some s"
  by (auto simp: safe_def)

lemma safe_timers:
  assumes "safe \<sigma> \<sigma>1" and "sid \<in> dom (heap \<sigma>)"
  shows "\<exists>h. stale_timer \<sigma>1 sid = Some h \<and> \<bar>mTime h\<bar> \<le> 2 ^ 62" "\<exists>h. boost_timer \<sigma>1 sid = Some h \<and> \<bar>mTime h\<bar> \<le> 2 ^ 62"
proof -
  have "sid \<in> dom (stale_timer \<sigma>1)" "sid \<in> dom (boost_timer \<sigma>1)" using assms unfolding safe_def listed_def by blast+
  moreover have "calm \<sigma>1" using assms by (simp add: safe_def)
  ultimately show "\<exists>h. stale_timer \<sigma>1 sid = Some h \<and> \<bar>mTime h\<bar> \<le> 2 ^ 62" "\<exists>h. boost_timer \<sigma>1 sid = Some h \<and> \<bar>mTime h\<bar> \<le> 2 ^ 62"
    unfolding calm_def by blast+
qed


named_theorems safe_calls

lemma runs_upd_session [safe_calls]:
  assumes "safe \<sigma> \<sigma>1" and "sid \<in> dom (heap \<sigma>)" and "\<And>s. duration (f s) = duration s" "\<And>s. mLastUpdatedTime (f s) = mLastUpdatedTime s"
  shows "runs (upd_session sid f \<sigma>1) (safe \<sigma>)"
  using safe_session [OF assms(1,2)] safe_upd [OF assms(1)] assms(3,4) by (auto simp: upd_session_def)

lemma runs_upd_stale [safe_calls]:
  assumes "safe \<sigma> \<sigma>1" and "sid \<in> dom (heap \<sigma>)" and "\<And>h. \<bar>mTime h\<bar> \<le> 2 ^ 62 \<Longrightarrow> \<bar>mTime (f h)\<bar> \<le> 2 ^ 62"
  shows "runs (upd_stale sid f \<sigma>1) (safe \<sigma>)"
  using safe_timers(1) [OF assms(1,2)] safe_stale [OF assms(1)] assms(3) by (force simp: upd_stale_def)

lemma runs_upd_boost [safe_calls]:
  assumes "safe \<sigma> \<sigma>1" and "sid \<in> dom (heap \<sigma>)" and "\<And>h. \<bar>mTime h\<bar> \<le> 2 ^ 62 \<Longrightarrow> \<bar>mTime (f h)\<bar> \<le> 2 ^ 62"
  shows "runs (upd_boost sid f \<sigma>1) (safe \<sigma>)"
  using safe_timers(2) [OF assms(1,2)] safe_boost [OF assms(1)] assms(3) by (force simp: upd_boost_def)

lemma runs_setUclampMin [safe_calls]: "safe \<sigma> \<sigma>1 \<Longrightarrow> sid \<in> dom (heap \<sigma>) \<Longrightarrow> runs (setUclampMin sid v \<sigma>1) (safe \<sigma>)"
  using safe_session [of \<sigma> \<sigma>1 sid] runs_uclamp_tids [of \<sigma> \<sigma>1 v] by (auto simp: setUclampMin_def setUclampMinLocked_def)

lemma runs_updateUniveralBoostMode [safe_calls]:
  "safe \<sigma> \<sigma>1 \<Longrightarrow> sid \<in> dom (heap \<sigma>) \<Longrightarrow> runs (updateUniveralBoostMode sid \<sigma>1) (safe \<sigma>)"
  using safe_session [of \<sigma> \<sigma>1 sid] safe_emit by (auto simp: updateUniveralBoostMode_def)

text \<open>Calls in sequence.\<close>

lemma runs_then: "runs m (safe \<sigma>) \<Longrightarrow> (\<And>\<sigma>2. safe \<sigma> \<sigma>2 \<Longrightarrow> runs (k \<sigma>2) Q) \<Longrightarrow> runs (m \<bind> k) Q"
  by (auto simp: runs_iff)

lemma runs_stale_updateTimer_at [safe_calls]:
  assumes "safe \<sigma> \<sigma>1" and "sid \<in> dom (heap \<sigma>)" and "\<bar>x\<bar> \<le> 2 ^ 62"
  shows "runs (stale_updateTimer_at sid x \<sigma>1) (safe \<sigma>)"
  unfolding stale_updateTimer_at_def Let_def
  using assms by (intro runs_then [OF runs_upd_stale] runs_upd_stale safe_emit) simp_all

lemma runs_stale_updateTimer [safe_calls]:
  assumes "safe \<sigma> \<sigma>1" and "sid \<in> dom (heap \<sigma>)"
  shows "runs (stale_updateTimer sid \<sigma>1) (safe \<sigma>)"
proof -
  have c: "calm \<sigma>1" using assms(1) by (simp add: safe_def)
  obtain s where s: "heap \<sigma>1 sid = Some s" using safe_session [OF assms] by blast
  obtain cfg where cfg: "adpf \<sigma>1 = Some cfg" "\<bar>mStaleTimeFactor cfg\<bar> \<le> 1024" using c by (auto simp: calm_def)
  have "\<bar>duration s\<bar> \<le> 2 ^ 40" "\<bar>now \<sigma>1\<bar> \<le> 2 ^ 61" using c s unfolding calm_def by auto
  then obtain y where y: "scaled (duration s) (mStaleTimeFactor cfg) = Some y" "\<bar>y\<bar> \<le> 2 ^ 53" using scaled_small cfg(2) by blast
  have b: "\<bar>now \<sigma>1 + y\<bar> \<le> 2 ^ 62" using \<open>\<bar>now \<sigma>1\<bar> \<le> 2 ^ 61\<close> y(2) by simp
  then have "ck64 (now \<sigma>1 + y) = Some (now \<sigma>1 + y)" by (simp add: ck64_def abs_le_iff)
  then show ?thesis
    using runs_stale_updateTimer_at [OF assms b] by (simp add: stale_updateTimer_def s cfg y)
qed

lemma runs_setSessionUclampMin [safe_calls]:
  assumes "safe \<sigma> \<sigma>1" and dom: "sid \<in> dom (heap \<sigma>)"
  shows "runs (setSessionUclampMin sid v \<sigma>1) (safe \<sigma>)"
  unfolding setSessionUclampMin_def
proof (rule runs_then [OF runs_upd_session [OF assms]], simp, simp)
  fix \<sigma>2 assume 2: "safe \<sigma> \<sigma>2"
  have "runs (if v \<noteq> 0 then stale_updateTimer sid \<sigma>2 else Some \<sigma>2) (safe \<sigma>)"
    using runs_stale_updateTimer [OF 2 dom] 2 by simp
  then show "runs ((if v \<noteq> 0 then stale_updateTimer sid \<sigma>2 else Some \<sigma>2) \<bind> setUclampMin sid v) (safe \<sigma>)"
    by (rule runs_then) (rule runs_setUclampMin [OF _ dom])
qed

lemma runs_setStale [safe_calls]:
  assumes "safe \<sigma> \<sigma>1" and dom: "sid \<in> dom (heap \<sigma>)"
  shows "runs (setStale sid \<sigma>1) (safe \<sigma>)"
  unfolding setStale_def
  by (rule runs_then [OF runs_setUclampMin [OF assms]]) (rule runs_updateUniveralBoostMode [OF _ dom])

text \<open>The calls of clients and the messages.\<close>

lemma runs_pause:
  assumes "safe \<sigma> \<sigma>" and dom: "sid \<in> dom (heap \<sigma>)"
  shows "runs (pause sid \<sigma>) (\<lambda>(st, \<sigma>'). safe \<sigma> \<sigma>')"
proof -
  obtain s where s: "heap \<sigma> sid = Some s" using dom by auto
  have "runs (do {
       \<sigma> \<leftarrow> upd_session sid (\<lambda>s. s\<lparr>is_active := False\<rparr>) \<sigma>;
       \<sigma> \<leftarrow> setStale sid \<sigma>;
       \<sigma> \<leftarrow> updateUniveralBoostMode sid \<sigma>;
       Some (STATUS_OK, \<sigma>) }) (\<lambda>(st, \<sigma>'). safe \<sigma> \<sigma>')"
    by (rule runs_then [OF runs_upd_session [OF assms]], simp, simp, rule runs_then [OF runs_setStale [OF _ dom]], assumption,
        rule runs_then [OF runs_updateUniveralBoostMode [OF _ dom]], assumption, simp)
  then show ?thesis unfolding pause_def s bind.simps using assms(1) by (simp only: runs_if runs_Some prod.case if_cancel)
qed

lemma runs_resume:
  assumes "safe \<sigma> \<sigma>" and dom: "sid \<in> dom (heap \<sigma>)"
  shows "runs (resume sid \<sigma>) (\<lambda>(st, \<sigma>'). safe \<sigma> \<sigma>')"
proof -
  obtain s where s: "heap \<sigma> sid = Some s" using dom by auto
  have "runs (do {
       \<sigma> \<leftarrow> upd_session sid (\<lambda>s. s\<lparr>is_active := True\<rparr>) \<sigma>;
       s \<leftarrow> heap \<sigma> sid;
       \<sigma> \<leftarrow> setSessionUclampMin sid (current_min s) \<sigma>;
       \<sigma> \<leftarrow> updateUniveralBoostMode sid \<sigma>;
       Some (STATUS_OK, \<sigma>) }) (\<lambda>(st, \<sigma>'). safe \<sigma> \<sigma>')"
  proof (rule runs_then [OF runs_upd_session [OF assms]], simp, simp)
    fix \<sigma>2 assume 2: "safe \<sigma> \<sigma>2"
    obtain s where "heap \<sigma>2 sid = Some s" using safe_session [OF 2 dom] by blast
    moreover have "runs (setSessionUclampMin sid (current_min s) \<sigma>2 \<bind> (\<lambda>\<sigma>. updateUniveralBoostMode sid \<sigma> \<bind> (\<lambda>\<sigma>. Some (STATUS_OK, \<sigma>))))
       (\<lambda>(st, \<sigma>'). safe \<sigma> \<sigma>')"
      by (rule runs_then [OF runs_setSessionUclampMin [OF 2 dom]], rule runs_then [OF runs_updateUniveralBoostMode [OF _ dom]], assumption, simp)
    ultimately show "runs (heap \<sigma>2 sid \<bind> (\<lambda>s. setSessionUclampMin sid (current_min s) \<sigma>2 \<bind>
        (\<lambda>\<sigma>. updateUniveralBoostMode sid \<sigma> \<bind> (\<lambda>\<sigma>. Some (STATUS_OK, \<sigma>))))) (\<lambda>(st, \<sigma>'). safe \<sigma> \<sigma>')"
      by (simp del: runs_bind)
  qed
  then show ?thesis unfolding resume_def s bind.simps using assms(1) by (simp only: runs_if runs_Some prod.case if_cancel)
qed

lemma runs_wakeup:
  assumes S: "safe \<sigma> \<sigma>1" and dom: "sid \<in> dom (heap \<sigma>)"
  shows "runs (wakeup sid \<sigma>1) (safe \<sigma>)"
proof -
  have c: "calm \<sigma>1" using S by (simp add: safe_def)
  obtain s where s: "heap \<sigma>1 sid = Some s" using safe_session [OF assms] by blast
  obtain b where b: "isTimeout \<sigma>1 s = Some b" using calm_timeout [OF c s] .
  obtain cfg where cfg: "adpf \<sigma>1 = Some cfg" using c by (auto simp: calm_def)
  have "runs (do {
      \<sigma> \<leftarrow> upd_session sid (\<lambda>s. s\<lparr>current_min := v\<rparr>) \<sigma>1;
      \<sigma> \<leftarrow> setUclampMin sid v \<sigma>;
      stale_updateTimer sid \<sigma> }) (safe \<sigma>)" for v
    by (rule runs_then [OF runs_upd_session [OF assms]], simp, simp, rule runs_then [OF runs_setUclampMin [OF _ dom]], assumption)
      (rule runs_stale_updateTimer [OF _ dom])
  then show ?thesis
    unfolding wakeup_def setUclampMin_def [symmetric] s bind.simps b cfg Let_def
    using S by (simp only: runs_if runs_Some) simp
qed

lemma runs_wakeSessions:
  assumes "safe \<sigma> \<sigma>"
  shows "runs (wakeSessions \<sigma>) (safe \<sigma>)"
proof -
  have "set l \<subseteq> dom (heap \<sigma>) \<Longrightarrow> safe \<sigma> \<sigma>1 \<Longrightarrow> runs (wake_all l \<sigma>1) (safe \<sigma>)" for l \<sigma>1
  proof (induction l arbitrary: \<sigma>1)
    case (Cons sid l)
    then have "sid \<in> dom (heap \<sigma>)" "set l \<subseteq> dom (heap \<sigma>)" by auto
    then show ?case
      using Cons.IH runs_wakeup [OF Cons.prems(2)] unfolding wake_all.simps by (intro runs_then [of "wakeup sid \<sigma>1"])
  qed simp
  moreover have "set (mSessions \<sigma>) \<subseteq> dom (heap \<sigma>)" using assms by (simp add: safe_def listed_def)
  ultimately show ?thesis using assms by (simp add: wakeSessions_def)
qed


lemma ck64_timer: "\<bar>x\<bar> \<le> 2 ^ 62 \<Longrightarrow> \<bar>y\<bar> \<le> 2 ^ 61 \<Longrightarrow> ck64 (x - y) = Some (x - y)"
  by (simp add: ck64_def abs_le_iff)

lemma runs_stale_expired:
  assumes S: "safe \<sigma> \<sigma>" and dom: "sid \<in> dom (heap \<sigma>)"
  shows "runs (stale_expired sid \<sigma>) (safe \<sigma>)"
proof -
  obtain h where h: "stale_timer \<sigma> sid = Some h" "\<bar>mTime h\<bar> \<le> 2 ^ 62" using safe_timers(1) [OF S dom] by blast
  have n: "ck64 (mTime h - now \<sigma>) = Some (mTime h - now \<sigma>)" using S h(2) by (intro ck64_timer) (simp_all add: safe_def calm_def)
  have "runs (setStale sid \<sigma> \<bind> upd_stale sid (\<lambda>h. h\<lparr>mIsMonitoring := False\<rparr>)) (safe \<sigma>)"
    by (rule runs_then [OF runs_setStale [OF S dom]], rule runs_upd_stale [OF _ dom]) simp_all
  then show ?thesis
    unfolding stale_expired_def h(1) bind.simps n using S by (simp only: runs_if runs_Some safe_emit if_cancel)
qed

lemma runs_stale_handleMessage:
  assumes S: "safe \<sigma> \<sigma>" and "stale_timer \<sigma> sid = Some h" and "\<not> mIsSessionDead h \<Longrightarrow> sid \<in> dom (heap \<sigma>)"
  shows "runs (stale_handleMessage sid \<sigma>) (safe \<sigma>)"
  using assms runs_stale_expired [OF S, of sid] by (simp add: stale_handleMessage_def del: runs_bind)

lemma runs_boost_handleMessage:
  assumes S: "safe \<sigma> \<sigma>" and h: "boost_timer \<sigma> sid = Some h" and "\<not> mIsSessionDead h \<Longrightarrow> sid \<in> dom (heap \<sigma>)"
  shows "runs (boost_handleMessage sid \<sigma>) (safe \<sigma>)"
proof (cases "mIsSessionDead h")
  case False
  then have dom: "sid \<in> dom (heap \<sigma>)" using assms(3) by simp
  have c: "calm \<sigma>" using S by (simp add: safe_def)
  obtain cfg where cfg: "adpf \<sigma> = Some cfg" using c by (auto simp: calm_def)
  have n: "ck64 (mTime h - now \<sigma>) = Some (mTime h - now \<sigma>)" using c h unfolding calm_def by (intro ck64_timer) blast+
  have "runs (setUclampMin sid v \<sigma> \<bind> upd_boost sid (\<lambda>h. h\<lparr>mIsMonitoring := False\<rparr>)) (safe \<sigma>)" for v
    by (rule runs_then [OF runs_setUclampMin [OF S dom]], rule runs_upd_boost [OF _ dom]) simp_all
  then show ?thesis
    unfolding boost_handleMessage_def h bind.simps n cfg using S False by (simp only: runs_if runs_Some safe_emit if_cancel)
qed (simp add: boost_handleMessage_def h S)

lemma runs_manager_handleMessage:
  assumes S: "safe \<sigma> \<sigma>"
  shows "runs (manager_handleMessage \<sigma>) (safe \<sigma>)"
proof -
  have c: "calm \<sigma>" using S by (simp add: safe_def)
  have "set l \<subseteq> dom (heap \<sigma>) \<Longrightarrow> \<exists>b. any_active \<sigma> l = Some b" for l
  proof (induction l)
    case Nil
    show ?case by (rule exI [of _ False]) simp
  next
    case (Cons sid l)
    then obtain s where s: "heap \<sigma> sid = Some s" by auto
    obtain b where "isTimeout \<sigma> s = Some b" using calm_timeout [OF c s] .
    then show ?case using Cons s by auto
  qed
  moreover have "set (mSessions \<sigma>) \<subseteq> dom (heap \<sigma>)" using S by (simp add: safe_def listed_def)
  ultimately obtain b where "any_active \<sigma> (mSessions \<sigma>) = Some b" by blast
  then show ?thesis
    using S by (simp add: manager_handleMessage_def isAnyAppSessionActive_def disableSystemTopAppBoost_def
        enableSystemTopAppBoost_def safe_def)
qed

text \<open>Closing and destroying.\<close>

lemma runs_remove_tids:
  assumes "ref_ok \<sigma> r" and "\<And>t. count_list ts t \<le> r t" and "\<And>t. r t < 2 ^ 31"
  shows "\<exists>\<sigma>'. remove_tids sid ts \<sigma> = Some \<sigma>'"
  using assms
proof (induction ts arbitrary: \<sigma> r)
  case (Cons t ts)
  have pos: "0 < r t" using Cons.prems(2) [of t] by (simp split: if_splits)
  have m: "mTidRefCountMap \<sigma> t = Some (int (r t))" using Cons.prems(1) pos by (simp add: ref_ok_def)
  have ck: "ck32 (int (r t) - 1) = Some (int (r t) - 1)" using pos Cons.prems(3) [of t] by (simp add: ck32_def)
  have later: "ref_ok \<sigma>' (r(t := r t - 1)) \<Longrightarrow> \<exists>\<sigma>''. remove_tids sid ts \<sigma>' = Some \<sigma>''" for \<sigma>'
  proof (rule Cons.IH)
    fix u
    show "count_list ts u \<le> (r(t := r t - 1)) u" using Cons.prems(2) [of u] pos by (simp split: if_splits)
    show "(r(t := r t - 1)) u < 2 ^ 31" using Cons.prems(3) [of u] by auto
  qed
  show ?case
    unfolding remove_tids.simps m option.case Let_def ck bind.simps
    using Cons.prems(1) pos by (intro later) (auto simp: ref_ok_def)
qed simp


lemma runs_removePowerSession:
  assumes inv: "power_inv \<sigma>" and c: "calm \<sigma>" and s: "heap \<sigma> sid = Some s" "\<not> mSessionClosed s"
  shows "runs (removePowerSession sid (\<sigma>\<lparr>heap := (heap \<sigma>)(sid \<mapsto> s\<lparr>mSessionClosed := True\<rparr>)\<rparr>)) (safe \<sigma>)"
proof -
  let ?\<sigma>0 = "\<sigma>\<lparr>heap := (heap \<sigma>)(sid \<mapsto> s\<lparr>mSessionClosed := True\<rparr>)\<rparr>"
  note I = power_invD [OF inv]
  have "sid \<in> set (mSessions \<sigma>)" using I(2) s by (auto simp: is_open_def)
  then have le: "count_list (threadIds s) u \<le> refs \<sigma> u" for u using refs_split [OF I(1)] s by (simp add: tids_def)
  have ok: "ref_ok ?\<sigma>0 (refs \<sigma>)" using I(4) by (simp add: ref_ok_def)
  have small: "refs \<sigma> u < 2 ^ 31" for u
  proof (cases "refs \<sigma> u = 0")
    case False
    then have "mTidRefCountMap \<sigma> u = Some (int (refs \<sigma> u))" using I(4) by (simp add: ref_ok_def)
    then have "int (refs \<sigma> u) < 2 ^ 31" using c unfolding calm_def by blast
    then show ?thesis by simp
  qed simp
  obtain \<sigma>1 where 1: "remove_tids sid (threadIds s) ?\<sigma>0 = Some \<sigma>1" using runs_remove_tids [OF ok le small] by blast
  note A = remove_tids_spec [OF 1 ok le]
  have r: "heap \<sigma>1 = heap ?\<sigma>0" "stale_timer \<sigma>1 = stale_timer \<sigma>" "boost_timer \<sigma>1 = boost_timer \<sigma>" "mSessions \<sigma>1 = mSessions \<sigma>"
    using A restD [of \<sigma>1 ?\<sigma>0] by simp_all
  have env: "now \<sigma>1 = now \<sigma>" "adpf \<sigma>1 = adpf \<sigma>" using A by (simp_all add: grows_def surroundings_def)
  have d: "dom (heap \<sigma>) = dom (heap \<sigma>1)" using s r(1) by auto
  have "mTidRefCountMap \<sigma>1 t = Some n \<Longrightarrow> n < 2 ^ 31" for t n
    using A small [of t] by (auto simp: ref_ok_def less_imp_diff_less split: if_splits)
  moreover have "heap \<sigma>1 x = Some s' \<Longrightarrow> \<bar>duration s'\<bar> \<le> 2 ^ 40 \<and> \<bar>mLastUpdatedTime s'\<bar> \<le> 2 ^ 61" for x s'
    using c s(1) unfolding calm_def r(1) by (cases "x = sid") auto
  ultimately have "calm \<sigma>1" using c unfolding calm_def env r(2,3) by blast
  moreover have "listed \<sigma>1"
  proof -
    have "listed \<sigma>" by (rule power_inv_listed [OF inv])
    moreover have "set (tid_sessions \<sigma>1 t) \<subseteq> set (tid_sessions \<sigma> t)" for t using A by auto
    ultimately show ?thesis unfolding listed_def r(2-4) d [symmetric] by blast
  qed
  moreover have "calm (\<sigma>1\<lparr>mSessions := removeAll sid (mSessions \<sigma>1)\<rparr>) = calm \<sigma>1" by (simp add: calm_def)
  moreover have "listed \<sigma>1 \<Longrightarrow> listed (\<sigma>1\<lparr>mSessions := removeAll sid (mSessions \<sigma>1)\<rparr>)" unfolding listed_def by auto
  ultimately show ?thesis
    using 1 d by (simp add: removePowerSession_def safe_def)
qed

lemma runs_setSessionDead:
  assumes "safe \<sigma> \<sigma>1" and "sid \<in> dom (heap \<sigma>)"
  shows "runs (boost_setSessionDead sid \<sigma>1) (safe \<sigma>)" "runs (stale_setSessionDead sid \<sigma>1) (safe \<sigma>)"
  unfolding boost_setSessionDead_def stale_setSessionDead_def
  by (rule runs_then [OF runs_upd_boost [OF assms]], simp, simp add: safe_emit)
    (rule runs_then [OF runs_upd_stale [OF assms]], simp, simp add: safe_emit)

lemma runs_close:
  assumes inv: "power_inv \<sigma>" and c: "calm \<sigma>" and dom: "sid \<in> dom (heap \<sigma>)"
  shows "runs (close sid \<sigma>) (\<lambda>(st, \<sigma>'). safe \<sigma> \<sigma>')"
proof -
  obtain s where s: "heap \<sigma> sid = Some s" using dom by auto
  have S: "safe \<sigma> \<sigma>" using c power_inv_listed [OF inv] by (rule safe_refl)
  show ?thesis
  proof (cases "mSessionClosed s")
    case False
    show ?thesis
      unfolding close_def s option.simps upd_session_def [of sid _ \<sigma>] bind.simps if_not_P [OF False]
      apply (rule runs_then [OF runs_removePowerSession [OF inv c s False]])
      apply (rule runs_then [OF runs_setSessionUclampMin [OF _ dom]], assumption)
      apply (rule runs_then [OF runs_upd_session [OF _ dom]], assumption, simp, simp)
      apply (rule runs_then [OF runs_upd_session [OF _ dom]], assumption, simp, simp)
      apply (rule runs_then [OF runs_setSessionDead(1) [OF _ dom]], assumption)
      apply (rule runs_then [OF runs_setSessionDead(2) [OF _ dom]], assumption)
      apply (rule runs_then [OF runs_updateUniveralBoostMode [OF _ dom]], assumption)
      apply simp
      done
  qed (simp add: close_def s S)
qed

lemma runs_delete:
  assumes "power_inv \<sigma>" and "calm \<sigma>" and "sid \<in> dom (heap \<sigma>)"
  shows "runs (delete_PowerHintSession sid \<sigma>) (\<lambda>\<sigma>'. heap \<sigma>' sid = None)"
  using runs_close [OF assms] by (auto simp: delete_PowerHintSession_def runs_iff bind_eq_Some_conv)


text \<open>What a boost request leaves in the session.\<close>

lemma uclamp_tids_frame:
  "ends (uclamp_tids v ts \<sigma>) (\<lambda>\<sigma>'. heap \<sigma>' = heap \<sigma> \<and> stale_timer \<sigma>' = stale_timer \<sigma> \<and> boost_timer \<sigma>' = boost_timer \<sigma>)"
proof (induction ts arbitrary: \<sigma>)
  case (Cons t ts)
  show ?case
    unfolding uclamp_tids.simps Let_def
    apply (rule ends_val, rule ends_val)
    apply (rule ends_mono [OF Cons.IH])
    apply (auto simp: set_uclamp_min_def sched_setattr_def bind_eq_Some_conv Let_def)
    done
qed simp

lemma setSessionUclampMin_frame:
  assumes "heap \<sigma> sid = Some s"
  shows "ends (setSessionUclampMin sid v \<sigma>) (\<lambda>\<sigma>'. heap \<sigma>' = (heap \<sigma>)(sid \<mapsto> s\<lparr>current_min := v\<rparr>) \<and> boost_timer \<sigma>' = boost_timer \<sigma>)"
proof -
  let ?\<sigma> = "\<sigma>\<lparr>heap := (heap \<sigma>)(sid \<mapsto> s\<lparr>current_min := v\<rparr>)\<rparr>"
  have "ends (if v \<noteq> 0 then stale_updateTimer sid ?\<sigma> else Some ?\<sigma>) (\<lambda>\<sigma>'. heap \<sigma>' = heap ?\<sigma> \<and> boost_timer \<sigma>' = boost_timer \<sigma>)"
    by (auto simp: ends_simps stale_updateTimer_def stale_updateTimer_at_def upd_stale_def bind_eq_Some_conv emit_def Let_def intro!: ends_val)
  then show ?thesis
    unfolding setSessionUclampMin_def upd_session_def assms bind.simps
    apply (rule ends_bind)
    apply (simp only: setUclampMin_def setUclampMinLocked_def)
    apply (rule ends_val)
    apply (rule ends_mono [OF uclamp_tids_frame])
    apply simp
    done
qed


text \<open>Creating a session.\<close>

lemma runs_add_tids:
  assumes "ref_ok \<sigma> r" and "\<forall>t p. task_profile_ok \<sigma> t p" and "\<And>t. r t + count_list ts t < 2 ^ 31"
  shows "\<exists>\<sigma>'. add_tids sid ts \<sigma> = Some \<sigma>'"
  using assms
proof (induction ts arbitrary: \<sigma> r)
  case (Cons t ts)
  define \<sigma>1 where "\<sigma>1 = \<sigma>\<lparr>mTidSessionListMap := (mTidSessionListMap \<sigma>)(t \<mapsto> set_insert sid (tid_sessions \<sigma> t))\<rparr>"
  define \<sigma>2 where "\<sigma>2 = (if r t = 0 then (emit (SetTaskProfiles t ''ResetUclampGrp'') \<sigma>1)\<lparr>mTidRefCountMap := (mTidRefCountMap \<sigma>)(t \<mapsto> 1)\<rparr>
     else \<sigma>1\<lparr>mTidRefCountMap := (mTidRefCountMap \<sigma>)(t \<mapsto> int (r t) + 1)\<rparr>)"
  have m: "mTidRefCountMap \<sigma> t = (if r t = 0 then None else Some (int (r t)))" using Cons.prems(1) by (simp add: ref_ok_def)
  have "ref_ok \<sigma>2 (r(t := r t + 1))" using Cons.prems(1) by (auto simp: ref_ok_def \<sigma>2_def \<sigma>1_def)
  moreover have "\<forall>t p. task_profile_ok \<sigma>2 t p" using Cons.prems(2) by (simp add: \<sigma>2_def \<sigma>1_def)
  moreover have "(r(t := r t + 1)) u + count_list ts u < 2 ^ 31" for u using Cons.prems(3) [of u] by (auto split: if_splits)
  ultimately have "\<exists>\<sigma>'. add_tids sid ts \<sigma>2 = Some \<sigma>'" using Cons.IH by blast
  moreover have "ck32 (int (r t) + 1) = Some (int (r t) + 1)" using Cons.prems(3) [of t] by (simp add: ck32_def)
  then have "add_tids sid (t # ts) \<sigma> = add_tids sid ts \<sigma>2"
    using Cons.prems(2) m by (auto simp: \<sigma>2_def \<sigma>1_def Let_def simp flip: tid_sessions_def)
  ultimately show ?case by simp
qed simp

lemma runs_create:
  assumes inv: "power_inv \<sigma>" and c: "calm \<sigma>" and ok: "\<forall>t p. task_profile_ok \<sigma> t p" and fresh: "sid \<notin> dom (stale_timer \<sigma>)"
    and dur: "\<bar>dur\<bar> \<le> 2 ^ 40" and ts: "\<And>t. refs \<sigma> t + count_list ts t < 2 ^ 31" and cfg: "adpf \<sigma> = Some cfg"
  shows "runs (PowerHintSession sid tg u ts dur \<sigma>) (\<lambda>\<sigma>'. heap \<sigma>' = (heap \<sigma>)(sid \<mapsto>
     \<lparr>tgid = tg, uid = u, threadIds = ts, duration = dur, current_min = to_s32 (int (mUclampMinInit cfg)), is_active = True,
      update_count = 0, integral_err = 0, previous_err = 0, mLastUpdatedTime = now \<sigma>, mSessionClosed = False,
      mLastStartedTimeNs = now \<sigma> - dur, mLastDurationNs = dur, mWorkPeriodNs = dur\<rparr>))"
proof -
  define s where "s = \<lparr>tgid = tg, uid = u, threadIds = ts, duration = dur, current_min = 0, is_active = True,
      update_count = 0, integral_err = 0, previous_err = 0, mLastUpdatedTime = now \<sigma>, mSessionClosed = False,
      mLastStartedTimeNs = now \<sigma> - dur, mLastDurationNs = dur, mWorkPeriodNs = dur\<rparr>"
  define \<sigma>0 where "\<sigma>0 = \<sigma>\<lparr>heap := (heap \<sigma>)(sid \<mapsto> s), stale_timer := (stale_timer \<sigma>)(sid \<mapsto> new_timer),
      boost_timer := (boost_timer \<sigma>)(sid \<mapsto> new_timer)\<rparr>"
  note I = power_invD [OF inv]
  have ref: "ref_ok \<sigma>0 (refs \<sigma>)" and ok0: "\<forall>t p. task_profile_ok \<sigma>0 t p" using I(4) ok by (simp_all add: \<sigma>0_def ref_ok_def)
  obtain \<sigma>1 where 1: "add_tids sid ts \<sigma>0 = Some \<sigma>1" using runs_add_tids [OF ref ok0 ts] by blast
  note A = add_tids_spec [OF 1 ok0 ref]
  let ?\<sigma> = "\<sigma>1\<lparr>mSessions := set_insert sid (mSessions \<sigma>1)\<rparr>"
  have r: "heap \<sigma>1 = heap \<sigma>0" "stale_timer \<sigma>1 = stale_timer \<sigma>0" "boost_timer \<sigma>1 = boost_timer \<sigma>0" "mSessions \<sigma>1 = mSessions \<sigma>"
    using A restD [of \<sigma>1 \<sigma>0] by (simp_all add: \<sigma>0_def)
  have env: "now \<sigma>1 = now \<sigma>" "adpf \<sigma>1 = adpf \<sigma>" using A by (simp_all add: grows_def surroundings_def \<sigma>0_def)
  have dn: "\<bar>now \<sigma>\<bar> \<le> 2 ^ 61" using c by (simp add: calm_def)
  have "mTidRefCountMap \<sigma>1 t = Some n \<Longrightarrow> n < 2 ^ 31" for t n using A ts [of t] by (auto simp: ref_ok_def split: if_splits)
  moreover have "heap \<sigma>0 x = Some s' \<Longrightarrow> \<bar>duration s'\<bar> \<le> 2 ^ 40 \<and> \<bar>mLastUpdatedTime s'\<bar> \<le> 2 ^ 61" for x s'
    using c dur dn by (cases "x = sid") (auto simp: calm_def \<sigma>0_def s_def)
  moreover have "stale_timer \<sigma>0 x = Some h \<or> boost_timer \<sigma>0 x = Some h \<Longrightarrow> \<bar>mTime h\<bar> \<le> 2 ^ 62" for x h
    using c by (cases "x = sid") (auto simp: calm_def \<sigma>0_def new_timer_def)
  ultimately have calm: "calm ?\<sigma>" using c unfolding calm_def by (simp add: env r)
  have listed: "listed ?\<sigma>"
    using power_inv_listed [OF inv] A r unfolding listed_def by (auto simp: \<sigma>0_def tid_sessions_def split: if_splits)
  have "sid \<in> dom (heap ?\<sigma>)" "heap ?\<sigma> sid = Some s" using r(1) by (simp_all add: \<sigma>0_def)
  then have "runs (setSessionUclampMin sid v ?\<sigma>) (\<lambda>\<sigma>'. heap \<sigma>' = (heap \<sigma>)(sid \<mapsto> s\<lparr>current_min := v\<rparr>))" for v
    using runs_setSessionUclampMin [OF safe_refl [OF calm listed], of sid v] setSessionUclampMin_frame [of ?\<sigma> sid s v] r(1)
    by (auto simp: runs_iff ends_def \<sigma>0_def)
  moreover have "PowerHintSession sid tg u ts dur \<sigma> = setSessionUclampMin sid (to_s32 (int (mUclampMinInit cfg))) ?\<sigma>"
  proof -
    have "ck64 (now \<sigma> - dur) = Some (now \<sigma> - dur)" using dn dur by (simp add: ck64_def abs_le_iff)
    moreover have "addPowerSession sid \<sigma>0 = Some ?\<sigma>" using 1 by (simp add: addPowerSession_def \<sigma>0_def s_def)
    ultimately show ?thesis using env cfg by (simp add: PowerHintSession_def Let_def \<sigma>0_def s_def)
  qed
  ultimately show ?thesis by (simp add: s_def)
qed

end
