(* ===== verification/Power_Props.thy ===== *)
theory Power_Props
  imports Power_Safety
begin

text \<open>
  The properties of the hint sessions, each over every execution of the service: the invariant of the tables, the boost a thread
  gets, the order of the hints, the absence of undefined behaviour, what \<open>close\<close> and a report do; and the two executions that leave
  a dangling session.
\<close>

section \<open>The boost of a thread\<close>

text \<open>The largest boost an open, active session of the thread asks for that is not stale.\<close>

definition asks :: "power \<Rightarrow> int \<Rightarrow> session \<Rightarrow> bool" where
  "asks \<sigma> t s \<longleftrightarrow> \<not> mSessionClosed s \<and> t \<in> set (threadIds s) \<and> is_active s \<and> isTimeout \<sigma> s = Some False"

definition thread_boost :: "power \<Rightarrow> int \<Rightarrow> int" where
  "thread_boost \<sigma> t = Max (insert 0 (current_min ` {s \<in> ran (heap \<sigma>). asks \<sigma> t s}))"

lemma Max_shift: "finite A \<Longrightarrow> Max (insert (max m c) A) = Max (insert m (insert (c :: int) A))"
  by (cases "A = {}") (simp_all add: max.assoc)

lemma tid_max_Max:
  assumes "calm \<sigma>" and "set l \<subseteq> dom (heap \<sigma>)"
  shows "tid_max \<sigma> l m = Some (Max (insert m (current_min ` {s. \<exists>sid \<in> set l. heap \<sigma> sid = Some s \<and> is_active s \<and> isTimeout \<sigma> s = Some False})))"
  using assms(2)
proof (induction l arbitrary: m)
  case (Cons sid l)
  let ?A = "\<lambda>l. {s. \<exists>sid \<in> set l. heap \<sigma> sid = Some s \<and> is_active s \<and> isTimeout \<sigma> s = Some False}"
  obtain s where s: "heap \<sigma> sid = Some s" using Cons.prems by auto
  obtain b where b: "isTimeout \<sigma> s = Some b" using calm_timeout [OF assms(1) s] .
  have "?A l \<subseteq> (\<lambda>x. the (heap \<sigma> x)) ` set l" by force
  then have fin: "finite (current_min ` ?A l)" using finite_subset by blast
  have A: "?A (sid # l) = (if is_active s \<and> \<not> b then insert s (?A l) else ?A l)" using s b by auto
  have "Max (insert (max m (current_min s)) (current_min ` ?A l)) = Max (insert m (insert (current_min s) (current_min ` ?A l)))"
    using Max_shift [OF fin] .
  then show ?case using s b Cons.IH Cons.prems unfolding A by simp
qed simp

lemma uclamp_tids_spec:
  assumes "calm \<sigma>" and "listed \<sigma>" and "adpf \<sigma> = Some cfg"
    and "\<And>t. t \<in> set ts \<Longrightarrow> tid_max \<sigma> (tid_sessions \<sigma> t) 0 = Some (m t)"
  shows "\<exists>\<sigma>'. uclamp_tids v ts \<sigma> = Some \<sigma>' \<and> heap \<sigma>' = heap \<sigma> \<and>
     events \<sigma>' = events \<sigma> @ (if mUclampMinOn cfg then map (\<lambda>t. SetUclamp t (min (max 0 (max v (m t))) 1024)) ts else [])"
  using assms
proof (induction ts arbitrary: \<sigma>)
  case (Cons t ts)
  let ?\<sigma> = "\<sigma>\<lparr>mTidSessionListMap := (mTidSessionListMap \<sigma>)(t \<mapsto> tid_sessions \<sigma> t)\<rparr>"
  define e where "e = SetUclamp t (min (max 0 (max v (m t))) 1024)"
  have same: "isTimeout (\<sigma>\<lparr>mTidSessionListMap := mm, events := es\<rparr>) = isTimeout \<sigma>" for mm es by (rule ext) (simp add: isTimeout_def)
  have tm: "tid_max (\<sigma>\<lparr>mTidSessionListMap := mm, events := es\<rparr>) l x = tid_max \<sigma> l x" for mm es l x
    by (induction l arbitrary: x) (simp_all add: same cong: if_cong)
  have 1: "tid_max ?\<sigma> (tid_sessions \<sigma> t) 0 = Some (m t)" using Cons.prems(4) [of t] tm [where es = "events \<sigma>"] by simp
  let ?\<sigma>2 = "if mUclampMinOn cfg then emit e ?\<sigma> else ?\<sigma>"
  have "tid_max ?\<sigma>2 l x = tid_max \<sigma> l x" for l x using tm [where es = "events \<sigma>"] tm by (simp add: emit_def)
  then have "\<exists>\<sigma>'. uclamp_tids v ts ?\<sigma>2 = Some \<sigma>' \<and> heap \<sigma>' = heap ?\<sigma>2 \<and>
     events \<sigma>' = events ?\<sigma>2 @ (if mUclampMinOn cfg then map (\<lambda>t. SetUclamp t (min (max 0 (max v (m t))) 1024)) ts else [])"
    using Cons.prems by (intro Cons.IH) simp_all
  moreover have "uclamp_tids v (t # ts) \<sigma> = uclamp_tids v ts ?\<sigma>2"
    using 1 Cons.prems(3) by (simp add: Let_def set_uclamp_min_def sched_setattr_def e_def flip: tid_sessions_def)
  ultimately show ?case by (auto simp: emit_def e_def)
qed simp

lemma tid_max_boost:
  assumes "power_inv \<sigma>" and "calm \<sigma>"
  shows "tid_max \<sigma> (tid_sessions \<sigma> t) 0 = Some (thread_boost \<sigma> t)"
proof -
  note I = power_invD [OF assms(1)]
  have "set (tid_sessions \<sigma> t) \<subseteq> dom (heap \<sigma>)" using power_inv_listed [OF assms(1)] by (simp add: listed_def)
  moreover have "{s. \<exists>sid \<in> set (tid_sessions \<sigma> t). heap \<sigma> sid = Some s \<and> is_active s \<and> isTimeout \<sigma> s = Some False} =
      {s \<in> ran (heap \<sigma>). asks \<sigma> t s}"
    unfolding Bex_def I(3) by (auto simp: asks_def is_open_def tids_def ran_def)
  ultimately show ?thesis using tid_max_Max [OF assms(2)] by (simp add: thread_boost_def)
qed


section \<open>Concrete states\<close>

definition power0 :: power where
  "power0 = \<lparr>heap = Map.empty, stale_timer = Map.empty, boost_timer = Map.empty, mSessions = [], mTidRefCountMap = Map.empty,
     mTidSessionListMap = Map.empty, mActive = False, mDisplayRefreshRate = 60, kDisableBoostHintName = ''ADPF_DISABLE_TA_BOOST'',
     now = 1000000000, adpf = Some sample_adpf, hint_supported = (\<lambda>n. True), task_profile_ok = (\<lambda>t p. True),
     AID_APP_START = 10000, events = []\<rparr>"

text \<open>After an application asked for a session of 16 ms for its thread 7.\<close>

definition session1 :: session where
  "session1 = \<lparr>tgid = 1, uid = 10001, threadIds = [7], duration = 16000000, current_min = 200, is_active = True,
     update_count = 0, integral_err = 0, previous_err = 0, mLastUpdatedTime = 1000000000, mSessionClosed = False,
     mLastStartedTimeNs = 984000000, mLastDurationNs = 16000000, mWorkPeriodNs = 16000000\<rparr>"

definition power1 :: power where
  "power1 = power0\<lparr>heap := [0 \<mapsto> session1], stale_timer := [0 \<mapsto> \<lparr>mTime = 1320000000, mIsMonitoring = True, mIsSessionDead = False\<rparr>],
     boost_timer := [0 \<mapsto> new_timer], mSessions := [0], mTidRefCountMap := [7 \<mapsto> 1], mTidSessionListMap := [7 \<mapsto> [0]],
     events := [SetTaskProfiles 7 ''ResetUclampGrp'', RemoveMessages (StaleTimerHandler 0), SendMessage (StaleTimerHandler 0),
       SetUclamp 7 200]\<rparr>"

lemma fl_sample: "fl 16000000 = 16000000" "fl 320000000 = 320000000" "fl 12000000 = 12000000"
  using fl_int [of 16000000] fl_int [of 320000000] fl_int [of 12000000] by simp_all

lemma create_power1: "PowerHintSession 0 1 10001 [7] 16000000 power0 = Some power1"
  by (simp add: PowerHintSession_def power0_def power1_def session1_def addPowerSession_def set_insert_def emit_def
      setSessionUclampMin_def stale_updateTimer_def stale_updateTimer_at_def scaled_def fl_sample cast64_def trunc_def ck64_def
      sample_adpf_def to_s32_def upd_session_def upd_stale_def new_timer_def setUclampMin_def setUclampMinLocked_def
      isTimeout_def getStaleTime_def set_uclamp_min_def sched_setattr_def Let_def)

lemma reachable_power1: "reachable power0 power1"
  using power_step.create [OF _ create_power1] by (simp add: reachable_def initial_def power0_def)


definition power2 :: power where
  "power2 = power1\<lparr>mActive := True, events := events power1 @ [DoHint ''ADPF_DISABLE_TA_BOOST'']\<rparr>"

lemma manager_power2: "manager_handleMessage power1 = Some power2"
  by (simp add: manager_handleMessage_def isAnyAppSessionActive_def power1_def power0_def power2_def session1_def isTimeout_def
      getStaleTime_def scaled_def fl_sample cast64_def trunc_def ck64_def sample_adpf_def isAppSession_def
      disableSystemTopAppBoost_def emit_def)

lemma reachable_power2: "reachable power0 power2"
  using reachable_power1 power_step.manager [OF manager_power2] unfolding reachable_def by (meson rtranclp.rtrancl_into_rtrancl)

lemma calm_power1: "calm power1"
  by (auto simp: calm_def power1_def power0_def sample_adpf_def session1_def new_timer_def)

section \<open>Properties\<close>

text \<open>
  The tables of the manager agree with the sessions in every execution: the set of sessions holds exactly the open ones, the list of a
  thread exactly the open sessions with that thread, the reference count of a thread is the number of its entries in open sessions, and
  a timer whose session is not marked dead belongs to an open session.
\<close>

theorem reachable_power_inv:
  assumes "reachable \<sigma>0 \<sigma>"
  shows "power_inv \<sigma>"
  using reachable_ok [OF assms] by simp

theorem reachable_power_inv_witness:
  "reachable power0 power1 \<and> power_inv power1 \<and> mTidRefCountMap power1 7 = Some 1"
  using reachable_power_inv [OF reachable_power1] reachable_power1 by (simp add: power1_def)

text \<open>
  The manager never asks \<open>libperfmgr\<close> twice for the same thing: in every execution the hint that disables the
  system's own boost is done and ended in turn, and it is on exactly while the manager believes an application session to be active.
\<close>

theorem reachable_alternating:
  assumes "reachable \<sigma>0 \<sigma>"
  shows "alternating \<sigma>"
  using reachable_ok [OF assms] by simp

theorem reachable_alternating_witness:
  "reachable power0 power2 \<and> alternating power2 \<and> DoHint ''ADPF_DISABLE_TA_BOOST'' \<in> set (events power2)"
  using reachable_alternating [OF reachable_power2] reachable_power2 by (simp add: power2_def)









section \<open>A report\<close>

lemma runs_ends: "runs m P \<Longrightarrow> ends m Q \<Longrightarrow> runs m (\<lambda>x. P x \<and> Q x)"
  by (auto simp: runs_iff ends_def)

lemma safe_touch:
  assumes S: "safe \<sigma> \<sigma>1" and "heap \<sigma>1 sid = Some s" and "duration s' = duration s" and "mLastUpdatedTime s' = now \<sigma>1"
  shows "safe \<sigma> (\<sigma>1\<lparr>heap := (heap \<sigma>1)(sid \<mapsto> s')\<rparr>)"
proof -
  let ?\<sigma> = "\<sigma>1\<lparr>heap := (heap \<sigma>1)(sid \<mapsto> s')\<rparr>"
  have d: "dom (heap ?\<sigma>) = dom (heap \<sigma>1)" using assms(2) by auto
  have "calm ?\<sigma>" using assms unfolding safe_def calm_def by auto
  moreover have "listed ?\<sigma>" using S unfolding safe_def listed_def d by simp
  ultimately show ?thesis using S d by (simp add: safe_def)
qed

lemma to_s32_small: "\<bar>x\<bar> \<le> 2 ^ 30 \<Longrightarrow> to_s32 x = x"
  by (auto simp: to_s32_def abs_le_iff)

lemma runs_touch_timer:
  assumes S: "safe \<sigma> \<sigma>2" and dom: "sid \<in> dom (heap \<sigma>)" and s: "heap \<sigma>2 sid = Some s" and "\<bar>mStaleTimeFactor cfg\<bar> \<le> 1024"
  shows "runs (getStaleTime cfg s \<bind> (\<lambda>t. stale_updateTimer_at sid t \<sigma>2)) (\<lambda>\<sigma>'. heap \<sigma>' = heap \<sigma>2)"
proof -
  have b: "\<bar>duration s\<bar> \<le> 2 ^ 40" "\<bar>mLastUpdatedTime s\<bar> \<le> 2 ^ 61" using S s unfolding safe_def calm_def by auto
  obtain y where y: "scaled (duration s) (mStaleTimeFactor cfg) = Some y" "\<bar>y\<bar> \<le> 2 ^ 53" using scaled_small [OF b(1) assms(4)] .
  have t: "\<bar>mLastUpdatedTime s + y\<bar> \<le> 2 ^ 62" using b(2) y(2) by simp
  then have "getStaleTime cfg s = Some (mLastUpdatedTime s + y)" using y(1) by (simp add: getStaleTime_def ck64_def abs_le_iff)
  moreover have "ends (stale_updateTimer_at sid x \<sigma>2) (\<lambda>\<sigma>'. heap \<sigma>' = heap \<sigma>2)" for x
    by (auto simp: ends_def stale_updateTimer_at_def upd_stale_def bind_eq_Some_conv emit_def Let_def)
  ultimately show ?thesis
    using runs_ends [OF runs_stale_updateTimer_at [OF S dom t]] by (auto simp: runs_iff)
qed

text \<open>The controller's part of a report, from a state in which the session has just been touched.\<close>

lemma runs_report_pid:
  assumes S: "safe \<sigma> \<sigma>1" and s: "heap \<sigma>1 sid = Some s" and cfg: "adpf \<sigma>1 = Some cfg" and "\<not> mEarlyBoostOn cfg"
    and r: "pid_ranges cfg (duration s) ws (integral_err s) (previous_err s)"
    and q: "q = pid_reference cfg (duration s) ws (integral_err s) (previous_err s)"
    and out: "out = pid_output cfg (ns_to_100us (duration s)) (length ws) q" "\<bar>out\<bar> \<le> 2 ^ 30" "\<bar>current_min s\<bar> < 2 ^ 30"
    and lim: "mUclampMinHigh cfg \<le> 1024" "mUclampMinLow cfg \<le> mUclampMinHigh cfg"
  shows "runs (report_pid cfg sid ws \<sigma>1) (\<lambda>\<sigma>'. heap \<sigma>' sid = Some (s\<lparr>integral_err := integral_error q, previous_err := previous_error q,
     current_min := max (int (mUclampMinLow cfg)) (min (int (mUclampMinHigh cfg)) (current_min s + out))\<rparr>))"
proof -
  have dom: "sid \<in> dom (heap \<sigma>)" using S s by (auto simp: safe_def)
  define s1 where "s1 = s\<lparr>integral_err := integral_error q, previous_err := previous_error q\<rparr>"
  define v where "v = max (int (mUclampMinLow cfg)) (min (int (mUclampMinHigh cfg)) (current_min s + out))"
  let ?\<sigma> = "\<sigma>1\<lparr>heap := (heap \<sigma>1)(sid \<mapsto> s1)\<rparr>"
  have S1: "safe \<sigma> ?\<sigma>" using safe_upd [OF S s, of s1] by (simp add: s1_def)
  have conv: "convertWorkDurationToBoostByPid cfg (duration s) ws (integral_err s) (previous_err s) = Some (out, integral_error q, previous_error q)"
    using convert_pure [OF r] out(1) q by (simp add: Let_def)
  have v: "next_boost cfg (current_min s) out = Some v"
    using lim out(2,3) to_s32_small [of "int (mUclampMinHigh cfg)"] to_s32_small [of "int (mUclampMinLow cfg)"]
    by (simp add: next_boost_def to_s32_small v_def ck32_def abs_le_iff abs_less_iff Let_def)
  have 1: "runs (setSessionUclampMin sid v ?\<sigma>) (\<lambda>\<sigma>2. safe \<sigma> \<sigma>2 \<and> heap \<sigma>2 = (heap \<sigma>1)(sid \<mapsto> s1\<lparr>current_min := v\<rparr>))"
    using runs_ends [OF runs_setSessionUclampMin [OF S1 dom] setSessionUclampMin_frame [of ?\<sigma> sid s1 v]]
    by (auto simp: runs_iff)
  then obtain \<sigma>2 where 2: "setSessionUclampMin sid v ?\<sigma> = Some \<sigma>2" "safe \<sigma> \<sigma>2" "heap \<sigma>2 = (heap \<sigma>1)(sid \<mapsto> s1\<lparr>current_min := v\<rparr>)"
    by (auto simp: runs_iff)
  moreover have "\<bar>mStaleTimeFactor cfg\<bar> \<le> 1024" using S cfg by (auto simp: safe_def calm_def)
  ultimately have "runs (getStaleTime cfg (s1\<lparr>current_min := v\<rparr>) \<bind> (\<lambda>t. stale_updateTimer_at sid t \<sigma>2)) (\<lambda>\<sigma>'. heap \<sigma>' = heap \<sigma>2)"
    using runs_touch_timer [OF 2(2) dom] by simp
  moreover have "report_pid cfg sid ws \<sigma>1 = getStaleTime cfg (s1\<lparr>current_min := v\<rparr>) \<bind> (\<lambda>t. stale_updateTimer_at sid t \<sigma>2)"
    using 2 assms(4) s conv v by (simp add: report_pid_def upd_session_def s1_def)
  ultimately show ?thesis using 2(3) by (auto simp: runs_iff s1_def v_def)
qed



lemma sample_report:
  defines "q \<equiv> \<lparr>err_sum = -40, derivative_sum = -40, integral_error = -30, previous_error = -40\<rparr>"
  shows "pid_reference sample_adpf 16000000 [work 12000000] 0 0 = q"
    and "pid_output sample_adpf (ns_to_100us 16000000) 1 q = -55"
    and "pid_ranges sample_adpf 16000000 [work 12000000] 0 0"
  using fl_int [of "-40"] fl_int [of "-15"] fl_int [of "-55"] fl_int [of 0]
  by (simp_all add: q_def pid_reference_def errors_def window_start_def clamp_add_def ns_to_100us_def signed_divide_int_def
        sample_adpf_def work_def Let_def pid_output_def trunc_def pid_ranges_def)



section \<open>Sessions left behind\<close>




end
