(* ===== verification/Interaction.thy ===== *)
theory Interaction
  imports Power_Session
begin

text \<open>
  The interaction boost (\<open>InteractionHandler.cpp\<close>): a touch holds the hint \<open>INTERACTION\<close> until the display is idle or a
  time is over. Callers and the thread of the handler run concurrently; every section under \<open>mLock\<close> is one step, and so
  is every return from a blocking call. The event descriptor is its counter.
\<close>

section \<open>State\<close>

datatype InteractionState =
    INTERACTION_STATE_UNINITIALIZED
  | INTERACTION_STATE_IDLE
  | INTERACTION_STATE_INTERACTION
  | INTERACTION_STATE_WAITING

record timespec =
  tv_sec :: int
  tv_nsec :: int

text \<open>The properties read at start, as unsigned 32 bit numbers.\<close>

record interaction_config =
  kDisplayIdleSupport :: bool
  kMinDurationMs :: nat
  kMaxDurationMs :: nat
  kDurationOffsetMs :: nat

text \<open>Where the thread of the handler is: the points where it takes the lock or blocks.\<close>

datatype routine_point = NotStarted | AtCond | InFirstPoll | InSecondPoll | AtRelease | Returned | Joined

record interaction =
  mState :: InteractionState
  mIdleFd :: int
  mEventFd :: int
  mDurationMs :: int
  mLastTimespec :: timespec
  event_count :: nat
  open_fds :: "int list"
  routine :: routine_point

section \<open>Operations\<close>

definition to_u64 :: "int \<Rightarrow> int" where
  "to_u64 x = x mod 2 ^ 64"

definition CalcTimespecDiffMs :: "timespec \<Rightarrow> timespec \<Rightarrow> int option" where
  "CalcTimespecDiffMs start stop = do {
     s \<leftarrow> ck64 (tv_sec stop - tv_sec start);
     s \<leftarrow> ck64 (s * 1000);
     let diff_in_ms = to_u64 (0 + to_u64 s);
     n \<leftarrow> ck64 (tv_nsec stop - tv_nsec start);
     Some (to_u64 (diff_in_ms + to_u64 (n sdiv 1000000)))
   }"

definition kDispIdlePath :: "string list" where
  "kDispIdlePath = [''/sys/class/drm/card0/device/idle_state'', ''/sys/class/graphics/fb0/idle_state'']"

text \<open>The descriptor or error that opening a path gives is an argument.\<close>

fun open_first :: "(string \<Rightarrow> int) \<Rightarrow> string list \<Rightarrow> int" where
  "open_first sys_open_ro [] = -1"
| "open_first sys_open_ro (path # paths) =
     (let fd = sys_open_ro path in if fd \<ge> 0 then fd else open_first sys_open_ro paths)"

definition FbIdleOpen :: "(string \<Rightarrow> int) \<Rightarrow> int" where
  "FbIdleOpen sys_open_ro = open_first sys_open_ro kDispIdlePath"

definition new_InteractionHandler :: "interaction \<Rightarrow> interaction" where
  "new_InteractionHandler \<iota> =
     \<iota>\<lparr>mState := INTERACTION_STATE_UNINITIALIZED, mDurationMs := 0, event_count := 0, open_fds := [], routine := NotStarted\<rparr>"

definition Init :: "(string \<Rightarrow> int) \<Rightarrow> int \<Rightarrow> interaction \<Rightarrow> bool \<times> interaction" where
  "Init sys_open_ro sys_eventfd \<iota> =
     (if mState \<iota> \<noteq> INTERACTION_STATE_UNINITIALIZED then (True, \<iota>)
      else
        let fd = FbIdleOpen sys_open_ro in
        if fd < 0 then (False, \<iota>)
        else
          let \<iota> = \<iota>\<lparr>mIdleFd := fd, open_fds := open_fds \<iota> @ [fd]\<rparr>;
              \<iota> = \<iota>\<lparr>mEventFd := sys_eventfd\<rparr> in
          if mEventFd \<iota> < 0 then (False, \<iota>\<lparr>open_fds := remove1 (mIdleFd \<iota>) (open_fds \<iota>)\<rparr>)
          else
            let \<iota> = \<iota>\<lparr>open_fds := open_fds \<iota> @ [sys_eventfd], event_count := 0\<rparr>;
                \<iota> = \<iota>\<lparr>mState := INTERACTION_STATE_IDLE\<rparr> in
            (True, \<iota>\<lparr>routine := AtCond\<rparr>))"

text \<open>The counter of the descriptor stops one below the largest value; a write that would pass it fails.\<close>

definition AbortWaitLocked :: "interaction \<Rightarrow> interaction" where
  "AbortWaitLocked \<iota> = (if event_count \<iota> + 1 \<le> 2 ^ 64 - 2 then \<iota>\<lparr>event_count := event_count \<iota> + 1\<rparr> else \<iota>)"

text \<open>\<open>Exit\<close> in two parts, before and after it waits for the thread.\<close>

definition Exit_locked :: "interaction \<Rightarrow> interaction" where
  "Exit_locked \<iota> =
     (if mState \<iota> = INTERACTION_STATE_UNINITIALIZED then \<iota>
      else (AbortWaitLocked \<iota>)\<lparr>mState := INTERACTION_STATE_UNINITIALIZED\<rparr>)"

definition Exit_joined :: "interaction \<Rightarrow> interaction" where
  "Exit_joined \<iota> =
     (let \<iota> = \<iota>\<lparr>routine := Joined\<rparr>;
          \<iota> = \<iota>\<lparr>open_fds := remove1 (mEventFd \<iota>) (open_fds \<iota>)\<rparr> in
      \<iota>\<lparr>open_fds := remove1 (mIdleFd \<iota>) (open_fds \<iota>)\<rparr>)"

definition PerfLock :: "event list" where
  "PerfLock = [DoHint ''INTERACTION'']"

definition PerfRel :: "event list" where
  "PerfRel = [EndHint ''INTERACTION'']"

definition final_duration :: "interaction_config \<Rightarrow> int \<Rightarrow> int" where
  "final_duration cfg dur =
     (let inputDuration = to_s32 (to_u32 (to_u32 dur + int (kDurationOffsetMs cfg))) in
      if to_u32 inputDuration > int (kMaxDurationMs cfg) then to_s32 (int (kMaxDurationMs cfg))
      else if to_u32 inputDuration > int (kMinDurationMs cfg) then inputDuration
      else to_s32 (int (kMinDurationMs cfg)))"

text \<open>\<open>Acquire\<close> at a time of the monotonic clock, with the hints it gives.\<close>

definition Acquire :: "interaction_config \<Rightarrow> timespec \<Rightarrow> int \<Rightarrow> interaction \<Rightarrow> (event list \<times> interaction) option" where
  "Acquire cfg cur_timespec dur \<iota> = do {
     let finalDuration = final_duration cfg dur;
     if \<not> kDisplayIdleSupport cfg \<or> mState \<iota> = INTERACTION_STATE_UNINITIALIZED then
       Some ([DoHintFor ''INTERACTION'' finalDuration], \<iota>)
     else do {
       covered \<leftarrow>
         (if mState \<iota> \<noteq> INTERACTION_STATE_IDLE \<and> finalDuration \<le> mDurationMs \<iota> then do {
            elapsed_time \<leftarrow> CalcTimespecDiffMs (mLastTimespec \<iota>) cur_timespec;
            rest \<leftarrow> ck32 (mDurationMs \<iota> - finalDuration);
            Some (elapsed_time \<le> to_u64 rest)
          } else Some False);
       if covered then Some ([], \<iota>)
       else do {
         let \<iota> = \<iota>\<lparr>mLastTimespec := cur_timespec, mDurationMs := finalDuration\<rparr>;
         let (es, \<iota>) =
           (if mState \<iota> = INTERACTION_STATE_WAITING then ([], AbortWaitLocked \<iota>)
            else if mState \<iota> = INTERACTION_STATE_IDLE then (PerfLock, \<iota>)
            else ([], \<iota>));
         Some (es, \<iota>\<lparr>mState := INTERACTION_STATE_INTERACTION\<rparr>)
       }
     }
   }"

text \<open>Reading the descriptor sets its counter to 0; when it is 0 already the read fails and only a message is logged.\<close>

definition Release :: "interaction \<Rightarrow> event list \<times> interaction" where
  "Release \<iota> =
     (if mState \<iota> = INTERACTION_STATE_WAITING then (PerfRel, \<iota>\<lparr>mState := INTERACTION_STATE_IDLE\<rparr>)
      else ([], \<iota>\<lparr>event_count := 0\<rparr>))"

text \<open>
  Whether \<open>WaitForIdle\<close> goes on to its second poll, from the result of the first poll and what the read of the
  idle state returned and left in the buffer.
\<close>

definition WaitForIdle_again :: "int \<Rightarrow> int \<Rightarrow> string \<Rightarrow> bool" where
  "WaitForIdle_again polled ret data =
     (if polled > 0 then False
      else if polled < 0 then False
      else if ret = 0 then False
      else take 4 data \<noteq> ''idle'')"

text \<open>
  The results \<open>poll\<close> can give: a positive one when a descriptor is ready, 0 for a timeout, in which case the event descriptor
  was not readable, a negative one for an error at any time.
\<close>

definition poll_result :: "interaction \<Rightarrow> bool \<Rightarrow> int \<Rightarrow> bool" where
  "poll_result \<iota> other_ready r \<longleftrightarrow>
     (r > 0 \<longrightarrow> event_count \<iota> > 0 \<or> other_ready) \<and> (r = 0 \<longrightarrow> event_count \<iota> = 0)"

text \<open>The loop of the thread, from one of its points to the next.\<close>

definition Routine_woken :: "interaction \<Rightarrow> interaction" where
  "Routine_woken \<iota> =
     (if mState \<iota> = INTERACTION_STATE_UNINITIALIZED then \<iota>\<lparr>routine := Returned\<rparr>
      else \<iota>\<lparr>mState := INTERACTION_STATE_WAITING, routine := InFirstPoll\<rparr>)"

definition Routine_release :: "interaction \<Rightarrow> event list \<times> interaction" where
  "Routine_release \<iota> = (let (es, \<iota>) = Release \<iota> in (es, \<iota>\<lparr>routine := AtCond\<rparr>))"

inductive routine_step :: "interaction \<times> event list \<Rightarrow> interaction \<times> event list \<Rightarrow> bool" where
  woken: "routine \<iota> = AtCond \<Longrightarrow> mState \<iota> \<noteq> INTERACTION_STATE_IDLE \<Longrightarrow> routine_step (\<iota>, es) (Routine_woken \<iota>, es)"
| first_poll: "routine \<iota> = InFirstPoll \<Longrightarrow> poll_result \<iota> False r \<Longrightarrow>
    routine_step (\<iota>, es) (\<iota>\<lparr>routine := if WaitForIdle_again r ret data then InSecondPoll else AtRelease\<rparr>, es)"
| second_poll: "routine \<iota> = InSecondPoll \<Longrightarrow> poll_result \<iota> idle r \<Longrightarrow> routine_step (\<iota>, es) (\<iota>\<lparr>routine := AtRelease\<rparr>, es)"
| release: "routine \<iota> = AtRelease \<Longrightarrow> Routine_release \<iota> = (es', \<iota>') \<Longrightarrow> routine_step (\<iota>, es) (\<iota>', es @ es')"

inductive caller_step :: "interaction_config \<Rightarrow> interaction \<times> event list \<Rightarrow> interaction \<times> event list \<Rightarrow> bool" for cfg where
  init: "routine \<iota> = NotStarted \<Longrightarrow> Init sys_open_ro sys_eventfd \<iota> = (ok, \<iota>') \<Longrightarrow> caller_step cfg (\<iota>, es) (\<iota>', es)"
| acquire: "Acquire cfg t dur \<iota> = Some (es', \<iota>') \<Longrightarrow> caller_step cfg (\<iota>, es) (\<iota>', es @ es')"
| exit: "caller_step cfg (\<iota>, es) (Exit_locked \<iota>, es)"
| joined: "mState \<iota> = INTERACTION_STATE_UNINITIALIZED \<Longrightarrow> routine \<iota> = Returned \<Longrightarrow> caller_step cfg (\<iota>, es) (Exit_joined \<iota>, es)"

inductive_cases routine_stepE: "routine_step (\<iota>, es) s'"
inductive_cases caller_stepE: "caller_step cfg (\<iota>, es) s'"

definition interaction_step :: "interaction_config \<Rightarrow> interaction \<times> event list \<Rightarrow> interaction \<times> event list \<Rightarrow> bool" where
  "interaction_step cfg s s' \<longleftrightarrow> caller_step cfg s s' \<or> routine_step s s'"

end
