(* ===== verification/Interaction_Props.thy ===== *)
theory Interaction_Props
  imports Interaction
begin

text \<open>
  The properties of the interaction boost over all interleavings of callers and thread: the hint is given and ended in turn and held
  exactly as long as the state says, the thread never waits with an abort pending, \<open>Exit\<close> ends it, and the durations.
\<close>

section \<open>All interleavings\<close>

definition held :: "event list \<Rightarrow> bool option" where
  "held es = turns (DoHint ''INTERACTION'') (EndHint ''INTERACTION'') False es"

definition waiting :: "interaction \<Rightarrow> bool" where
  "waiting \<iota> \<longleftrightarrow> routine \<iota> = InFirstPoll \<or> routine \<iota> = InSecondPoll \<or> routine \<iota> = AtRelease"

definition in_step :: "interaction \<Rightarrow> event list \<Rightarrow> bool" where
  "in_step \<iota> es =
     (case mState \<iota> of
        INTERACTION_STATE_UNINITIALIZED \<Rightarrow> event_count \<iota> \<le> 2 \<and> held es \<noteq> None \<and>
          (routine \<iota> = InFirstPoll \<or> routine \<iota> = InSecondPoll \<longrightarrow> 0 < event_count \<iota>)
      | INTERACTION_STATE_IDLE \<Rightarrow> routine \<iota> = AtCond \<and> event_count \<iota> = 0 \<and> held es = Some False
      | INTERACTION_STATE_INTERACTION \<Rightarrow> (routine \<iota> = AtCond \<and> event_count \<iota> = 0 \<or> waiting \<iota> \<and> event_count \<iota> = 1) \<and> held es = Some True
      | INTERACTION_STATE_WAITING \<Rightarrow> waiting \<iota> \<and> event_count \<iota> = 0 \<and> held es = Some True)"

definition interaction_inv :: "interaction \<Rightarrow> event list \<Rightarrow> bool" where
  "interaction_inv \<iota> es \<longleftrightarrow> in_step \<iota> es \<and>
     open_fds \<iota> = (if routine \<iota> = NotStarted \<or> routine \<iota> = Joined then [] else [mIdleFd \<iota>, mEventFd \<iota>]) \<and>
     (routine \<iota> = NotStarted \<longrightarrow> mState \<iota> = INTERACTION_STATE_UNINITIALIZED \<and> held es = Some False)"

lemmas interaction_simps = interaction_inv_def in_step_def waiting_def

lemma held_simps [simp]:
  "held [] = Some False" "held (es @ PerfLock) = do { b \<leftarrow> held es; if b then None else Some True }"
  "held (es @ PerfRel) = do { b \<leftarrow> held es; if b then Some False else None }" "held (es @ [DoHintFor n d]) = held es"
  by (simp_all add: held_def turns_append PerfLock_def PerfRel_def cong: if_cong)

lemma init_inv: "interaction_inv \<iota> es \<Longrightarrow> routine \<iota> = NotStarted \<Longrightarrow> Init op ev \<iota> = (ok, \<iota>') \<Longrightarrow> interaction_inv \<iota>' es"
  by (auto simp: Init_def interaction_simps Let_def split: if_splits)

lemma acquire_inv:
  assumes "interaction_inv \<iota> es" and "Acquire cfg t d \<iota> = Some (es', \<iota>')"
  shows "interaction_inv \<iota>' (es @ es')"
  using assms
  by (cases "mState \<iota>")
    (auto simp: Acquire_def interaction_simps bind_eq_Some_conv AbortWaitLocked_def Let_def split: if_splits)

lemma exit_inv: "interaction_inv \<iota> es \<Longrightarrow> interaction_inv (Exit_locked \<iota>) es"
  by (cases "mState \<iota>") (auto simp: Exit_locked_def interaction_simps AbortWaitLocked_def)

lemma joined_inv:
  "interaction_inv \<iota> es \<Longrightarrow> mState \<iota> = INTERACTION_STATE_UNINITIALIZED \<Longrightarrow> routine \<iota> = Returned \<Longrightarrow> interaction_inv (Exit_joined \<iota>) es"
  by (simp add: Exit_joined_def interaction_simps)

lemma woken_inv:
  "interaction_inv \<iota> es \<Longrightarrow> routine \<iota> = AtCond \<Longrightarrow> mState \<iota> \<noteq> INTERACTION_STATE_IDLE \<Longrightarrow> interaction_inv (Routine_woken \<iota>) es"
  by (cases "mState \<iota>") (auto simp: Routine_woken_def interaction_simps)

lemma poll_inv:
  assumes "interaction_inv \<iota> es" and "routine \<iota> = InFirstPoll \<or> routine \<iota> = InSecondPoll" and "p = InSecondPoll \<or> p = AtRelease"
  shows "interaction_inv (\<iota>\<lparr>routine := p\<rparr>) es"
  using assms by (cases "mState \<iota>") (auto simp: interaction_simps)

lemma release_inv:
  "interaction_inv \<iota> es \<Longrightarrow> routine \<iota> = AtRelease \<Longrightarrow> Routine_release \<iota> = (es', \<iota>') \<Longrightarrow> interaction_inv \<iota>' (es @ es')"
  by (cases "mState \<iota>") (auto simp: Routine_release_def Release_def interaction_simps Let_def)

lemma routine_step_inv: "routine_step (\<iota>, es) (\<iota>', es') \<Longrightarrow> interaction_inv \<iota> es \<Longrightarrow> interaction_inv \<iota>' es'"
  by (erule routine_stepE) (auto intro: woken_inv poll_inv release_inv)

lemma caller_step_inv: "caller_step cfg (\<iota>, es) (\<iota>', es') \<Longrightarrow> interaction_inv \<iota> es \<Longrightarrow> interaction_inv \<iota>' es'"
  by (erule caller_stepE) (auto intro: init_inv acquire_inv exit_inv joined_inv)

definition interaction_reachable :: "interaction_config \<Rightarrow> interaction \<Rightarrow> event list \<Rightarrow> bool" where
  "interaction_reachable cfg \<iota> es \<longleftrightarrow> (\<exists>\<iota>0. (interaction_step cfg)\<^sup>*\<^sup>* (new_InteractionHandler \<iota>0, []) (\<iota>, es))"

lemma reachable_interaction_inv:
  assumes "interaction_reachable cfg \<iota> es"
  shows "interaction_inv \<iota> es"
proof -
  obtain \<iota>0 where "(interaction_step cfg)\<^sup>*\<^sup>* (new_InteractionHandler \<iota>0, []) (\<iota>, es)"
    using assms by (auto simp: interaction_reachable_def)
  then show ?thesis
  proof (induction rule: rtranclp_induct2)
    case refl
    show ?case by (simp add: new_InteractionHandler_def interaction_simps)
  next
    case (step \<iota>1 es1 \<iota>2 es2)
    then show ?case by (auto simp: interaction_step_def intro: routine_step_inv caller_step_inv)
  qed
qed


section \<open>The thread after a caller\<close>

text \<open>What the thread does next when a caller has taken it out of its wait.\<close>

definition forced :: "interaction \<Rightarrow> interaction" where
  "forced \<iota> =
     (if routine \<iota> = AtCond then Routine_woken \<iota>
      else if routine \<iota> = AtRelease then \<iota>\<lparr>event_count := 0, routine := AtCond\<rparr>
      else \<iota>\<lparr>routine := AtRelease\<rparr>)"

lemma forced_step:
  assumes "mState \<iota> = INTERACTION_STATE_UNINITIALIZED \<or> mState \<iota> = INTERACTION_STATE_INTERACTION"
    and "routine \<iota> = AtCond \<or> routine \<iota> = AtRelease \<or> (routine \<iota> = InFirstPoll \<or> routine \<iota> = InSecondPoll) \<and> 0 < event_count \<iota>"
  shows "routine_step (\<iota>, es) s \<longleftrightarrow> s = (forced \<iota>, es)"
proof
  assume "routine_step (\<iota>, es) s"
  then show "s = (forced \<iota>, es)"
    using assms
    by (elim routine_stepE) (auto simp: forced_def poll_result_def WaitForIdle_again_def Routine_release_def Release_def Let_def)
next
  have p: "0 < event_count \<iota> \<Longrightarrow> poll_result \<iota> b 1" for b by (simp add: poll_result_def)
  assume s: "s = (forced \<iota>, es)"
  from assms(2) show "routine_step (\<iota>, es) s"
  proof (elim disjE conjE)
    assume "routine \<iota> = AtCond"
    then show ?thesis using routine_step.woken [of \<iota> es] assms(1) s by (auto simp: forced_def)
  next
    assume "routine \<iota> = AtRelease"
    then show ?thesis
      using routine_step.release [of \<iota> "[]" _ es] assms(1) s by (auto simp: forced_def Routine_release_def Release_def)
  next
    assume "routine \<iota> = InFirstPoll" "0 < event_count \<iota>"
    then show ?thesis
      using routine_step.first_poll [of \<iota> 1 es 0 "[]"] p s by (simp add: forced_def WaitForIdle_again_def)
  next
    assume "routine \<iota> = InSecondPoll" "0 < event_count \<iota>"
    then show ?thesis
      using routine_step.second_poll [of \<iota> False 1 es] p s by (simp add: forced_def)
  qed
qed

lemma forced_run:
  assumes "mState \<iota> = INTERACTION_STATE_UNINITIALIZED \<or> mState \<iota> = INTERACTION_STATE_INTERACTION"
    and "routine \<iota> = AtCond \<or> routine \<iota> = AtRelease \<or> (routine \<iota> = InFirstPoll \<or> routine \<iota> = InSecondPoll) \<and> 0 < event_count \<iota>"
  shows "\<exists>n \<le> 3. \<exists>c. (c = 0 \<or> routine \<iota> = AtCond \<and> c = event_count \<iota>) \<and>
    (\<forall>s. (routine_step ^^ n) (\<iota>, es) s \<longleftrightarrow> s = (Routine_woken (\<iota>\<lparr>event_count := c, routine := AtCond\<rparr>), es))"
proof -
  have one: "(routine_step ^^ 1) (\<iota>, es) s \<longleftrightarrow> s = (Routine_woken \<iota>, es)" if "routine \<iota> = AtCond"
      "mState \<iota> = INTERACTION_STATE_UNINITIALIZED \<or> mState \<iota> = INTERACTION_STATE_INTERACTION" for \<iota> s
    using forced_step [of \<iota> es s] that by (simp add: forced_def OO_def)
  have two: "(routine_step ^^ 2) (\<iota>, es) s \<longleftrightarrow> s = (Routine_woken (\<iota>\<lparr>event_count := 0, routine := AtCond\<rparr>), es)" if "routine \<iota> = AtRelease"
      "mState \<iota> = INTERACTION_STATE_UNINITIALIZED \<or> mState \<iota> = INTERACTION_STATE_INTERACTION" for \<iota> s
    using forced_step [of \<iota> es] one [of "\<iota>\<lparr>event_count := 0, routine := AtCond\<rparr>" s] that
    by (simp add: forced_def numeral_2_eq_2 relpowp_Suc_left OO_def del: relpowp.simps(2))
  from assms(2) show ?thesis
  proof (elim disjE)
    assume r: "routine \<iota> = AtCond"
    then have w: "Routine_woken (\<iota>\<lparr>event_count := event_count \<iota>, routine := AtCond\<rparr>) = Routine_woken \<iota>" by (cases \<iota>) simp
    show ?thesis using one [OF r assms(1)] r unfolding w [symmetric] by - (rule exI [of _ 1], rule conjI, simp, blast)
  next
    assume r: "routine \<iota> = AtRelease"
    then show ?thesis using two [OF r assms(1)] by - (rule exI [of _ 2], auto)
  next
    assume r: "(routine \<iota> = InFirstPoll \<or> routine \<iota> = InSecondPoll) \<and> 0 < event_count \<iota>"
    have "(routine_step ^^ Suc 2) (\<iota>, es) s \<longleftrightarrow> s = (Routine_woken (\<iota>\<lparr>event_count := 0, routine := AtCond\<rparr>), es)" for s
      unfolding relpowp_Suc_left OO_def
      using forced_step [OF assms, of es] two [of "\<iota>\<lparr>routine := AtRelease\<rparr>" s] r assms(1)
      by (auto simp: forced_def)
    then show ?thesis by - (rule exI [of _ "Suc 2"], auto)
  qed
qed


section \<open>Durations\<close>

lemma to_u32_to_s32: "to_u32 (to_s32 x) = to_u32 x"
  unfolding to_u32_def to_s32_def by (simp add: mod_diff_left_eq)

lemma to_u32_add: "to_u32 (to_u32 x + y) = to_u32 (x + y)"
  unfolding to_u32_def by (simp add: mod_add_left_eq)

definition valid_time :: "timespec \<Rightarrow> bool" where
  "valid_time t \<longleftrightarrow> 0 \<le> tv_sec t \<and> tv_sec t \<le> 2 ^ 40 \<and> 0 \<le> tv_nsec t \<and> tv_nsec t < 1000000000"

definition nanos :: "timespec \<Rightarrow> int" where
  "nanos t = tv_sec t * 1000000000 + tv_nsec t"

lemma sdiv_bounds:
  "\<bar>n - (n sdiv 1000000) * 1000000\<bar> < (1000000 :: int)"
  "0 \<le> n \<Longrightarrow> (n sdiv 1000000) * 1000000 \<le> n" "n \<le> 0 \<Longrightarrow> n \<le> (n sdiv 1000000) * (1000000 :: int)"
  unfolding signed_divide_int_def by (cases "0 \<le> n"; cases "n = 0"; simp add: sgn_if; linarith)+

text \<open>The difference in milliseconds is the true one rounded down, or one more.\<close>

lemma CalcTimespecDiffMs_bounds:
  assumes "valid_time t0" and "valid_time t1" and "nanos t0 \<le> nanos t1"
  obtains d where "CalcTimespecDiffMs t0 t1 = Some d" and "nanos t1 - nanos t0 < (d + 1) * 1000000"
    and "(d - 1) * 1000000 < nanos t1 - nanos t0" and "0 \<le> d" and "d < 2 ^ 51"
proof -
  define s n where "s = tv_sec t1 - tv_sec t0" and "n = tv_nsec t1 - tv_nsec t0"
  have diff: "nanos t1 - nanos t0 = s * 1000000000 + n" by (simp add: nanos_def s_def n_def algebra_simps)
  have b: "0 \<le> s * 1000000000 + n" "\<bar>n\<bar> < 1000000000" "s \<le> 2 ^ 40" using assms diff by (auto simp: valid_time_def s_def n_def)
  have s0: "0 \<le> s" using b(1,2) by linarith
  define q where "q = n sdiv 1000000"
  have q: "\<bar>n - q * 1000000\<bar> < 1000000" "(0 \<le> n \<longrightarrow> q * 1000000 \<le> n) \<and> (n \<le> 0 \<longrightarrow> n \<le> q * 1000000)"
    using sdiv_bounds [of n] by (simp_all add: q_def)
  have d0: "0 \<le> s * 1000 + q" using b(1) q by linarith
  have "s * 1000 + q < 2251799813685248" using b(2) b(3) [simplified] q by linarith
  then have d1: "s * 1000 + q < 2 ^ 51" by simp
  have "CalcTimespecDiffMs t0 t1 = Some (to_u64 (to_u64 (to_u64 (s * 1000)) + to_u64 q))"
    using b s0 by (simp add: CalcTimespecDiffMs_def Let_def q_def flip: s_def n_def)
  also have "to_u64 (to_u64 (to_u64 (s * 1000)) + to_u64 q) = s * 1000 + q"
    using d0 d1 by (simp add: to_u64_def mod_add_eq)
  finally show ?thesis using that d0 d1 b q unfolding diff by force
qed


section \<open>A concrete execution\<close>

definition default_config :: interaction_config where
  "default_config = \<lparr>kDisplayIdleSupport = True, kMinDurationMs = 1400, kMaxDurationMs = 5650, kDurationOffsetMs = 650\<rparr>"

definition interaction0 :: interaction where
  "interaction0 = \<lparr>mState = INTERACTION_STATE_UNINITIALIZED, mIdleFd = 0, mEventFd = 0, mDurationMs = 0,
     mLastTimespec = \<lparr>tv_sec = 0, tv_nsec = 0\<rparr>, event_count = 0, open_fds = [], routine = NotStarted\<rparr>"

text \<open>Initialised, a touch of 1 s taken up by the thread, and during the wait another one.\<close>

definition touched :: interaction where
  "touched = \<lparr>mState = INTERACTION_STATE_INTERACTION, mIdleFd = 5, mEventFd = 6, mDurationMs = 1650,
     mLastTimespec = \<lparr>tv_sec = 10, tv_nsec = 900000000\<rparr>, event_count = 1, open_fds = [5, 6], routine = InFirstPoll\<rparr>"

lemma interaction_stepI:
  "caller_step cfg s s' \<Longrightarrow> interaction_step cfg s s'" "routine_step s s' \<Longrightarrow> interaction_step cfg s s'"
  by (simp_all add: interaction_step_def)

lemma reachable_touched: "interaction_reachable default_config touched [DoHint ''INTERACTION'']"
proof -
  let ?i1 = "snd (Init (\<lambda>p. 5) 6 interaction0)"
  let ?i2 = "?i1\<lparr>mLastTimespec := \<lparr>tv_sec = 10, tv_nsec = 0\<rparr>, mDurationMs := 1650, mState := INTERACTION_STATE_INTERACTION\<rparr>"
  let ?i3 = "?i2\<lparr>mState := INTERACTION_STATE_WAITING, routine := InFirstPoll\<rparr>"
  note ev = Init_def FbIdleOpen_def kDispIdlePath_def interaction0_def default_config_def final_duration_def to_s32_def to_u32_def
    Acquire_def PerfLock_def AbortWaitLocked_def CalcTimespecDiffMs_def to_u64_def ck32_def signed_divide_int_def touched_def
  have new: "new_InteractionHandler interaction0 = interaction0" by (simp add: new_InteractionHandler_def interaction0_def)
  have "caller_step default_config (interaction0, []) (?i1, [])"
    by (rule caller_step.init [of _ "\<lambda>p. 5" 6 True]) (simp_all add: ev)
  moreover have "caller_step default_config (?i1, []) (?i2, [] @ [DoHint ''INTERACTION''])"
    by (rule caller_step.acquire [of _ "\<lparr>tv_sec = 10, tv_nsec = 0\<rparr>" 1000]) (simp add: ev)
  moreover have "routine_step (?i2, [DoHint ''INTERACTION'']) (?i3, [DoHint ''INTERACTION''])"
    using routine_step.woken [of ?i2 "[DoHint ''INTERACTION'']"] by (simp add: ev Routine_woken_def)
  moreover have "caller_step default_config (?i3, [DoHint ''INTERACTION'']) (touched, [DoHint ''INTERACTION''] @ [])"
    by (rule caller_step.acquire [of _ "\<lparr>tv_sec = 10, tv_nsec = 900000000\<rparr>" 1000]) (simp add: ev)
  ultimately have "(interaction_step default_config)\<^sup>*\<^sup>* (interaction0, []) (touched, [DoHint ''INTERACTION''])"
    unfolding append_Nil append_Nil2
    by (blast intro: interaction_stepI converse_rtranclp_into_rtranclp)
  then show ?thesis unfolding interaction_reachable_def using new by metis
qed

section \<open>Properties\<close>

text \<open>
  Claim C15. In every interleaving of callers and thread the hint \<open>INTERACTION\<close> is given and ended strictly in turn, and while the handler
  is initialised it is held exactly in the states \<open>INTERACTION\<close> and \<open>WAITING\<close>.
\<close>

theorem interaction_hint_in_turn:
  assumes "interaction_reachable cfg \<iota> es"
  shows "held es \<noteq> None \<and> (mState \<iota> \<noteq> INTERACTION_STATE_UNINITIALIZED \<longrightarrow>
    held es = Some (mState \<iota> = INTERACTION_STATE_INTERACTION \<or> mState \<iota> = INTERACTION_STATE_WAITING))"
  using reachable_interaction_inv [OF assms] by (cases "mState \<iota>") (auto simp: interaction_simps)

theorem interaction_hint_in_turn_witness:
  "interaction_reachable default_config touched [DoHint ''INTERACTION''] \<and> held [DoHint ''INTERACTION''] = Some True \<and>
   mState touched = INTERACTION_STATE_INTERACTION"
  using interaction_hint_in_turn [OF reachable_touched] reachable_touched by (simp add: touched_def)

text \<open>
  Claim C17. A touch is never lost. In every interleaving, once \<open>Acquire\<close> has set the state, at most three steps of the thread, whatever the system calls
  return, begin a new wait with the abort cleared, and the hint is not ended in between.
\<close>

theorem Acquire_restarts_wait:
  assumes "interaction_reachable cfg \<iota> es" and "mState \<iota> = INTERACTION_STATE_INTERACTION"
  shows "\<exists>n \<le> 3. \<exists>\<iota>'. (\<forall>s. (routine_step ^^ n) (\<iota>, es) s \<longleftrightarrow> s = (\<iota>', es)) \<and>
    mState \<iota>' = INTERACTION_STATE_WAITING \<and> routine \<iota>' = InFirstPoll \<and> event_count \<iota>' = 0 \<and> mDurationMs \<iota>' = mDurationMs \<iota>"
proof -
  have inv: "routine \<iota> = AtCond \<and> event_count \<iota> = 0 \<or> waiting \<iota> \<and> event_count \<iota> = 1"
    using reachable_interaction_inv [OF assms(1)] assms(2) by (simp add: interaction_inv_def in_step_def)
  then obtain n c where n: "n \<le> 3" and c: "c = 0 \<or> routine \<iota> = AtCond \<and> c = event_count \<iota>"
    and run: "\<And>s. (routine_step ^^ n) (\<iota>, es) s \<longleftrightarrow> s = (Routine_woken (\<iota>\<lparr>event_count := c, routine := AtCond\<rparr>), es)"
    using forced_run [of \<iota> es] assms(2) by (auto simp: waiting_def)
  have "c = 0" using c inv by (auto simp: waiting_def)
  then show ?thesis
    using n run assms(2) by - (rule exI [of _ n], rule conjI [OF n], rule exI, rule conjI, rule allI, rule run, simp add: Routine_woken_def)
qed

theorem Acquire_restarts_wait_witness:
  "interaction_reachable default_config touched [DoHint ''INTERACTION''] \<and>
   (\<exists>n \<le> 3. \<exists>\<iota>'. (\<forall>s. (routine_step ^^ n) (touched, [DoHint ''INTERACTION'']) s \<longleftrightarrow> s = (\<iota>', [DoHint ''INTERACTION''])) \<and>
      mState \<iota>' = INTERACTION_STATE_WAITING \<and> routine \<iota>' = InFirstPoll \<and> event_count \<iota>' = 0 \<and> mDurationMs \<iota>' = 1650)"
  using Acquire_restarts_wait [OF reachable_touched] reachable_touched by (simp add: touched_def)

text \<open>
  Claim C16. \<open>Exit\<close> returns. In every interleaving, after its first part at most three steps of the thread, whatever the system calls return, end
  the thread, so that the join returns; then no descriptor is left open. No hint is ended on the way: a hint that was held stays held.
\<close>

theorem Exit_ends_routine:
  assumes "interaction_reachable cfg \<iota> es" and "mState \<iota> \<noteq> INTERACTION_STATE_UNINITIALIZED"
  shows "\<exists>n \<le> 3. \<exists>\<iota>'. (\<forall>s. (routine_step ^^ n) (Exit_locked \<iota>, es) s \<longleftrightarrow> s = (\<iota>', es)) \<and>
    routine \<iota>' = Returned \<and> open_fds (Exit_joined \<iota>') = [] \<and> mState \<iota>' = INTERACTION_STATE_UNINITIALIZED"
proof -
  let ?e = "Exit_locked \<iota>"
  have inv0: "interaction_inv \<iota> es" by (rule reachable_interaction_inv [OF assms(1)])
  have inv: "interaction_inv ?e es" by (rule exit_inv [OF inv0])
  have e: "mState ?e = INTERACTION_STATE_UNINITIALIZED" "routine ?e = routine \<iota>" "mIdleFd ?e = mIdleFd \<iota>" "mEventFd ?e = mEventFd \<iota>"
    by (simp_all add: Exit_locked_def AbortWaitLocked_def)
  have r: "routine \<iota> = AtCond \<or> waiting \<iota>"
    using inv0 assms(2) by (cases "mState \<iota>") (auto simp: interaction_simps)
  have fds: "open_fds ?e = [mIdleFd \<iota>, mEventFd \<iota>]"
    using inv r e by (auto simp: interaction_inv_def waiting_def)
  have "routine ?e = AtCond \<or> routine ?e = AtRelease \<or> (routine ?e = InFirstPoll \<or> routine ?e = InSecondPoll) \<and> 0 < event_count ?e"
    using inv r e by (auto simp: interaction_simps)
  then obtain n c where n: "n \<le> 3"
    and run: "\<And>s. (routine_step ^^ n) (?e, es) s \<longleftrightarrow> s = (Routine_woken (?e\<lparr>event_count := c, routine := AtCond\<rparr>), es)"
    using forced_run [of ?e es] e by auto
  show ?thesis
    using e fds by - (rule exI [of _ n], rule conjI [OF n], rule exI, rule conjI, rule allI, rule run,
      simp add: Routine_woken_def Exit_joined_def)
qed

theorem Exit_ends_routine_witness:
  "interaction_reachable default_config touched [DoHint ''INTERACTION''] \<and>
   (\<exists>n \<le> 3. \<exists>\<iota>'. (\<forall>s. (routine_step ^^ n) (Exit_locked touched, [DoHint ''INTERACTION'']) s \<longleftrightarrow> s = (\<iota>', [DoHint ''INTERACTION''])) \<and>
      routine \<iota>' = Returned \<and> open_fds (Exit_joined \<iota>') = [] \<and> mState \<iota>' = INTERACTION_STATE_UNINITIALIZED)"
  using Exit_ends_routine [OF reachable_touched] reachable_touched by (simp add: touched_def)

text \<open>
  The duration of a touch: the requested one plus the offset, limited to the configured range. When the sum is negative the comparison
  with the unsigned limits takes it for a large number, so a negative request gets the longest boost.
\<close>

theorem final_duration_exact:
  assumes "- (2 ^ 31) \<le> dur" and "dur < 2 ^ 31" and "kDurationOffsetMs cfg < 2 ^ 31" and "kMaxDurationMs cfg < 2 ^ 31"
    and "kMinDurationMs cfg \<le> kMaxDurationMs cfg"
  shows "final_duration cfg dur =
    (if dur + int (kDurationOffsetMs cfg) < 0 then int (kMaxDurationMs cfg)
     else max (int (kMinDurationMs cfg)) (min (int (kMaxDurationMs cfg)) (dur + int (kDurationOffsetMs cfg))))"
proof -
  define x where "x = dur + int (kDurationOffsetMs cfg)"
  have x: "- (2 ^ 31) \<le> x" "x < 2 ^ 32" using assms(1-3) by (simp_all add: x_def)
  have m: "to_s32 (int (kMaxDurationMs cfg)) = int (kMaxDurationMs cfg)" "to_s32 (int (kMinDurationMs cfg)) = int (kMinDurationMs cfg)"
    using assms(4,5) by (simp_all add: to_s32_id)
  show ?thesis
  proof (cases "x < 0")
    case True
    have "to_u32 x = (x + 2 ^ 32) mod 2 ^ 32" by (simp add: to_u32_def)
    also have "\<dots> = x + 2 ^ 32" using True x by (intro mod_pos_pos_trivial) simp_all
    finally have "to_u32 x > int (kMaxDurationMs cfg)" using x(1) assms(4) by simp
    then show ?thesis using True m by (simp add: final_duration_def Let_def to_u32_to_s32 to_u32_add flip: x_def)
        (simp add: to_u32_def)
  next
    case False
    then have u: "to_u32 x = x" using x by (simp add: to_u32_def)
    then have "x \<le> int (kMaxDurationMs cfg) \<Longrightarrow> to_s32 x = x" using False assms(4) by (intro to_s32_id) simp_all
    then show ?thesis using False m u assms(5) unfolding final_duration_def Let_def to_u32_to_s32 to_u32_add
      by (auto simp flip: x_def)
  qed
qed

theorem final_duration_exact_witness:
  "final_duration default_config 1000 = 1650 \<and> final_duration default_config (-1000) = 5650"
  using final_duration_exact [of 1000 default_config] final_duration_exact [of "-1000" default_config] by (simp add: default_config_def)


text \<open>
  Claim C18. Whether a touch needs a new hint. While a hint is held, \<open>Acquire\<close> returns, the time up to which the hint is promised never moves back, and it ends up
  less than a millisecond short of what the touch asks for, if at all.
\<close>

theorem Acquire_covers:
  assumes "valid_time (mLastTimespec \<iota>)" and "valid_time t" and "nanos (mLastTimespec \<iota>) \<le> nanos t"
    and "0 \<le> mDurationMs \<iota>" and "mDurationMs \<iota> < 2 ^ 31" and "0 \<le> final_duration cfg dur" and "final_duration cfg dur < 2 ^ 31"
    and "kDisplayIdleSupport cfg" and "mState \<iota> = INTERACTION_STATE_INTERACTION \<or> mState \<iota> = INTERACTION_STATE_WAITING"
  shows "\<exists>\<iota>'. Acquire cfg t dur \<iota> = Some ([], \<iota>') \<and>
    nanos (mLastTimespec \<iota>) + mDurationMs \<iota> * 1000000 \<le> nanos (mLastTimespec \<iota>') + mDurationMs \<iota>' * 1000000 \<and>
    nanos t + final_duration cfg dur * 1000000 < nanos (mLastTimespec \<iota>') + (mDurationMs \<iota>' + 1) * 1000000"
proof -
  define f where "f = final_duration cfg dur"
  obtain d where d: "CalcTimespecDiffMs (mLastTimespec \<iota>) t = Some d" "nanos t - nanos (mLastTimespec \<iota>) < (d + 1) * 1000000"
    "(d - 1) * 1000000 < nanos t - nanos (mLastTimespec \<iota>)" "0 \<le> d" "d < 2 ^ 51"
    using CalcTimespecDiffMs_bounds [OF assms(1-3)] .
  let ?new = "(if mState \<iota> = INTERACTION_STATE_WAITING then AbortWaitLocked (\<iota>\<lparr>mLastTimespec := t, mDurationMs := f\<rparr>)
     else \<iota>\<lparr>mLastTimespec := t, mDurationMs := f\<rparr>)\<lparr>mState := INTERACTION_STATE_INTERACTION\<rparr>"
  have new: "mLastTimespec ?new = t" "mDurationMs ?new = f" by (auto simp: AbortWaitLocked_def)
  have r: "f \<le> mDurationMs \<iota> \<Longrightarrow> ck32 (mDurationMs \<iota> - f) = Some (mDurationMs \<iota> - f) \<and> to_u64 (mDurationMs \<iota> - f) = mDurationMs \<iota> - f"
    using assms(5,6) by (simp add: f_def ck32_def to_u64_def)
  have a: "Acquire cfg t dur \<iota> = Some ([], if f \<le> mDurationMs \<iota> \<and> d \<le> mDurationMs \<iota> - f then \<iota> else ?new)"
    using assms(8,9) d(1) r by (auto simp: Acquire_def Let_def simp flip: f_def)
  show ?thesis
  proof (cases "f \<le> mDurationMs \<iota> \<and> d \<le> mDurationMs \<iota> - f")
    case True
    then have "(d + 1) * 1000000 \<le> (mDurationMs \<iota> - f + 1) * 1000000" by simp
    then have "nanos t - nanos (mLastTimespec \<iota>) < (mDurationMs \<iota> - f + 1) * 1000000" using d(2) by (rule order.strict_trans2 [rotated])
    then show ?thesis using True a by (simp add: algebra_simps flip: f_def)
  next
    case False
    then have "nanos (mLastTimespec \<iota>) + mDurationMs \<iota> * 1000000 \<le> nanos t + f * 1000000"
    proof (cases "f \<le> mDurationMs \<iota>")
      case True
      then have "(mDurationMs \<iota> - f) * 1000000 \<le> (d - 1) * 1000000" using False by simp
      then show ?thesis using d(3) by (simp add: left_diff_distrib)
    next
      case False
      then have "mDurationMs \<iota> * 1000000 \<le> f * 1000000" by simp
      then show ?thesis using assms(3) by (rule add_mono [rotated])
    qed
    then show ?thesis using a [unfolded if_not_P [OF False]] new by (simp add: algebra_simps flip: f_def)
  qed
qed

theorem Acquire_covers_witness:
  "\<exists>\<iota>'. Acquire default_config \<lparr>tv_sec = 11, tv_nsec = 0\<rparr> 500 touched = Some ([], \<iota>') \<and>
     10900000000 + 1650 * 1000000 \<le> nanos (mLastTimespec \<iota>') + mDurationMs \<iota>' * 1000000"
proof -
  have "final_duration default_config 500 = 1400" by (simp add: final_duration_def default_config_def to_s32_def to_u32_def)
  then show ?thesis
    using Acquire_covers [of touched "\<lparr>tv_sec = 11, tv_nsec = 0\<rparr>" default_config 500]
    by (force simp: touched_def valid_time_def nanos_def default_config_def)
qed

end
