(* ===== verification/Power_Hal.thy ===== *)
theory Power_Hal
  imports Power_Props Interaction_Props
begin

text \<open>
  The power service itself (\<open>Power.cpp\<close> and \<open>PowerExt.cpp\<close>), which passes modes and boosts on to \<open>libperfmgr\<close>, the session manager and the
  interaction handler, and creates the hint sessions: the composition of the parts, with both parts' invariants over all its executions.
\<close>

section \<open>Modes and boosts\<close>

text \<open>The enumerators the source names; the others of the interface by their name.\<close>

datatype Mode =
    SUSTAINED_PERFORMANCE | LAUNCH | DOUBLE_TAP_TO_WAKE | FIXED_PERFORMANCE | EXPENSIVE_RENDERING | INTERACTIVE
  | DEVICE_IDLE | DISPLAY_INACTIVE | AUDIO_STREAMING_LOW_LATENCY | GAME_LOADING | OtherMode string

datatype Boost = INTERACTION | DISPLAY_UPDATE_IMMINENT | ML_ACC | AUDIO_LAUNCH | OtherBoost string

fun mode_toString :: "Mode \<Rightarrow> string" where
  "mode_toString SUSTAINED_PERFORMANCE = ''SUSTAINED_PERFORMANCE''"
| "mode_toString LAUNCH = ''LAUNCH''"
| "mode_toString DOUBLE_TAP_TO_WAKE = ''DOUBLE_TAP_TO_WAKE''"
| "mode_toString FIXED_PERFORMANCE = ''FIXED_PERFORMANCE''"
| "mode_toString EXPENSIVE_RENDERING = ''EXPENSIVE_RENDERING''"
| "mode_toString INTERACTIVE = ''INTERACTIVE''"
| "mode_toString DEVICE_IDLE = ''DEVICE_IDLE''"
| "mode_toString DISPLAY_INACTIVE = ''DISPLAY_INACTIVE''"
| "mode_toString AUDIO_STREAMING_LOW_LATENCY = ''AUDIO_STREAMING_LOW_LATENCY''"
| "mode_toString GAME_LOADING = ''GAME_LOADING''"
| "mode_toString (OtherMode n) = n"

fun boost_toString :: "Boost \<Rightarrow> string" where
  "boost_toString INTERACTION = ''INTERACTION''"
| "boost_toString DISPLAY_UPDATE_IMMINENT = ''DISPLAY_UPDATE_IMMINENT''"
| "boost_toString ML_ACC = ''ML_ACC''"
| "boost_toString AUDIO_LAUNCH = ''AUDIO_LAUNCH''"
| "boost_toString (OtherBoost n) = n"

section \<open>Power\<close>

record hal =
  mSustainedPerfModeOn :: bool
  mInteractionHandler :: interaction
  managed :: power

definition hint :: "event \<Rightarrow> hal \<Rightarrow> hal" where
  "hint e \<pi> = \<pi>\<lparr>managed := emit e (managed \<pi>)\<rparr>"

definition adpf_on :: "hal \<Rightarrow> bool" where
  "adpf_on \<pi> = (case adpf (managed \<pi>) of None \<Rightarrow> False | Some cfg \<Rightarrow> mReportingRateLimitNs cfg > 0)"

text \<open>The three properties of the constructor are arguments, as are the descriptors the interaction handler opens.\<close>

definition new_Power :: "(string \<Rightarrow> int) \<Rightarrow> int \<Rightarrow> string \<Rightarrow> string \<Rightarrow> string \<Rightarrow> interaction \<Rightarrow> power \<Rightarrow> hal" where
  "new_Power sys_open_ro sys_eventfd state_prop audio_prop rendering_prop \<iota> \<sigma> =
     (let \<pi> = \<lparr>mSustainedPerfModeOn = False,
               mInteractionHandler = snd (Init sys_open_ro sys_eventfd (new_InteractionHandler \<iota>)), managed = \<sigma>\<rparr>;
          \<pi> = (if state_prop = ''SUSTAINED_PERFORMANCE''
               then (hint (DoHint ''SUSTAINED_PERFORMANCE'') \<pi>)\<lparr>mSustainedPerfModeOn := True\<rparr> else \<pi>);
          \<pi> = (if audio_prop = ''AUDIO_STREAMING_LOW_LATENCY'' then hint (DoHint audio_prop) \<pi> else \<pi>) in
      if rendering_prop = ''EXPENSIVE_RENDERING'' then hint (DoHint ''EXPENSIVE_RENDERING'') \<pi> else \<pi>)"

definition setMode_default :: "Mode \<Rightarrow> bool \<Rightarrow> hal \<Rightarrow> hal" where
  "setMode_default type enabled \<pi> =
     (if enabled then hint (DoHint (mode_toString type)) \<pi> else hint (EndHint (mode_toString type)) \<pi>)"

definition setMode :: "Mode \<Rightarrow> bool \<Rightarrow> hal \<Rightarrow> status \<times> hal" where
  "setMode type enabled \<pi> =
     (let \<pi> = (if adpf_on \<pi> then \<pi>\<lparr>managed := updateHintMode (mode_toString type) enabled (managed \<pi>)\<rparr> else \<pi>);
          \<pi> = (case type of
                 SUSTAINED_PERFORMANCE \<Rightarrow>
                   (if enabled then hint (DoHint ''SUSTAINED_PERFORMANCE'') \<pi> else \<pi>)\<lparr>mSustainedPerfModeOn := True\<rparr>
               | LAUNCH \<Rightarrow> if mSustainedPerfModeOn \<pi> then \<pi> else setMode_default type enabled \<pi>
               | _ \<Rightarrow> setMode_default type enabled \<pi>) in
      (STATUS_OK, \<pi>))"

definition isModeSupported :: "Mode \<Rightarrow> hal \<Rightarrow> status \<times> bool" where
  "isModeSupported type \<pi> = (STATUS_OK, hint_supported (managed \<pi>) (mode_toString type))"

definition boost_hints :: "string \<Rightarrow> int \<Rightarrow> event" where
  "boost_hints name durationMs =
     (if durationMs > 0 then DoHintFor name durationMs
      else if durationMs = 0 then DoHint name
      else EndHint name)"

text \<open>The time and the settings of the interaction handler are arguments; its hints come back beside the state.\<close>

definition setBoost :: "interaction_config \<Rightarrow> timespec \<Rightarrow> Boost \<Rightarrow> int \<Rightarrow> hal \<Rightarrow> (event list \<times> status \<times> hal) option" where
  "setBoost icfg t type durationMs \<pi> = do {
     let \<pi> = (if adpf_on \<pi> then \<pi>\<lparr>managed := updateHintBoost (boost_toString type) durationMs (managed \<pi>)\<rparr> else \<pi>);
     case type of
       INTERACTION \<Rightarrow>
         if mSustainedPerfModeOn \<pi> then Some ([], STATUS_OK, \<pi>)
         else do {
           (es, \<iota>) \<leftarrow> Acquire icfg t durationMs (mInteractionHandler \<pi>);
           Some (es, STATUS_OK, \<pi>\<lparr>mInteractionHandler := \<iota>\<rparr>)
         }
     | _ \<Rightarrow>
         if mSustainedPerfModeOn \<pi> then Some ([], STATUS_OK, \<pi>)
         else Some ([], STATUS_OK, hint (boost_hints (boost_toString type) durationMs) \<pi>)
   }"

definition isBoostSupported :: "Boost \<Rightarrow> hal \<Rightarrow> status \<times> bool" where
  "isBoostSupported type \<pi> = (STATUS_OK, hint_supported (managed \<pi>) (boost_toString type))"

text \<open>The number of the new session is an argument; \<open>None\<close> in the result is the null pointer.\<close>

definition createHintSession :: "nat \<Rightarrow> int \<Rightarrow> int \<Rightarrow> int list \<Rightarrow> int \<Rightarrow> hal \<Rightarrow> (status \<times> nat option \<times> hal) option" where
  "createHintSession sid tg u thr dur \<pi> =
     (if \<not> adpf_on \<pi> then Some (EX_UNSUPPORTED_OPERATION, None, \<pi>)
      else if length thr = 0 then Some (EX_ILLEGAL_ARGUMENT, None, \<pi>)
      else do {
        \<sigma> \<leftarrow> PowerHintSession sid tg u thr dur (managed \<pi>);
        Some (STATUS_OK, Some sid, \<pi>\<lparr>managed := \<sigma>\<rparr>)
      })"

definition getHintSessionPreferredRate :: "hal \<Rightarrow> status \<times> int" where
  "getHintSessionPreferredRate \<pi> =
     (let outNanoseconds = (case adpf (managed \<pi>) of None \<Rightarrow> 0 | Some cfg \<Rightarrow> mReportingRateLimitNs cfg) in
      (if outNanoseconds \<le> 0 then EX_UNSUPPORTED_OPERATION else STATUS_OK, outNanoseconds))"

section \<open>PowerExt\<close>

definition ext_setMode :: "string \<Rightarrow> bool \<Rightarrow> hal \<Rightarrow> status \<times> hal" where
  "ext_setMode mode enabled \<pi> =
     (let \<pi> = (if enabled then hint (DoHint mode) \<pi> else hint (EndHint mode) \<pi>);
          \<pi> = (if adpf_on \<pi> then \<pi>\<lparr>managed := updateHintMode mode enabled (managed \<pi>)\<rparr> else \<pi>) in
      (STATUS_OK, \<pi>))"

definition ext_isModeSupported :: "string \<Rightarrow> hal \<Rightarrow> status \<times> bool" where
  "ext_isModeSupported mode \<pi> = (STATUS_OK, hint_supported (managed \<pi>) mode)"

definition ext_setBoost :: "string \<Rightarrow> int \<Rightarrow> hal \<Rightarrow> status \<times> hal" where
  "ext_setBoost boost durationMs \<pi> =
     (let \<pi> = (if adpf_on \<pi> then \<pi>\<lparr>managed := updateHintBoost boost durationMs (managed \<pi>)\<rparr> else \<pi>) in
      (STATUS_OK, hint (boost_hints boost durationMs) \<pi>))"

definition ext_isBoostSupported :: "string \<Rightarrow> hal \<Rightarrow> status \<times> bool" where
  "ext_isBoostSupported boost \<pi> = (STATUS_OK, hint_supported (managed \<pi>) boost)"

section \<open>Executions of the service\<close>

text \<open>Calls of both interfaces, calls and messages of sessions, and the thread of the interaction handler, in any order.\<close>

inductive hal_step :: "interaction_config \<Rightarrow> hal \<times> event list \<Rightarrow> hal \<times> event list \<Rightarrow> bool" for icfg where
  mode: "setMode type enabled \<pi> = (st, \<pi>') \<Longrightarrow> hal_step icfg (\<pi>, es) (\<pi>', es)"
| boost: "setBoost icfg t bt n \<pi> = Some (es', st, \<pi>') \<Longrightarrow> hal_step icfg (\<pi>, es) (\<pi>', es @ es')"
| create: "sid \<notin> dom (stale_timer (managed \<pi>)) \<Longrightarrow> createHintSession sid tg u thr dur \<pi> = Some (st, r, \<pi>') \<Longrightarrow>
    hal_step icfg (\<pi>, es) (\<pi>', es)"
| ext_mode: "ext_setMode mode enabled \<pi> = (st, \<pi>') \<Longrightarrow> hal_step icfg (\<pi>, es) (\<pi>', es)"
| ext_boost: "ext_setBoost name n \<pi> = (st, \<pi>') \<Longrightarrow> hal_step icfg (\<pi>, es) (\<pi>', es)"
| session: "power_step (managed \<pi>) \<sigma> \<Longrightarrow> hal_step icfg (\<pi>, es) (\<pi>\<lparr>managed := \<sigma>\<rparr>, es)"
| "thread": "routine_step (mInteractionHandler \<pi>, es) (\<iota>, es') \<Longrightarrow> hal_step icfg (\<pi>, es) (\<pi>\<lparr>mInteractionHandler := \<iota>\<rparr>, es')"

inductive_cases hal_stepE: "hal_step icfg (\<pi>, es) s'"

definition hal_reachable :: "interaction_config \<Rightarrow> hal \<Rightarrow> event list \<Rightarrow> bool" where
  "hal_reachable icfg \<pi> es \<longleftrightarrow>
     (\<exists>op ev p1 p2 p3 \<iota> \<sigma>. initial \<sigma> \<and> (\<forall>t p. task_profile_ok \<sigma> t p) \<and> (hal_step icfg)\<^sup>*\<^sup>* (new_Power op ev p1 p2 p3 \<iota> \<sigma>, []) (\<pi>, es))"


section \<open>The invariants together\<close>

lemma power_inv_emit [simp]: "power_inv (emit e \<sigma>) = power_inv \<sigma>"
  by (rule power_inv_tables) (simp add: tables_def tids_def is_open_def fun_eq_iff)

lemma power_inv_refresh [simp]: "power_inv (\<sigma>\<lparr>mDisplayRefreshRate := r\<rparr>) = power_inv \<sigma>"
  by (rule power_inv_tables) (simp add: tables_def tids_def is_open_def tid_sessions_def fun_eq_iff)

lemma manager_hints [simp]:
  "power_inv (updateHintMode m b \<sigma>) = power_inv \<sigma>" "power_inv (updateHintBoost m d \<sigma>) = power_inv \<sigma>"
  "task_profile_ok (updateHintMode m b \<sigma>) = task_profile_ok \<sigma>" "task_profile_ok (updateHintBoost m d \<sigma>) = task_profile_ok \<sigma>"
  by (simp_all add: updateHintMode_def updateHintBoost_def Let_def)

definition hal_inv :: "hal \<Rightarrow> event list \<Rightarrow> bool" where
  "hal_inv \<pi> es \<longleftrightarrow> power_inv (managed \<pi>) \<and> (\<forall>t p. task_profile_ok (managed \<pi>) t p) \<and> interaction_inv (mInteractionHandler \<pi>) es"

lemma hal_inv_hint [simp]: "hal_inv (hint e \<pi>) es = hal_inv \<pi> es"
  by (simp add: hal_inv_def hint_def)

lemma setMode_inv: "hal_inv \<pi> es \<Longrightarrow> setMode type b \<pi> = (st, \<pi>') \<Longrightarrow> hal_inv \<pi>' es"
  by (cases type) (auto simp: setMode_def setMode_default_def hal_inv_def hint_def Let_def)

lemma setBoost_inv: "hal_inv \<pi> es \<Longrightarrow> setBoost icfg t bt n \<pi> = Some (es', st, \<pi>') \<Longrightarrow> hal_inv \<pi>' (es @ es')"
  by (cases bt) (auto simp: setBoost_def hal_inv_def hint_def bind_eq_Some_conv Let_def intro: acquire_inv split: if_splits)

lemma power_step_keeps:
  assumes "power_inv \<sigma>" and "\<forall>t p. task_profile_ok \<sigma> t p" and "power_step \<sigma> \<sigma>'"
  shows "power_inv \<sigma>' \<and> (\<forall>t p. task_profile_ok \<sigma>' t p)"
  using power_step_ok [OF assms(3)] assms(1,2) by (simp add: step_ok_def fixed_def)

lemma create_hal_inv:
  assumes "hal_inv \<pi> es" and "sid \<notin> dom (stale_timer (managed \<pi>))" and "createHintSession sid tg u thr dur \<pi> = Some (st, r, \<pi>')"
  shows "hal_inv \<pi>' es"
proof (cases "adpf_on \<pi> \<and> thr \<noteq> []")
  case True
  then obtain \<sigma> where \<sigma>: "PowerHintSession sid tg u thr dur (managed \<pi>) = Some \<sigma>" "\<pi>' = \<pi>\<lparr>managed := \<sigma>\<rparr>"
    using assms(3) by (auto simp: createHintSession_def bind_eq_Some_conv)
  have "power_step (managed \<pi>) \<sigma>" by (rule power_step.create [OF assms(2) \<sigma>(1)])
  then show ?thesis using power_step_keeps [of "managed \<pi>" \<sigma>] assms(1) \<sigma>(2) by (simp add: hal_inv_def)
next
  case False
  then show ?thesis using assms(1,3) by (auto simp: createHintSession_def split: if_splits)
qed

lemma hal_step_inv: "hal_step icfg (\<pi>, es) (\<pi>', es') \<Longrightarrow> hal_inv \<pi> es \<Longrightarrow> hal_inv \<pi>' es'"
proof (erule hal_stepE, goal_cases)
  case 1 then show ?case by (auto intro: setMode_inv)
next
  case 2 then show ?case by (auto intro: setBoost_inv)
next
  case 3 then show ?case by (auto intro: create_hal_inv)
next
  case 4 then show ?case by (auto simp: ext_setMode_def hal_inv_def hint_def Let_def split: if_splits)
next
  case 5 then show ?case by (auto simp: ext_setBoost_def hal_inv_def hint_def Let_def)
next
  case (6 \<sigma>) then show ?case using power_step_keeps [of "managed \<pi>" \<sigma>] by (auto simp: hal_inv_def)
next
  case 7 then show ?case by (auto simp: hal_inv_def intro: routine_step_inv)
qed

lemma new_Power_inv:
  assumes "initial \<sigma>" and "\<forall>t p. task_profile_ok \<sigma> t p"
  shows "hal_inv (new_Power op ev p1 p2 p3 \<iota> \<sigma>) []"
proof -
  have "interaction_inv (new_InteractionHandler \<iota>) []" by (simp add: new_InteractionHandler_def interaction_simps)
  then have "interaction_inv (snd (Init op ev (new_InteractionHandler \<iota>))) []"
    by (cases "Init op ev (new_InteractionHandler \<iota>)") (auto intro: init_inv simp: new_InteractionHandler_def)
  then show ?thesis
    using initial_inv [OF assms(1)] assms(2) by (simp add: new_Power_def hal_inv_def hint_def Let_def)
qed

lemma hal_reachable_inv: "hal_reachable icfg \<pi> es \<Longrightarrow> hal_inv \<pi> es"
proof (unfold hal_reachable_def, elim exE conjE)
  fix op ev p1 p2 p3 \<iota> \<sigma>
  assume i: "initial \<sigma>" "\<forall>t p. task_profile_ok \<sigma> t p"
  assume "(hal_step icfg)\<^sup>*\<^sup>* (new_Power op ev p1 p2 p3 \<iota> \<sigma>, []) (\<pi>, es)"
  then show "hal_inv \<pi> es"
    by (induction rule: rtranclp_induct2) (auto intro: new_Power_inv [OF i] hal_step_inv)
qed


lemma hal_step_sustained: "hal_step icfg (\<pi>, es) (\<pi>', es') \<Longrightarrow> mSustainedPerfModeOn \<pi> \<Longrightarrow> mSustainedPerfModeOn \<pi>'"
proof (erule hal_stepE, goal_cases)
  case (1 type enabled)
  then show ?case by (cases type) (auto simp: setMode_def setMode_default_def hint_def Let_def)
next
  case (2 t bt n)
  then show ?case by (cases bt) (auto simp: setBoost_def hint_def bind_eq_Some_conv Let_def split: if_splits)
next
  case 3 then show ?case by (auto simp: createHintSession_def bind_eq_Some_conv split: if_splits)
next
  case 4 then show ?case by (auto simp: ext_setMode_def hint_def Let_def split: if_splits)
next
  case 5 then show ?case by (auto simp: ext_setBoost_def hint_def Let_def split: if_splits)
qed auto

section \<open>Properties\<close>

definition sample_hal :: hal where
  "sample_hal = new_Power (\<lambda>p. 5) 6 [] [] [] interaction0 power0"

lemma sample_hal: "mSustainedPerfModeOn sample_hal = False" "managed sample_hal = power0"
  by (simp_all add: sample_hal_def new_Power_def Let_def)

lemma reachable_sample_hal: "hal_reachable default_config sample_hal []"
  unfolding hal_reachable_def sample_hal_def
  by (intro exI [of _ "\<lambda>p. 5"] exI [of _ 6] exI [of _ "[]"] exI [of _ interaction0] exI [of _ power0] conjI)
    (simp_all add: initial_def power0_def)







end
