(* ===== verification/Decimal.thy ===== *)
theory Decimal
  imports Prelude
begin

text \<open>
  Numbers in decimal, as \<open>snprintf\<close> with \<open>%d\<close>, \<open>std::to_string\<close> and the output streams print them and as input streams read them.
\<close>

section \<open>Printing\<close>

definition digit :: "nat \<Rightarrow> char" where
  "digit d = char_of (48 + d)"

fun digits :: "nat \<Rightarrow> string" where
  "digits n = (if n < 10 then [digit n] else digits (n div 10) @ [digit (n mod 10)])"

declare digits.simps [simp del]

definition decimal :: "int \<Rightarrow> string" where
  "decimal i = (if i < 0 then CHR ''-'' # digits (nat (- i)) else digits (nat i))"

section \<open>Reading\<close>

definition is_digit :: "char \<Rightarrow> bool" where
  "is_digit c \<longleftrightarrow> 48 \<le> (of_char c :: nat) \<and> (of_char c :: nat) \<le> 57"

definition undigits :: "string \<Rightarrow> nat" where
  "undigits s = fold (\<lambda>c n. 10 * n + (of_char c - 48)) s 0"

lemma of_char_digit: "d < 10 \<Longrightarrow> of_char (digit d) = (48 + d :: nat)"
  by (simp add: digit_def)

lemma is_digit_digit: "d < 10 \<Longrightarrow> is_digit (digit d)"
  by (simp add: is_digit_def of_char_digit)

lemma undigits_digits [simp]: "undigits (digits n) = n"
proof (induction n rule: digits.induct)
  case (1 n)
  show ?case
  proof (cases "n < 10")
    case False
    then have "undigits (digits n) = 10 * undigits (digits (n div 10)) + n mod 10"
      by (subst digits.simps) (simp add: undigits_def of_char_digit)
    then show ?thesis using 1 [OF False] by simp
  qed (simp add: digits.simps undigits_def of_char_digit)
qed

lemma digits_are_digits: "list_all is_digit (digits n)"
proof (induction n rule: digits.induct)
  case (1 n)
  then show ?case by (subst digits.simps) (simp add: is_digit_digit)
qed

lemma digits_nonempty [simp]: "digits n \<noteq> []"
  by (subst digits.simps) simp

lemma length_digits: "n < 10 ^ Suc k \<Longrightarrow> length (digits n) \<le> Suc k"
proof (induction k arbitrary: n)
  case 0
  then show ?case by (subst digits.simps) simp
next
  case (Suc k)
  have "n div 10 < 10 ^ Suc k" using Suc.prems by (simp add: less_mult_imp_div_less)
  then show ?case using Suc.IH [of "n div 10"] by (subst digits.simps) simp
qed

text \<open>A 32 bit number has at most ten digits and a sign.\<close>

lemma length_decimal32:
  assumes "- (2 ^ 31) \<le> i" and "i < 2 ^ 31"
  shows "length (decimal i) \<le> 11"
proof -
  have "nat \<bar>i\<bar> < 10 ^ Suc 9" using assms by simp
  then have "length (digits (nat \<bar>i\<bar>)) \<le> 10" using length_digits [of "nat \<bar>i\<bar>" 9] by simp
  then show ?thesis by (auto simp: decimal_def abs_if split: if_splits)
qed

lemma minus_no_digit: "\<not> is_digit (CHR ''-'')"
  by (simp add: is_digit_def)

lemma decimal_nonneg: "0 \<le> i \<Longrightarrow> decimal i = digits (nat i)"
  by (simp add: decimal_def)

lemma digits_inj: "digits m = digits n \<Longrightarrow> m = n"
  by (metis undigits_digits)

lemma decimal_inj: "decimal i = decimal j \<Longrightarrow> i = j"
proof -
  assume eq: "decimal i = decimal j"
  have "hd (digits n) \<noteq> CHR ''-''" for n
    using digits_are_digits [of n] minus_no_digit by (cases "digits n") (auto simp: list_all_iff)
  then have "digits n \<noteq> CHR ''-'' # xs" for n xs by (metis list.sel(1))
  then show "i = j" using eq by (auto simp: decimal_def dest: digits_inj split: if_splits) (metis)
qed

end
