(* ===== verification/Power_Dump.thy ===== *)
theory Power_Dump
  imports Power_Hal Decimal
begin

text \<open>
  What the power service prints for \<open>dumpsys\<close> (\<open>dumpToFd\<close>, \<open>dumpToStream\<close>, \<open>toString\<close> and \<open>Power::dump\<close>), the two small parts of the repository beside it
  (\<open>power-mode.cpp\<close>, the modes of the device for the power service of the vendor, and \<open>client.c\<close>, the replacement of the vendor's performance client). The
  manager looks up the list of a thread with \<open>operator[]\<close>, which would enter an empty list; it is shown that this never happens.
\<close>

section \<open>Printing\<close>

definition bool_digit :: "bool \<Rightarrow> string" where
  "bool_digit b = (if b then ''1'' else ''0'')"

definition boolToString :: "bool \<Rightarrow> string" where
  "boolToString b = (if b then ''true'' else ''false'')"

text \<open>\<open>hex sid\<close> are the low 16 bits of the address of a session.\<close>

definition getIdString :: "(nat \<Rightarrow> string) \<Rightarrow> nat \<Rightarrow> session \<Rightarrow> string" where
  "getIdString hex sid s = decimal (tgid s) @ ''-'' @ decimal (uid s) @ ''-'' @ hex sid"

definition dumpToStream :: "(nat \<Rightarrow> string) \<Rightarrow> nat \<Rightarrow> power \<Rightarrow> string option" where
  "dumpToStream hex sid \<sigma> = do {
     s \<leftarrow> heap \<sigma> sid;
     t \<leftarrow> isTimeout \<sigma> s;
     Some (''ID.Min.Act.Timeout('' @ getIdString hex sid s @ '', '' @ decimal (current_min s) @ '', '' @ bool_digit (is_active s) @
       '', '' @ bool_digit t @ '')'')
   }"

fun separated :: "string list \<Rightarrow> string" where
  "separated [] = []"
| "separated [x] = x"
| "separated (x # y # xs) = x @ '', '' @ separated (y # xs)"

definition toString :: "(nat \<Rightarrow> string) \<Rightarrow> nat \<Rightarrow> session \<Rightarrow> string" where
  "toString hex sid s =
     ''session '' @ hex sid @ ''\<newline>'' @ ''  duration: '' @ decimal (duration s) @ '' ns\<newline>'' @ ''  uclamp.min: '' @ decimal (current_min s) @ '' \<newline>'' @
     ''  uid: '' @ decimal (uid s) @ '', tgid: '' @ decimal (tgid s) @ ''\<newline>'' @ ''  threadIds: ['' @ separated (map decimal (threadIds s)) @ '']\<newline>''"

text \<open>The threads with the sizes of their lists; \<open>mTidSessionListMap[t]\<close> enters an empty list where there is none.\<close>

fun dump_tids :: "int list \<Rightarrow> power \<Rightarrow> string list \<times> power" where
  "dump_tids [] \<sigma> = ([], \<sigma>)"
| "dump_tids (t # ts) \<sigma> =
     (let l = (case mTidSessionListMap \<sigma> t of None \<Rightarrow> [] | Some l \<Rightarrow> l);
          \<sigma> = \<sigma>\<lparr>mTidSessionListMap := (mTidSessionListMap \<sigma>)(t \<mapsto> l)\<rparr>;
          (out, \<sigma>) = dump_tids ts \<sigma> in
      ((decimal t @ '':'' @ decimal (int (length l))) # out, \<sigma>))"

fun dump_sessions :: "(nat \<Rightarrow> string) \<Rightarrow> nat list \<Rightarrow> power \<Rightarrow> (string \<times> power) option" where
  "dump_sessions hex [] \<sigma> = Some ([], \<sigma>)"
| "dump_sessions hex (sid # sids) \<sigma> = do {
     line \<leftarrow> dumpToStream hex sid \<sigma>;
     s \<leftarrow> heap \<sigma> sid;
     let (out, \<sigma>) = dump_tids (threadIds s) \<sigma>;
     (rest, \<sigma>) \<leftarrow> dump_sessions hex sids \<sigma>;
     Some (line @ '' Tid:Ref['' @ separated out @ '']\<newline>'' @ rest, \<sigma>)
   }"

definition dumpToFd :: "(nat \<Rightarrow> string) \<Rightarrow> power \<Rightarrow> (string \<times> power) option" where
  "dumpToFd hex \<sigma> = do {
     (out, \<sigma>) \<leftarrow> dump_sessions hex (mSessions \<sigma>) \<sigma>;
     Some (''========== Begin PowerSessionManager ADPF list ==========\<newline>'' @ out @ ''========== End PowerSessionManager ADPF list ==========\<newline>'', \<sigma>)
   }"

text \<open>What is written to the descriptor: the nodes of \<open>libperfmgr\<close> (an argument, as is whether it runs), the sessions, the state of the service.\<close>

definition dump :: "string \<Rightarrow> bool \<Rightarrow> (nat \<Rightarrow> string) \<Rightarrow> hal \<Rightarrow> (string \<times> hal) option" where
  "dump nodes running hex \<pi> = do {
     let buf = ''HintManager Running: '' @ boolToString running @ ''\<newline>SustainedPerformanceMode: '' @ boolToString (mSustainedPerfModeOn \<pi>) @ ''\<newline>'';
     (out, \<sigma>) \<leftarrow> dumpToFd hex (managed \<pi>);
     Some (nodes @ out @ buf, \<pi>\<lparr>managed := \<sigma>\<rparr>)
   }"

section \<open>Printing changes nothing\<close>

lemma dump_tids_unchanged: "(\<And>t. t \<in> set ts \<Longrightarrow> mTidSessionListMap \<sigma> t \<noteq> None) \<Longrightarrow>
    dump_tids ts \<sigma> = (map (\<lambda>t. decimal t @ '':'' @ decimal (int (length (tid_sessions \<sigma> t)))) ts, \<sigma>)"
proof (induction ts)
  case (Cons t ts)
  obtain l where l: "mTidSessionListMap \<sigma> t = Some l" using Cons.prems [of t] by auto
  then have "(mTidSessionListMap \<sigma>)(t \<mapsto> l) = mTidSessionListMap \<sigma>" by (rule fun_upd_idem)
  then show ?case using Cons l by (simp add: tid_sessions_def)
qed simp

lemma listed_thread:
  assumes "power_inv \<sigma>" and "sid \<in> set (mSessions \<sigma>)" and "t \<in> set (tids \<sigma> sid)"
  shows "mTidSessionListMap \<sigma> t \<noteq> None"
proof -
  have "sid \<in> set (tid_sessions \<sigma> t)" using power_invD(2,3) [OF assms(1)] assms(2,3) by blast
  then show ?thesis by (cases "mTidSessionListMap \<sigma> t") (simp_all add: tid_sessions_def)
qed

definition session_line :: "(nat \<Rightarrow> string) \<Rightarrow> power \<Rightarrow> nat \<Rightarrow> string" where
  "session_line hex \<sigma> sid =
     the (dumpToStream hex sid \<sigma>) @ '' Tid:Ref['' @
     separated (map (\<lambda>t. decimal t @ '':'' @ decimal (int (length (tid_sessions \<sigma> t)))) (tids \<sigma> sid)) @ '']\<newline>''"

lemma dump_sessions_exact:
  assumes "power_inv \<sigma>" and "calm \<sigma>" and "set sids \<subseteq> set (mSessions \<sigma>)"
  shows "dump_sessions hex sids \<sigma> = Some (concat (map (session_line hex \<sigma>) sids), \<sigma>)"
  using assms(3)
proof (induction sids)
  case (Cons sid sids)
  then have sid: "sid \<in> set (mSessions \<sigma>)" by simp
  then obtain s where s: "heap \<sigma> sid = Some s" using power_invD(2) [OF assms(1)] by (auto simp: is_open_def)
  obtain b where "isTimeout \<sigma> s = Some b" using calm_timeout [OF assms(2) s] .
  then obtain line where line: "dumpToStream hex sid \<sigma> = Some line" using s by (simp add: dumpToStream_def)
  have "tids \<sigma> sid = threadIds s" by (simp add: tids_def s)
  then show ?case
    using Cons line s dump_tids_unchanged [of "threadIds s" \<sigma>] listed_thread [OF assms(1) sid] by (simp add: session_line_def)
qed simp

lemma dump_changes_nothing:
  assumes "reachable \<sigma>0 (managed \<pi>)" and "calm (managed \<pi>)"
  shows "\<exists>out. dump nodes running hex \<pi> = Some (out, \<pi>)"
  using dump_sessions_exact [OF reachable_ok(1) [OF assms(1)] assms(2) subset_refl] by (simp add: dump_def dumpToFd_def Let_def)

section \<open>Modes of the device\<close>

text \<open>The answer, and whether the mode is one of the device; then what is written to which node.\<close>

definition isDeviceSpecificModeSupported :: "Mode \<Rightarrow> bool \<Rightarrow> bool \<times> bool" where
  "isDeviceSpecificModeSupported type ret = (case type of DOUBLE_TAP_TO_WAKE \<Rightarrow> (True, True) | _ \<Rightarrow> (ret, False))"

definition setDeviceSpecificMode :: "Mode \<Rightarrow> bool \<Rightarrow> (string \<times> string) list \<times> bool" where
  "setDeviceSpecificMode type enabled =
     (case type of
        DOUBLE_TAP_TO_WAKE \<Rightarrow>
          ([(''/sys/devices/virtual/sec/tsp/cmd'', if enabled then ''sod_enable,1'' else ''sod_enable,0''),
            (''/sys/devices/dsi_panel_driver/pre_sod_mode'', if enabled then ''1'' else ''0'')], True)
      | _ \<Rightarrow> ([], False))"

lemma device_mode_written:
  "snd (setDeviceSpecificMode type enabled) = snd (isDeviceSpecificModeSupported type ret)"
  "fst (setDeviceSpecificMode type enabled) \<noteq> [] \<longleftrightarrow> snd (isDeviceSpecificModeSupported type ret)"
  by (cases type; simp add: setDeviceSpecificMode_def isDeviceSpecificModeSupported_def)+

section \<open>The performance client\<close>

text \<open>\<open>perf_lock_acq\<close> prints the first of its arguments, so there has to be one.\<close>

definition perf_lock_acq :: "int \<Rightarrow> int \<Rightarrow> int list \<Rightarrow> int \<Rightarrow> int option" where
  "perf_lock_acq handle dur arg3 arg4 = (if arg3 = [] then None else Some (if 0 < handle then handle else 233))"

definition perf_lock_rel :: "int \<Rightarrow> int" where
  "perf_lock_rel handle = (if 0 < handle then handle else 233)"

lemma perf_lock_held: "perf_lock_acq handle dur arg3 arg4 = Some h \<Longrightarrow> 0 < h \<and> perf_lock_acq h dur' arg3 arg4 = Some h \<and> perf_lock_rel h = h"
  by (auto simp: perf_lock_acq_def perf_lock_rel_def split: if_splits)

end
