(* ===== verification/Liblight.thy ===== *)
theory Liblight
  imports Decimal Cpp_Arith
begin

text \<open>
  The legacy lights module (\<open>liblight/lights.c\<close>): the panel backlight, the button light and the RGB LED, which the battery and the
  notifications share. Every system call may fail at every time: its outcome is a function of the number of calls
  made so far. What was written to the nodes is kept in order. A null pointer passed to \<open>fclose\<close> and overflow are \<open>None\<close>.
\<close>

section \<open>State\<close>

record light_state =
  color :: u32
  flashMode :: int
  flashOnMS :: int
  flashOffMS :: int
  brightnessMode :: int

text \<open>
  The globals of the module, and the system: \<open>open_err\<close> and \<open>write_err\<close> give the error number of a call, 0 for none,
  \<open>node_int\<close> what \<open>fscanf\<close> reads, and \<open>path_exists\<close> what \<open>access\<close> finds.
\<close>

record lights =
  g_notification :: light_state
  g_battery :: light_state
  g_last_backlight_mode :: int
  g_attention :: int
  g_has_persistence_node :: bool
  calls :: nat
  open_err :: "nat \<Rightarrow> string \<Rightarrow> nat"
  write_err :: "nat \<Rightarrow> string \<Rightarrow> nat"
  node_int :: "nat \<Rightarrow> string \<Rightarrow> int option"
  path_exists :: "nat \<Rightarrow> string \<Rightarrow> bool"
  written :: "(string \<times> string) list"

definition LIGHT_FLASH_NONE :: int where "LIGHT_FLASH_NONE = 0"
definition LIGHT_FLASH_TIMED :: int where "LIGHT_FLASH_TIMED = 1"
definition LIGHT_FLASH_HARDWARE :: int where "LIGHT_FLASH_HARDWARE = 2"
definition BRIGHTNESS_MODE_USER :: int where "BRIGHTNESS_MODE_USER = 0"
definition BRIGHTNESS_MODE_LOW_PERSISTENCE :: int where "BRIGHTNESS_MODE_LOW_PERSISTENCE = 2"
definition DEFAULT_LOW_PERSISTENCE_MODE_BRIGHTNESS :: int where "DEFAULT_LOW_PERSISTENCE_MODE_BRIGHTNESS = 0x80"
definition ENOSYS :: int where "ENOSYS = 38"
definition ENOMEM :: int where "ENOMEM = 12"
definition EINVAL_light :: int where "EINVAL_light = 22"

definition LCD_FILE :: string where "LCD_FILE = ''/sys/class/leds/lcd-backlight/brightness''"
definition LCD_FILE2 :: string where "LCD_FILE2 = ''/sys/class/backlight/panel0-backlight/brightness''"
definition BUTTON_FILE :: string where "BUTTON_FILE = ''/sys/class/leds/button-backlight/brightness''"
definition PERSISTENCE_FILE :: string where "PERSISTENCE_FILE = ''/sys/class/graphics/fb0/msm_fb_persist_mode''"

datatype rgb_led = LED_RED | LED_GREEN | LED_BLUE

fun led_names :: "rgb_led \<Rightarrow> string" where
  "led_names LED_RED = ''red''"
| "led_names LED_GREEN = ''green''"
| "led_names LED_BLUE = ''blue''"

text \<open>A path of a LED printed into a buffer of the given size.\<close>

definition led_path :: "nat \<Rightarrow> rgb_led \<Rightarrow> string \<Rightarrow> string" where
  "led_path sz led attr = snprintf sz (''/sys/class/leds/'' @ led_names led @ ''/'' @ attr)"

section \<open>Nodes\<close>

definition called :: "lights \<Rightarrow> lights" where
  "called \<Lambda> = \<Lambda>\<lparr>calls := calls \<Lambda> + 1\<rparr>"

definition newline :: char where
  "newline = CHR 0x0A"

text \<open>Opening, writing and closing: an error number, 0 for success, as a negative result.\<close>

definition write_node :: "string \<Rightarrow> string \<Rightarrow> lights \<Rightarrow> int \<times> lights" where
  "write_node path str \<Lambda> =
     (let e = open_err \<Lambda> (calls \<Lambda>) path; \<Lambda> = called \<Lambda> in
      if e \<noteq> 0 then (- int e, \<Lambda>)
      else
        let e = write_err \<Lambda> (calls \<Lambda>) path; \<Lambda> = called \<Lambda> in
        if e \<noteq> 0 then (- int e, \<Lambda>) else (0, \<Lambda>\<lparr>written := written \<Lambda> @ [(path, str)]\<rparr>))"

definition write_str :: "string \<Rightarrow> string \<Rightarrow> lights \<Rightarrow> int \<times> lights" where
  "write_str path str \<Lambda> = write_node path str \<Lambda>"

definition read_int :: "string \<Rightarrow> lights \<Rightarrow> (int \<times> lights) option" where
  "read_int path \<Lambda> =
     (let e = open_err \<Lambda> (calls \<Lambda>) path; \<Lambda> = called \<Lambda> in
      if e \<noteq> 0 then None
      else Some (case node_int \<Lambda> (calls \<Lambda>) path of None \<Rightarrow> 0xFF | Some v \<Rightarrow> v, called \<Lambda>))"

definition write_int :: "string \<Rightarrow> int \<Rightarrow> lights \<Rightarrow> int \<times> lights" where
  "write_int path value \<Lambda> = write_node path (snprintf 20 (decimal value @ [newline])) \<Lambda>"

definition file_exists :: "string \<Rightarrow> lights \<Rightarrow> bool \<times> lights" where
  "file_exists file \<Lambda> = (open_err \<Lambda> (calls \<Lambda>) file = 0, called \<Lambda>)"

definition access_ok :: "string \<Rightarrow> lights \<Rightarrow> bool \<times> lights" where
  "access_ok file \<Lambda> = (path_exists \<Lambda> (calls \<Lambda>) file, called \<Lambda>)"

section \<open>Colours\<close>

definition is_lit :: "light_state \<Rightarrow> bool" where
  "is_lit state \<longleftrightarrow> color state AND 0x00ffffff \<noteq> 0"

definition channel :: "nat \<Rightarrow> u32 \<Rightarrow> int" where
  "channel n c = uint (drop_bit n c AND 0xFF)"

definition rgb_to_brightness :: "light_state \<Rightarrow> int" where
  "rgb_to_brightness state =
     (let c = color state AND 0x00ffffff in
      (77 * channel 16 c + 150 * channel 8 c + 29 * channel 0 c) div 256)"

section \<open>Backlight and buttons\<close>

definition set_light_backlight :: "bool \<Rightarrow> light_state \<Rightarrow> lights \<Rightarrow> int \<times> lights" where
  "set_light_backlight dev state \<Lambda> =
     (let brightness = rgb_to_brightness state;
          lpEnabled = (brightnessMode state = BRIGHTNESS_MODE_LOW_PERSISTENCE) in
      if \<not> dev then (-1, \<Lambda>)
      else
        let persistence_mode = ((g_last_backlight_mode \<Lambda> \<noteq> brightnessMode state \<and> lpEnabled) \<or>
              (\<not> lpEnabled \<and> g_last_backlight_mode \<Lambda> = BRIGHTNESS_MODE_LOW_PERSISTENCE));
            cannot_handle_persistence = (\<not> g_has_persistence_node \<Lambda> \<and> persistence_mode);
            (err, brightness, \<Lambda>) =
              (if g_has_persistence_node \<Lambda> then
                 let (err, brightness, \<Lambda>) =
                   (if persistence_mode then
                      let (err, \<Lambda>) = write_int PERSISTENCE_FILE (if lpEnabled then 1 else 0) \<Lambda> in
                      (err, if lpEnabled then DEFAULT_LOW_PERSISTENCE_MODE_BRIGHTNESS else brightness, \<Lambda>)
                    else (0, brightness, \<Lambda>)) in
                 (err, brightness, \<Lambda>\<lparr>g_last_backlight_mode := brightnessMode state\<rparr>)
               else (0, brightness, \<Lambda>));
            (err, \<Lambda>) =
              (if err = 0 then
                 let (lcd, \<Lambda>) = access_ok LCD_FILE \<Lambda> in
                 write_int (if lcd then LCD_FILE else LCD_FILE2) brightness \<Lambda>
               else (err, \<Lambda>)) in
        (if cannot_handle_persistence then - ENOSYS else err, \<Lambda>))"

definition set_light_buttons :: "bool \<Rightarrow> light_state \<Rightarrow> lights \<Rightarrow> int \<times> lights" where
  "set_light_buttons dev state \<Lambda> =
     (if \<not> dev then (-1, \<Lambda>) else write_int BUTTON_FILE (channel 0 (color state)) \<Lambda>)"

section \<open>The RGB LED\<close>

definition set_rgb_led_brightness :: "rgb_led \<Rightarrow> int \<Rightarrow> lights \<Rightarrow> (int \<times> lights) option" where
  "set_rgb_led_brightness led brightness \<Lambda> = do {
     (max_brightness, \<Lambda>) \<leftarrow> read_int (led_path 60 led ''max_mix_brightness'') \<Lambda>;
     p \<leftarrow> ck32 (brightness * max_brightness);
     let brightness = p sdiv 0xFF;
     let (rc, \<Lambda>) = write_str (led_path 60 led ''trigger'') ''none'' \<Lambda>;
     Some (if rc < 0 then (rc, \<Lambda>) else write_int (led_path 60 led ''brightness'') brightness \<Lambda>)
   }"

definition set_rgb_light_sync :: "rgb_led \<Rightarrow> int \<Rightarrow> lights \<Rightarrow> (int \<times> lights) option" where
  "set_rgb_light_sync led blink \<Lambda> = do {
     (rc, \<Lambda>) \<leftarrow> set_rgb_led_brightness led 0 \<Lambda>;
     Some (write_int (led_path 60 led ''sync_blink'') blink \<Lambda>)
   }"

fun timer_loop :: "nat \<Rightarrow> string \<Rightarrow> string \<Rightarrow> int \<Rightarrow> int \<Rightarrow> int \<Rightarrow> lights \<Rightarrow> int \<times> lights" where
  "timer_loop 0 file_on file_off onMS offMS rc \<Lambda> = (rc, \<Lambda>)"
| "timer_loop (Suc retries) file_on file_off onMS offMS rc \<Lambda> =
     (let (rc, \<Lambda>) = write_int file_off offMS \<Lambda> in
      if rc < 0 then timer_loop retries file_on file_off onMS offMS rc \<Lambda>
      else
        let (rc, \<Lambda>) = write_int file_on onMS \<Lambda> in
        if rc = 0 then (rc, \<Lambda>) else timer_loop retries file_on file_off onMS offMS rc \<Lambda>)"

definition set_rgb_led_timer_trigger :: "rgb_led \<Rightarrow> int \<Rightarrow> int \<Rightarrow> lights \<Rightarrow> int \<times> lights" where
  "set_rgb_led_timer_trigger led onMS offMS \<Lambda> =
     (let (rc, \<Lambda>) = write_str (led_path 48 led ''trigger'') ''timer'' \<Lambda> in
      if rc < 0 then (rc, \<Lambda>)
      else
        let (rc, \<Lambda>) = timer_loop 20 (led_path 48 led ''delay_on'') (led_path 48 led ''delay_off'') onMS offMS rc \<Lambda> in
        if rc < 0 then (rc, \<Lambda>) else (0, \<Lambda>))"

definition set_rgb_led_hw_blink :: "rgb_led \<Rightarrow> int \<Rightarrow> lights \<Rightarrow> int \<times> lights" where
  "set_rgb_led_hw_blink led blink \<Lambda> =
     (let (there, \<Lambda>) = file_exists (led_path 48 led ''breath'') \<Lambda> in
      if \<not> there then (-1, \<Lambda>) else write_int (led_path 48 led ''breath'') blink \<Lambda>)"

text \<open>\<open>if (!!c) rc |= f(led)\<close> for a channel.\<close>

definition when_lit :: "int \<Rightarrow> (lights \<Rightarrow> int \<times> lights) \<Rightarrow> int \<times> lights \<Rightarrow> int \<times> lights" where
  "when_lit c f r = (if c \<noteq> 0 then let (rc, \<Lambda>) = r; (rc', \<Lambda>) = f \<Lambda> in (rc OR rc', \<Lambda>) else r)"

definition speaker_hardware :: "int \<Rightarrow> int \<Rightarrow> int \<Rightarrow> int \<Rightarrow> lights \<Rightarrow> int \<times> lights" where
  "speaker_hardware red green blue blink \<Lambda> =
     when_lit blue (set_rgb_led_hw_blink LED_BLUE blink)
       (when_lit green (set_rgb_led_hw_blink LED_GREEN blink)
         (when_lit red (set_rgb_led_hw_blink LED_RED blink) (0, \<Lambda>)))"

definition of_lit :: "int \<Rightarrow> int" where
  "of_lit c = (if c \<noteq> 0 then 1 else 0)"

definition speaker_timed :: "int \<Rightarrow> int \<Rightarrow> int \<Rightarrow> int \<Rightarrow> int \<Rightarrow> int \<Rightarrow> lights \<Rightarrow> (int \<times> lights) option" where
  "speaker_timed red green blue onMS offMS rc \<Lambda> = do {
     (r, \<Lambda>) \<leftarrow> set_rgb_light_sync LED_RED (of_lit red) \<Lambda>;
     (r, \<Lambda>) \<leftarrow> set_rgb_light_sync LED_GREEN (of_lit green) \<Lambda>;
     (r, \<Lambda>) \<leftarrow> set_rgb_light_sync LED_BLUE (of_lit blue) \<Lambda>;
     Some (when_lit blue (set_rgb_led_timer_trigger LED_BLUE onMS offMS)
       (when_lit green (set_rgb_led_timer_trigger LED_GREEN onMS offMS)
         (when_lit red (set_rgb_led_timer_trigger LED_RED onMS offMS) (rc, \<Lambda>))))
   }"

definition speaker_steady :: "int \<Rightarrow> int \<Rightarrow> int \<Rightarrow> lights \<Rightarrow> (int \<times> lights) option" where
  "speaker_steady red green blue \<Lambda> = do {
     (r, \<Lambda>) \<leftarrow> set_rgb_light_sync LED_RED 0 \<Lambda>;
     (r, \<Lambda>) \<leftarrow> set_rgb_light_sync LED_GREEN 0 \<Lambda>;
     (r, \<Lambda>) \<leftarrow> set_rgb_light_sync LED_BLUE 0 \<Lambda>;
     (rc, \<Lambda>) \<leftarrow> set_rgb_led_brightness LED_RED red \<Lambda>;
     (rc1, \<Lambda>) \<leftarrow> set_rgb_led_brightness LED_GREEN green \<Lambda>;
     (rc2, \<Lambda>) \<leftarrow> set_rgb_led_brightness LED_BLUE blue \<Lambda>;
     Some (rc OR rc1 OR rc2, \<Lambda>)
   }"

definition set_speaker_light_locked :: "bool \<Rightarrow> light_state \<Rightarrow> lights \<Rightarrow> (int \<times> lights) option" where
  "set_speaker_light_locked dev state \<Lambda> =
     (if \<not> dev then Some (-1, \<Lambda>)
      else do {
        let colorRGB = color state;
        let red = channel 16 colorRGB;
        let green = channel 8 colorRGB;
        let blue = channel 0 colorRGB;
        let onMS = flashOnMS state;
        let offMS = flashOffMS state;
        let blink = (if onMS \<noteq> 0 \<and> offMS \<noteq> 0 then 1 else 0);
        let (rc, \<Lambda>) = (if flashMode state = LIGHT_FLASH_HARDWARE then speaker_hardware red green blue blink \<Lambda> else (0, \<Lambda>));
        if flashMode state = LIGHT_FLASH_HARDWARE \<and> rc = 0 then Some (rc, \<Lambda>)
        else do {
          (rc, \<Lambda>) \<leftarrow>
            (if flashMode state = LIGHT_FLASH_HARDWARE \<or> flashMode state = LIGHT_FLASH_TIMED
             then speaker_timed red green blue onMS offMS rc \<Lambda> else Some (rc, \<Lambda>));
          if (flashMode state = LIGHT_FLASH_HARDWARE \<or> flashMode state = LIGHT_FLASH_TIMED) \<and> rc = 0 then Some (rc, \<Lambda>)
          else speaker_steady red green blue \<Lambda>
        }
      })"

definition handle_speaker_battery_locked :: "bool \<Rightarrow> lights \<Rightarrow> lights option" where
  "handle_speaker_battery_locked dev \<Lambda> = do {
     (rc, \<Lambda>) \<leftarrow> set_speaker_light_locked dev (if is_lit (g_battery \<Lambda>) then g_battery \<Lambda> else g_notification \<Lambda>) \<Lambda>;
     Some \<Lambda>
   }"

definition set_light_battery :: "bool \<Rightarrow> light_state \<Rightarrow> lights \<Rightarrow> (int \<times> lights) option" where
  "set_light_battery dev state \<Lambda> = do {
     let \<Lambda> = \<Lambda>\<lparr>g_battery := state\<rparr>;
     \<Lambda> \<leftarrow> handle_speaker_battery_locked dev \<Lambda>;
     Some (0, \<Lambda>)
   }"

definition set_light_notifications :: "bool \<Rightarrow> light_state \<Rightarrow> lights \<Rightarrow> (int \<times> lights) option" where
  "set_light_notifications dev state \<Lambda> = do {
     let \<Lambda> = \<Lambda>\<lparr>g_notification := state\<rparr>;
     \<Lambda> \<leftarrow> handle_speaker_battery_locked dev \<Lambda>;
     Some (0, \<Lambda>)
   }"

definition set_light_attention :: "bool \<Rightarrow> light_state \<Rightarrow> lights \<Rightarrow> (int \<times> lights) option" where
  "set_light_attention dev state \<Lambda> = do {
     let \<Lambda> = (if flashMode state = LIGHT_FLASH_HARDWARE then \<Lambda>\<lparr>g_attention := flashOnMS state\<rparr>
              else if flashMode state = LIGHT_FLASH_NONE then \<Lambda>\<lparr>g_attention := 0\<rparr> else \<Lambda>);
     \<Lambda> \<leftarrow> handle_speaker_battery_locked dev \<Lambda>;
     Some (0, \<Lambda>)
   }"

section \<open>Devices\<close>

text \<open>The function a device is opened for.\<close>

datatype light_fn = Backlight | Battery | Notifications | Buttons | Attention | Dummy

fun set_light :: "light_fn \<Rightarrow> bool \<Rightarrow> light_state \<Rightarrow> lights \<Rightarrow> (int \<times> lights) option" where
  "set_light Backlight dev state \<Lambda> = Some (set_light_backlight dev state \<Lambda>)"
| "set_light Battery dev state \<Lambda> = set_light_battery dev state \<Lambda>"
| "set_light Notifications dev state \<Lambda> = set_light_notifications dev state \<Lambda>"
| "set_light Buttons dev state \<Lambda> = Some (set_light_buttons dev state \<Lambda>)"
| "set_light Attention dev state \<Lambda> = set_light_attention dev state \<Lambda>"
| "set_light Dummy dev state \<Lambda> = Some (0, \<Lambda>)"

text \<open>Whether \<open>malloc\<close> succeeds is an argument.\<close>

definition open_lights :: "bool \<Rightarrow> string \<Rightarrow> lights \<Rightarrow> int \<times> light_fn option \<times> lights" where
  "open_lights malloc_ok name \<Lambda> =
     (let (fn, \<Lambda>) =
        (if name = ''backlight'' then
           let (there, \<Lambda>) = access_ok PERSISTENCE_FILE \<Lambda> in (Some Backlight, \<Lambda>\<lparr>g_has_persistence_node := there\<rparr>)
         else if name = ''battery'' then (Some Battery, \<Lambda>)
         else if name = ''notifications'' then (Some Notifications, \<Lambda>)
         else if name = ''buttons'' then
           let (there, \<Lambda>) = access_ok BUTTON_FILE \<Lambda> in (if there then Some Buttons else None, \<Lambda>)
         else if name = ''attention'' then (Some Attention, \<Lambda>)
         else if name = ''display_flash'' \<or> name = ''exthdr'' then (Some Dummy, \<Lambda>)
         else (None, \<Lambda>)) in
      case fn of
        None \<Rightarrow> (- EINVAL_light, None, \<Lambda>)
      | Some f \<Rightarrow> if \<not> malloc_ok then (- ENOMEM, None, \<Lambda>) else (0, Some f, \<Lambda>))"

end
