(* ===== verification/Liblight_Props.thy ===== *)
theory Liblight_Props
  imports Liblight
begin

text \<open>
  The properties of the lights module: what the nodes of the LED hold after any sequence of requests, the backlight on every
  branch, the retry loop of the timer trigger under faults, and the fallback that never takes effect.
\<close>

section \<open>Paths\<close>

definition led_node :: "rgb_led \<Rightarrow> string \<Rightarrow> string" where
  "led_node led attr = ''/sys/class/leds/'' @ led_names led @ ''/'' @ attr"

lemma led_path_full:
  assumes "NUL \<notin> set attr" and "length attr \<le> 25" and "48 \<le> sz"
  shows "led_path sz led attr = led_node led attr"
proof -
  have "NUL \<notin> set (led_node led attr)" "length (led_node led attr) \<le> 47"
    using assms(1,2) by (cases led; simp add: led_node_def NUL_def)+
  then show ?thesis using assms(3) unfolding led_path_def snprintf_def led_node_def [symmetric] by simp
qed

lemma led_paths [simp]:
  "led_path 60 led ''max_mix_brightness'' = led_node led ''max_mix_brightness''"
  "led_path 60 led ''trigger'' = led_node led ''trigger''" "led_path 48 led ''trigger'' = led_node led ''trigger''"
  "led_path 60 led ''brightness'' = led_node led ''brightness''" "led_path 60 led ''sync_blink'' = led_node led ''sync_blink''"
  "led_path 48 led ''delay_on'' = led_node led ''delay_on''" "led_path 48 led ''delay_off'' = led_node led ''delay_off''"
  "led_path 48 led ''breath'' = led_node led ''breath''"
  by (rule led_path_full; simp add: NUL_def)+

lemma led_node_eq [simp]: "led_node led a = led_node led' a' \<longleftrightarrow> led = led' \<and> a = a'"
  by (cases led; cases led') (auto simp: led_node_def)

section \<open>Writes\<close>

text \<open>What a node holds after the writes so far, and the text of a number.\<close>

definition node :: "lights \<Rightarrow> string \<Rightarrow> string option" where
  "node \<Lambda> p = map_of (rev (written \<Lambda>)) p"

definition int_text :: "int \<Rightarrow> string" where
  "int_text v = snprintf 20 (decimal v @ [newline])"

definition wrote :: "nat \<Rightarrow> (string \<times> string) list \<Rightarrow> lights \<Rightarrow> lights" where
  "wrote n ws \<Lambda> = \<Lambda>\<lparr>calls := calls \<Lambda> + n, written := written \<Lambda> @ ws\<rparr>"

lemma wrote_fields [simp]:
  "open_err (wrote n ws \<Lambda>) = open_err \<Lambda>" "write_err (wrote n ws \<Lambda>) = write_err \<Lambda>" "node_int (wrote n ws \<Lambda>) = node_int \<Lambda>"
  "path_exists (wrote n ws \<Lambda>) = path_exists \<Lambda>" "written (wrote n ws \<Lambda>) = written \<Lambda> @ ws" "g_battery (wrote n ws \<Lambda>) = g_battery \<Lambda>"
  "g_notification (wrote n ws \<Lambda>) = g_notification \<Lambda>" "calls (wrote n ws \<Lambda>) = calls \<Lambda> + n"
  "g_last_backlight_mode (wrote n ws \<Lambda>) = g_last_backlight_mode \<Lambda>" "g_has_persistence_node (wrote n ws \<Lambda>) = g_has_persistence_node \<Lambda>"
  by (simp_all add: wrote_def)

lemma wrote_wrote [simp]: "wrote n ws (wrote m vs \<Lambda>) = wrote (m + n) (vs @ ws) \<Lambda>"
  by (simp add: wrote_def add.assoc)

lemma called_wrote: "called \<Lambda> = wrote 1 [] \<Lambda>"
  by (simp add: called_def wrote_def)

lemma write_node_wrote:
  "write_node p s \<Lambda> =
     (if open_err \<Lambda> (calls \<Lambda>) p \<noteq> 0 then (- int (open_err \<Lambda> (calls \<Lambda>) p), wrote 1 [] \<Lambda>)
      else if write_err \<Lambda> (calls \<Lambda> + 1) p \<noteq> 0 then (- int (write_err \<Lambda> (calls \<Lambda> + 1) p), wrote 2 [] \<Lambda>)
      else (0, wrote 2 [(p, s)] \<Lambda>))"
  by (simp add: write_node_def Let_def called_def wrote_def)

lemma write_node_cases:
  obtains (stored) n where "write_node p s \<Lambda> = (0, wrote n [(p, s)] \<Lambda>)" "n \<le> 2"
  | (failed) rc n where "write_node p s \<Lambda> = (rc, wrote n [] \<Lambda>)" "rc < 0" "n \<le> 2"
  unfolding write_node_wrote by (cases "open_err \<Lambda> (calls \<Lambda>) p = 0"; cases "write_err \<Lambda> (calls \<Lambda> + 1) p = 0") auto

text \<open>
  A system without faults, in which only the nodes for breathing may be missing, and the largest brightness of every LED is in
  range for the product with a channel.
\<close>

definition fault_free :: "(rgb_led \<Rightarrow> int) \<Rightarrow> lights \<Rightarrow> bool" where
  "fault_free mx \<Lambda> \<longleftrightarrow> (\<forall>n p. write_err \<Lambda> n p = 0 \<and> (p \<notin> range (\<lambda>led. led_node led ''breath'') \<longrightarrow> open_err \<Lambda> n p = 0)) \<and>
     (\<forall>n led. node_int \<Lambda> n (led_node led ''max_mix_brightness'') = Some (mx led) \<and> 0 \<le> mx led \<and> mx led \<le> 2 ^ 23)"

lemma fault_free_wrote [simp]: "fault_free mx (wrote n ws \<Lambda>) = fault_free mx \<Lambda>"
  by (simp add: fault_free_def)

lemma write_node_ok:
  assumes "fault_free mx \<Lambda>" and "a \<noteq> ''breath''"
  shows "write_node (led_node led a) s \<Lambda> = (0, wrote 2 [(led_node led a, s)] \<Lambda>)"
  using assms by (simp add: write_node_def called_def fault_free_def wrote_def image_iff Let_def)

lemma brightness_ok:
  assumes "fault_free mx \<Lambda>" and "0 \<le> b" and "b \<le> 255"
  shows "set_rgb_led_brightness led b \<Lambda> = Some (0, wrote 6 [(led_node led ''trigger'', ''none''),
    (led_node led ''brightness'', int_text (b * mx led div 255))] \<Lambda>)"
proof -
  have m: "0 \<le> mx led" "mx led \<le> 2 ^ 23" using assms(1) by (simp_all add: fault_free_def)
  have "b * mx led \<le> 255 * 2 ^ 23" using assms(2,3) m by (intro mult_mono) simp_all
  moreover have p: "0 \<le> b * mx led" using assms(2) m by simp
  ultimately have "ck32 (b * mx led) = Some (b * mx led)" by (simp add: ck32_def)
  moreover have "(b * mx led) sdiv 255 = b * mx led div 255" using p by (simp add: signed_divide_int_def sgn_if)
  moreover have "read_int (led_node led ''max_mix_brightness'') \<Lambda> = Some (mx led, wrote 2 [] \<Lambda>)"
    using assms(1) by (simp add: read_int_def called_def fault_free_def wrote_def image_iff Let_def)
  ultimately show ?thesis
    using assms(1) by (simp add: set_rgb_led_brightness_def write_str_def write_int_def write_node_ok [of mx] Let_def flip: int_text_def)
qed

lemma sync_ok:
  assumes "fault_free mx \<Lambda>"
  shows "set_rgb_light_sync led v \<Lambda> = Some (0, wrote 8 [(led_node led ''trigger'', ''none''),
    (led_node led ''brightness'', int_text 0), (led_node led ''sync_blink'', int_text v)] \<Lambda>)"
  using assms by (simp add: set_rgb_light_sync_def brightness_ok [of mx] write_int_def write_node_ok [of mx] flip: int_text_def)

lemma timer_loop_ok:
  "fault_free mx \<Lambda> \<Longrightarrow> 0 < n \<Longrightarrow> timer_loop n (led_node led ''delay_on'') (led_node led ''delay_off'') on off rc \<Lambda> =
     (0, wrote 4 [(led_node led ''delay_off'', int_text off), (led_node led ''delay_on'', int_text on)] \<Lambda>)"
  by (cases n) (simp_all add: write_int_def write_node_ok [of mx] flip: int_text_def)

lemma timer_ok:
  assumes "fault_free mx \<Lambda>"
  shows "set_rgb_led_timer_trigger led on off \<Lambda> = (0, wrote 6 [(led_node led ''trigger'', ''timer''),
    (led_node led ''delay_off'', int_text off), (led_node led ''delay_on'', int_text on)] \<Lambda>)"
  using assms by (simp add: set_rgb_led_timer_trigger_def write_str_def write_node_ok [of mx] timer_loop_ok [of mx])

section \<open>The LED\<close>

fun led_channel :: "rgb_led \<Rightarrow> light_state \<Rightarrow> int" where
  "led_channel LED_RED st = channel 16 (color st)"
| "led_channel LED_GREEN st = channel 8 (color st)"
| "led_channel LED_BLUE st = channel 0 (color st)"

lemma channel_range: "0 \<le> channel n c" "channel n c \<le> 255"
proof -
  have "uint (drop_bit n c AND 0xFF) \<le> uint (0xFF :: u32)"
    unfolding word_le_def [symmetric] by (rule word_and_le1)
  then show "channel n c \<le> 255" by (simp add: channel_def)
qed (simp add: channel_def)

text \<open>
  The nodes of a LED for a state: blinking channels are handed to the timer trigger with its two delays, a dark channel and all channels of
  a steady state have no trigger and the brightness scaled to the range of the LED.
\<close>

definition led_shows :: "(rgb_led \<Rightarrow> int) \<Rightarrow> light_state \<Rightarrow> lights \<Rightarrow> rgb_led \<Rightarrow> bool" where
  "led_shows mx st \<Lambda> led \<longleftrightarrow>
     (let c = led_channel led st in
      if flashMode st = LIGHT_FLASH_TIMED \<and> c \<noteq> 0
      then node \<Lambda> (led_node led ''trigger'') = Some ''timer'' \<and> node \<Lambda> (led_node led ''delay_on'') = Some (int_text (flashOnMS st)) \<and>
        node \<Lambda> (led_node led ''delay_off'') = Some (int_text (flashOffMS st)) \<and> node \<Lambda> (led_node led ''sync_blink'') = Some (int_text 1)
      else node \<Lambda> (led_node led ''trigger'') = Some ''none'' \<and> node \<Lambda> (led_node led ''brightness'') = Some (int_text (c * mx led div 255)) \<and>
        node \<Lambda> (led_node led ''sync_blink'') = Some (int_text 0))"

lemma node_wrote: "node (wrote n ws \<Lambda>) p = (case map_of (rev ws) p of None \<Rightarrow> node \<Lambda> p | Some s \<Rightarrow> Some s)"
  by (auto simp: node_def map_add_def split: option.split)

text \<open>The writes of the two ways to show a state.\<close>

definition sync_writes :: "(rgb_led \<Rightarrow> int) \<Rightarrow> (string \<times> string) list" where
  "sync_writes blink = concat (map (\<lambda>led. [(led_node led ''trigger'', ''none''), (led_node led ''brightness'', int_text 0),
     (led_node led ''sync_blink'', int_text (blink led))]) [LED_RED, LED_GREEN, LED_BLUE])"

definition steady_writes :: "(rgb_led \<Rightarrow> int) \<Rightarrow> light_state \<Rightarrow> (string \<times> string) list" where
  "steady_writes mx st = sync_writes (\<lambda>led. 0) @ concat (map (\<lambda>led. [(led_node led ''trigger'', ''none''),
     (led_node led ''brightness'', int_text (led_channel led st * mx led div 255))]) [LED_RED, LED_GREEN, LED_BLUE])"

definition timed_writes :: "light_state \<Rightarrow> (string \<times> string) list" where
  "timed_writes st = sync_writes (\<lambda>led. of_lit (led_channel led st)) @ concat (map (\<lambda>led. if led_channel led st = 0 then []
     else [(led_node led ''trigger'', ''timer''), (led_node led ''delay_off'', int_text (flashOffMS st)),
       (led_node led ''delay_on'', int_text (flashOnMS st))]) [LED_RED, LED_GREEN, LED_BLUE])"

lemma steady_shows: "flashMode st \<noteq> LIGHT_FLASH_TIMED \<Longrightarrow> led_shows mx st (wrote n (steady_writes mx st) \<Lambda>) led"
  by (cases led) (simp_all add: led_shows_def node_wrote steady_writes_def sync_writes_def)

lemma timed_shows: "flashMode st = LIGHT_FLASH_TIMED \<Longrightarrow> led_shows mx st (wrote n (timed_writes st) \<Lambda>) led"
  by (cases led) (auto simp: led_shows_def node_wrote timed_writes_def sync_writes_def of_lit_def Let_def)

lemma steady_ok:
  assumes "fault_free mx \<Lambda>"
  shows "speaker_steady (channel 16 (color st)) (channel 8 (color st)) (channel 0 (color st)) \<Lambda> = Some (0, wrote 42 (steady_writes mx st) \<Lambda>)"
  using assms by (simp add: speaker_steady_def sync_ok [of mx] brightness_ok [of mx] channel_range steady_writes_def sync_writes_def)

lemma timed_ok:
  assumes "fault_free mx \<Lambda>"
  shows "\<exists>n. speaker_timed (channel 16 (color st)) (channel 8 (color st)) (channel 0 (color st)) (flashOnMS st) (flashOffMS st) rc \<Lambda> =
    Some (rc, wrote n (timed_writes st) \<Lambda>)"
  using assms
  by (intro exI [of _ "24 + (if channel 16 (color st) = 0 then 0 else 6) + (if channel 8 (color st) = 0 then 0 else 6) +
        (if channel 0 (color st) = 0 then 0 else 6)"])
    (simp add: speaker_timed_def sync_ok [of mx] timer_ok [of mx] when_lit_def timed_writes_def sync_writes_def)

lemma speaker_ok:
  assumes "fault_free mx \<Lambda>" and "flashMode st \<noteq> LIGHT_FLASH_HARDWARE"
  shows "\<exists>n ws. set_speaker_light_locked True st \<Lambda> = Some (0, wrote n ws \<Lambda>) \<and> (\<forall>led. led_shows mx st (wrote n ws \<Lambda>) led)"
proof (cases "flashMode st = LIGHT_FLASH_TIMED")
  case True
  obtain n where n: "speaker_timed (channel 16 (color st)) (channel 8 (color st)) (channel 0 (color st)) (flashOnMS st) (flashOffMS st) 0 \<Lambda> =
    Some (0, wrote n (timed_writes st) \<Lambda>)" using timed_ok [OF assms(1)] by blast
  show ?thesis
    using n True assms(2) timed_shows [OF True]
    by (intro exI [of _ n] exI [of _ "timed_writes st"]) (simp add: set_speaker_light_locked_def Let_def)
next
  case False
  show ?thesis
    using steady_ok [OF assms(1)] False assms(2) steady_shows [OF False]
    by (intro exI [of _ 42] exI [of _ "steady_writes mx st"]) (simp add: set_speaker_light_locked_def Let_def)
qed


section \<open>Sequences of requests\<close>

datatype led_request = RequestBattery light_state | RequestNotification light_state | RequestAttention light_state

fun led_request_run :: "led_request \<Rightarrow> lights \<Rightarrow> (int \<times> lights) option" where
  "led_request_run (RequestBattery st) \<Lambda> = set_light Battery True st \<Lambda>"
| "led_request_run (RequestNotification st) \<Lambda> = set_light Notifications True st \<Lambda>"
| "led_request_run (RequestAttention st) \<Lambda> = set_light Attention True st \<Lambda>"

fun led_requests :: "led_request list \<Rightarrow> lights \<Rightarrow> lights option" where
  "led_requests [] \<Lambda> = Some \<Lambda>"
| "led_requests (r # rs) \<Lambda> = do { (rc, \<Lambda>) \<leftarrow> led_request_run r \<Lambda>; led_requests rs \<Lambda> }"

text \<open>The specification: the last states of battery and notification, and which of them the LED is for.\<close>

fun last_states :: "led_request list \<Rightarrow> light_state \<times> light_state \<Rightarrow> light_state \<times> light_state" where
  "last_states [] s = s"
| "last_states (RequestBattery st # rs) (b, n) = last_states rs (st, n)"
| "last_states (RequestNotification st # rs) (b, n) = last_states rs (b, st)"
| "last_states (RequestAttention st # rs) (b, n) = last_states rs (b, n)"

definition led_winner :: "light_state \<times> light_state \<Rightarrow> light_state" where
  "led_winner s = (if is_lit (fst s) then fst s else snd s)"

fun request_state :: "led_request \<Rightarrow> light_state" where
  "request_state (RequestBattery st) = st"
| "request_state (RequestNotification st) = st"
| "request_state (RequestAttention st) = st"

definition software_flash :: "light_state \<Rightarrow> bool" where
  "software_flash st \<longleftrightarrow> flashMode st \<noteq> LIGHT_FLASH_HARDWARE"

lemma led_request_ok:
  assumes "fault_free mx \<Lambda>" and "software_flash (request_state r)" and "software_flash (g_battery \<Lambda>)" and "software_flash (g_notification \<Lambda>)"
  shows "\<exists>\<Lambda>'. led_request_run r \<Lambda> = Some (0, \<Lambda>') \<and> fault_free mx \<Lambda>' \<and> (g_battery \<Lambda>', g_notification \<Lambda>') = last_states [r] (g_battery \<Lambda>, g_notification \<Lambda>) \<and>
    (\<forall>led. led_shows mx (led_winner (g_battery \<Lambda>', g_notification \<Lambda>')) \<Lambda>' led)"
proof -
  have handle: "\<exists>\<Lambda>'. handle_speaker_battery_locked True \<Lambda> = Some \<Lambda>' \<and> fault_free mx \<Lambda>' \<and> g_battery \<Lambda>' = g_battery \<Lambda> \<and>
      g_notification \<Lambda>' = g_notification \<Lambda> \<and> (\<forall>led. led_shows mx (led_winner (g_battery \<Lambda>, g_notification \<Lambda>)) \<Lambda>' led)"
    if ok: "fault_free mx \<Lambda>" "software_flash (g_battery \<Lambda>)" "software_flash (g_notification \<Lambda>)" for \<Lambda>
  proof -
    let ?st = "led_winner (g_battery \<Lambda>, g_notification \<Lambda>)"
    have m: "flashMode ?st \<noteq> LIGHT_FLASH_HARDWARE" using ok(2,3) by (simp add: led_winner_def software_flash_def)
    obtain n ws where "set_speaker_light_locked True ?st \<Lambda> = Some (0, wrote n ws \<Lambda>)" "\<forall>led. led_shows mx ?st (wrote n ws \<Lambda>) led"
      using speaker_ok [OF ok(1) m] by blast
    then show ?thesis using ok(1)
      by (cases "is_lit (g_battery \<Lambda>)") (simp_all add: handle_speaker_battery_locked_def led_winner_def)
  qed
  have env: "fault_free mx (\<Lambda>\<lparr>g_battery := st\<rparr>)" "fault_free mx (\<Lambda>\<lparr>g_notification := st\<rparr>)" "fault_free mx (\<Lambda>\<lparr>g_attention := v\<rparr>)" for st v
    using assms(1) by (simp_all add: fault_free_def)
  show ?thesis
  proof (cases r)
    case (RequestBattery st)
    then show ?thesis using handle [of "\<Lambda>\<lparr>g_battery := st\<rparr>"] env assms by (auto simp: set_light_battery_def)
  next
    case (RequestNotification st)
    then show ?thesis using handle [of "\<Lambda>\<lparr>g_notification := st\<rparr>"] env assms by (auto simp: set_light_notifications_def)
  next
    case (RequestAttention st)
    let ?\<Lambda> = "if flashMode st = LIGHT_FLASH_NONE then \<Lambda>\<lparr>g_attention := 0\<rparr> else \<Lambda>"
    have "set_light_attention True st \<Lambda> = do { \<Lambda> \<leftarrow> handle_speaker_battery_locked True ?\<Lambda>; Some (0, \<Lambda>) }"
      using assms(2) RequestAttention by (simp add: set_light_attention_def software_flash_def)
    then show ?thesis using handle [of ?\<Lambda>] env assms RequestAttention by auto
  qed
qed


lemma software_last_states:
  assumes "software_flash (fst s)" and "software_flash (snd s)" and "list_all (\<lambda>r. software_flash (request_state r)) rs"
  shows "software_flash (fst (last_states rs s)) \<and> software_flash (snd (last_states rs s))"
  using assms by (induction rs s rule: last_states.induct) auto

lemma last_states_Cons: "last_states (r # rs) s = last_states rs (last_states [r] s)"
  by (cases r; cases s) simp_all

lemma led_requests_ok:
  assumes "fault_free mx \<Lambda>" and "software_flash (g_battery \<Lambda>)" and "software_flash (g_notification \<Lambda>)"
    and "list_all (\<lambda>r. software_flash (request_state r)) rs"
  shows "\<exists>\<Lambda>'. led_requests rs \<Lambda> = Some \<Lambda>' \<and> (g_battery \<Lambda>', g_notification \<Lambda>') = last_states rs (g_battery \<Lambda>, g_notification \<Lambda>) \<and>
    (rs \<noteq> [] \<longrightarrow> (\<forall>led. led_shows mx (led_winner (g_battery \<Lambda>', g_notification \<Lambda>')) \<Lambda>' led))"
  using assms
proof (induction rs arbitrary: \<Lambda>)
  case Nil
  then show ?case by simp
next
  case (Cons r rs)
  from Cons.prems(4) have r: "software_flash (request_state r)" and rs: "list_all (\<lambda>r. software_flash (request_state r)) rs" by simp_all
  obtain \<Lambda>1 where 1: "led_request_run r \<Lambda> = Some (0, \<Lambda>1)" "fault_free mx \<Lambda>1"
      "(g_battery \<Lambda>1, g_notification \<Lambda>1) = last_states [r] (g_battery \<Lambda>, g_notification \<Lambda>)"
      "\<forall>led. led_shows mx (led_winner (g_battery \<Lambda>1, g_notification \<Lambda>1)) \<Lambda>1 led"
    using led_request_ok [OF Cons.prems(1) r Cons.prems(2,3)] by blast
  have "software_flash (g_battery \<Lambda>1)" "software_flash (g_notification \<Lambda>1)"
    using software_last_states [of "(g_battery \<Lambda>, g_notification \<Lambda>)" "[r]"] r Cons.prems(2,3) 1(3) [symmetric] by simp_all
  from Cons.IH [OF 1(2) this rs] obtain \<Lambda>2 where
    2: "led_requests rs \<Lambda>1 = Some \<Lambda>2" "(g_battery \<Lambda>2, g_notification \<Lambda>2) = last_states rs (g_battery \<Lambda>1, g_notification \<Lambda>1)"
      "rs \<noteq> [] \<longrightarrow> (\<forall>led. led_shows mx (led_winner (g_battery \<Lambda>2, g_notification \<Lambda>2)) \<Lambda>2 led)" by blast
  have "(g_battery \<Lambda>2, g_notification \<Lambda>2) = last_states (r # rs) (g_battery \<Lambda>, g_notification \<Lambda>)"
    using 2(2) 1(3) last_states_Cons by metis
  moreover have "\<forall>led. led_shows mx (led_winner (g_battery \<Lambda>2, g_notification \<Lambda>2)) \<Lambda>2 led"
    using 2 1(4) by (cases rs) simp_all
  ultimately show ?case using 1(1) 2(1) by simp
qed

definition light_off :: light_state where
  "light_off = \<lparr>color = 0, flashMode = 0, flashOnMS = 0, flashOffMS = 0, brightnessMode = 0\<rparr>"

definition light_blink :: light_state where
  "light_blink = \<lparr>color = 0xFF0000, flashMode = 1, flashOnMS = 500, flashOffMS = 2000, brightnessMode = 0\<rparr>"

definition faultless :: lights where
  "faultless = \<lparr>g_notification = light_off, g_battery = light_off, g_last_backlight_mode = 0, g_attention = 0, g_has_persistence_node = True,
     calls = 0, open_err = \<lambda>n p. 0, write_err = \<lambda>n p. 0, node_int = \<lambda>n p. Some 255, path_exists = \<lambda>n p. True, written = []\<rparr>"

lemma faultless_ok: "fault_free (\<lambda>led. 255) faultless" "software_flash (g_battery faultless)" "software_flash (g_notification faultless)"
  "list_all (\<lambda>r. software_flash (request_state r)) [RequestNotification light_blink, RequestBattery light_off]"
  by (simp_all add: faultless_def fault_free_def software_flash_def light_off_def light_blink_def LIGHT_FLASH_HARDWARE_def)

section \<open>Hardware flashing\<close>

lemma or_eq_0: "(a :: int) OR b = 0 \<longleftrightarrow> a = 0 \<and> b = 0"
  by (auto simp: bit_eq_iff bit_simps)

definition no_breath :: "rgb_led \<Rightarrow> lights \<Rightarrow> bool" where
  "no_breath led \<Lambda> \<longleftrightarrow> (\<forall>n. open_err \<Lambda> n (led_node led ''breath'') \<noteq> 0)"

lemma hw_blink_wrote:
  "\<exists>rc n ws. set_rgb_led_hw_blink led blink \<Lambda> = (rc, wrote n ws \<Lambda>) \<and> (no_breath led \<Lambda> \<longrightarrow> rc \<noteq> 0)"
proof -
  obtain rc n ws where "write_int (led_node led ''breath'') blink (wrote 1 [] \<Lambda>) = (rc, wrote n ws (wrote 1 [] \<Lambda>))"
    unfolding write_int_def by (rule write_node_cases)
  moreover have "no_breath led \<Lambda> \<longrightarrow> open_err \<Lambda> (calls \<Lambda>) (led_node led ''breath'') \<noteq> 0" by (simp add: no_breath_def)
  ultimately show ?thesis
    by (auto simp: set_rgb_led_hw_blink_def file_exists_def called_wrote)
qed

lemma when_lit_wrote:
  assumes "f = set_rgb_led_hw_blink led blink"
  shows "\<exists>rc' n' ws'. when_lit c f (rc, wrote n ws \<Lambda>) = (rc', wrote n' ws' \<Lambda>) \<and>
    (rc' = 0 \<longrightarrow> rc = 0 \<and> (c \<noteq> 0 \<longrightarrow> \<not> no_breath led \<Lambda>))"
proof -
  obtain r m vs where f: "f (wrote n ws \<Lambda>) = (r, wrote m vs (wrote n ws \<Lambda>))" and r: "no_breath led (wrote n ws \<Lambda>) \<longrightarrow> r \<noteq> 0"
    using hw_blink_wrote [of led blink "wrote n ws \<Lambda>"] assms by blast
  have "no_breath led (wrote n ws \<Lambda>) = no_breath led \<Lambda>" by (simp add: no_breath_def)
  then show ?thesis using f r by (cases "c = 0") (auto simp: when_lit_def or_eq_0)
qed

lemma hardware_fails:
  assumes "no_breath led \<Lambda>" and "led_channel led st \<noteq> 0"
  shows "\<exists>rc n ws. speaker_hardware (channel 16 (color st)) (channel 8 (color st)) (channel 0 (color st)) blink \<Lambda> = (rc, wrote n ws \<Lambda>) \<and> rc \<noteq> 0"
proof -
  have start: "\<Lambda> = wrote 0 [] \<Lambda>" by (simp add: wrote_def)
  obtain r1 n1 w1 where 1: "when_lit (channel 16 (color st)) (set_rgb_led_hw_blink LED_RED blink) (0, \<Lambda>) = (r1, wrote n1 w1 \<Lambda>)"
      "r1 = 0 \<longrightarrow> channel 16 (color st) \<noteq> 0 \<longrightarrow> \<not> no_breath LED_RED \<Lambda>"
    using when_lit_wrote [OF refl, of "channel 16 (color st)" LED_RED blink 0 0 "[]" \<Lambda>] start [symmetric] by auto
  obtain r2 n2 w2 where 2: "when_lit (channel 8 (color st)) (set_rgb_led_hw_blink LED_GREEN blink) (r1, wrote n1 w1 \<Lambda>) = (r2, wrote n2 w2 \<Lambda>)"
      "r2 = 0 \<longrightarrow> r1 = 0 \<and> (channel 8 (color st) \<noteq> 0 \<longrightarrow> \<not> no_breath LED_GREEN \<Lambda>)"
    using when_lit_wrote [OF refl] by blast
  obtain r3 n3 w3 where 3: "when_lit (channel 0 (color st)) (set_rgb_led_hw_blink LED_BLUE blink) (r2, wrote n2 w2 \<Lambda>) = (r3, wrote n3 w3 \<Lambda>)"
      "r3 = 0 \<longrightarrow> r2 = 0 \<and> (channel 0 (color st) \<noteq> 0 \<longrightarrow> \<not> no_breath LED_BLUE \<Lambda>)"
    using when_lit_wrote [OF refl] by blast
  have "r3 \<noteq> 0" using assms 1(2) 2(2) 3(2) by (cases led) auto
  then show ?thesis using 1(1) 2(1) 3(1) by (auto simp: speaker_hardware_def)
qed

text \<open>
  Claim C37. On a device where a lit channel has no node for breathing, a request for hardware flashing never ends in the timed blinking the
  code falls back to: the result code of the missing node stays in the accumulated one, so the timers just set are cleared
  and all three LEDs show the colour steadily, with result 0.
\<close>

theorem hardware_flash_ends_steady:
  assumes "fault_free mx \<Lambda>" and "flashMode st = LIGHT_FLASH_HARDWARE" and "no_breath led \<Lambda>" and "led_channel led st \<noteq> 0"
  shows "\<exists>\<Lambda>'. set_speaker_light_locked True st \<Lambda> = Some (0, \<Lambda>') \<and>
    (\<forall>led. led_shows mx (st\<lparr>flashMode := LIGHT_FLASH_NONE\<rparr>) \<Lambda>' led) \<and>
    (\<forall>led. led_channel led st \<noteq> 0 \<longrightarrow> (led_node led ''trigger'', ''timer'') \<in> set (written \<Lambda>'))"
proof -
  let ?r = "channel 16 (color st)" and ?g = "channel 8 (color st)" and ?b = "channel 0 (color st)"
  let ?blink = "if flashOnMS st \<noteq> 0 \<and> flashOffMS st \<noteq> 0 then 1 else 0"
  obtain rc n ws where hw: "speaker_hardware ?r ?g ?b ?blink \<Lambda> = (rc, wrote n ws \<Lambda>)" "rc \<noteq> 0"
    using hardware_fails [OF assms(3,4)] by blast
  obtain m where timed: "speaker_timed ?r ?g ?b (flashOnMS st) (flashOffMS st) rc (wrote n ws \<Lambda>) = Some (rc, wrote m (timed_writes st) (wrote n ws \<Lambda>))"
    using timed_ok [of mx "wrote n ws \<Lambda>" st rc] assms(1) by auto
  define \<Lambda>' where "\<Lambda>' = wrote 42 (steady_writes mx st) (wrote m (timed_writes st) (wrote n ws \<Lambda>))"
  have "speaker_steady ?r ?g ?b (wrote m (timed_writes st) (wrote n ws \<Lambda>)) = Some (0, \<Lambda>')"
    unfolding \<Lambda>'_def using steady_ok assms(1) by simp
  then have run: "set_speaker_light_locked True st \<Lambda> = Some (0, \<Lambda>')"
    using hw timed assms(2) by (simp add: set_speaker_light_locked_def Let_def)
  let ?s = "st\<lparr>flashMode := LIGHT_FLASH_NONE\<rparr>"
  have "led_channel led ?s = led_channel led st" for led by (cases led) simp_all
  then have "steady_writes mx ?s = steady_writes mx st" by (simp add: steady_writes_def)
  moreover have "flashMode ?s \<noteq> LIGHT_FLASH_TIMED" by (simp add: LIGHT_FLASH_NONE_def LIGHT_FLASH_TIMED_def)
  ultimately have "led_shows mx ?s \<Lambda>' led" for led
    using steady_shows [of ?s mx 42 "wrote m (timed_writes st) (wrote n ws \<Lambda>)" led] by (simp add: \<Lambda>'_def)
  moreover have "led_channel led st \<noteq> 0 \<longrightarrow> (led_node led ''trigger'', ''timer'') \<in> set (written \<Lambda>')" for led
    by (cases led) (simp_all add: \<Lambda>'_def timed_writes_def)
  ultimately show ?thesis using run by blast
qed

definition no_breathing :: lights where
  "no_breathing = faultless\<lparr>open_err := \<lambda>n p. if p = led_node LED_RED ''breath'' then 2 else 0\<rparr>"

lemma no_breathing_ok: "fault_free (\<lambda>led. 255) no_breathing" "flashMode (light_blink\<lparr>flashMode := LIGHT_FLASH_HARDWARE\<rparr>) = LIGHT_FLASH_HARDWARE"
  "no_breath LED_RED no_breathing" "led_channel LED_RED (light_blink\<lparr>flashMode := LIGHT_FLASH_HARDWARE\<rparr>) \<noteq> 0"
  by (simp_all add: no_breathing_def faultless_def fault_free_def no_breath_def light_blink_def channel_def)

theorem hardware_flash_ends_steady_witness:
  "\<exists>\<Lambda>'. set_speaker_light_locked True (light_blink\<lparr>flashMode := LIGHT_FLASH_HARDWARE\<rparr>) no_breathing = Some (0, \<Lambda>') \<and>
    (\<forall>led. led_shows (\<lambda>led. 255) (light_blink\<lparr>flashMode := LIGHT_FLASH_HARDWARE\<rparr>\<lparr>flashMode := LIGHT_FLASH_NONE\<rparr>) \<Lambda>' led) \<and>
    (\<forall>led. led_channel led (light_blink\<lparr>flashMode := LIGHT_FLASH_HARDWARE\<rparr>) \<noteq> 0 \<longrightarrow> (led_node led ''trigger'', ''timer'') \<in> set (written \<Lambda>'))"
  by (rule hardware_flash_ends_steady [OF no_breathing_ok])

section \<open>Timer trigger under faults\<close>

definition timed_pair :: "rgb_led \<Rightarrow> int \<Rightarrow> int \<Rightarrow> (string \<times> string) list" where
  "timed_pair led on off = [(led_node led ''delay_off'', int_text off), (led_node led ''delay_on'', int_text on)]"

text \<open>What \<open>n\<close> attempts may have written before the one that succeeds: only the delay off, and not more than once each.\<close>

definition failed_tries :: "nat \<Rightarrow> rgb_led \<Rightarrow> int \<Rightarrow> (string \<times> string) list \<Rightarrow> bool" where
  "failed_tries n led off ws \<longleftrightarrow> (\<exists>k \<le> n. ws = replicate k (led_node led ''delay_off'', int_text off))"

lemma failed_tries_Suc: "failed_tries n led off ws \<Longrightarrow> failed_tries (Suc n) led off ws"
  "failed_tries n led off ws \<Longrightarrow> failed_tries (Suc n) led off ((led_node led ''delay_off'', int_text off) # ws)"
  unfolding failed_tries_def by (auto intro: le_SucI exI [of _ "Suc _"])

definition tries_end :: "nat \<Rightarrow> rgb_led \<Rightarrow> int \<Rightarrow> int \<Rightarrow> int \<Rightarrow> (string \<times> string) list \<Rightarrow> bool" where
  "tries_end n led on off rc ws \<longleftrightarrow>
     (if rc = 0 then \<exists>vs. failed_tries n led off vs \<and> ws = vs @ timed_pair led on off else failed_tries n led off ws)"

lemma tries_end_Suc:
  assumes "tries_end n led on off rc ws"
  shows "tries_end (Suc n) led on off rc ws" and "tries_end (Suc n) led on off rc ((led_node led ''delay_off'', int_text off) # ws)"
  using assms unfolding tries_end_def by (auto simp: failed_tries_Suc dest: failed_tries_Suc(2) intro: exI [of _ "_ # _"] split: if_splits)

lemma timer_loop_faults:
  assumes "0 < n \<or> rc0 < 0"
  shows "\<exists>rc m ws. timer_loop n (led_node led ''delay_on'') (led_node led ''delay_off'') on off rc0 \<Lambda> = (rc, wrote m ws \<Lambda>) \<and> m \<le> 4 * n \<and> rc \<le> 0 \<and> tries_end n led on off rc ws"
  using assms
proof (induction n arbitrary: rc0 \<Lambda>)
  case 0
  then show ?case by (intro exI [of _ rc0] exI [of _ 0] exI [of _ "[]"]) (simp add: wrote_def failed_tries_def tries_end_def)
next
  case (Suc n)
  let ?on = "led_node led ''delay_on''" and ?off = "led_node led ''delay_off''"
  consider (first) rc k where "write_int ?off off \<Lambda> = (rc, wrote k [] \<Lambda>)" "rc < 0" "k \<le> 2"
    | (both) k l where "write_int ?off off \<Lambda> = (0, wrote k [(?off, int_text off)] \<Lambda>)" "k \<le> 2"
      "write_int ?on on (wrote k [(?off, int_text off)] \<Lambda>) = (0, wrote l [(?on, int_text on)] (wrote k [(?off, int_text off)] \<Lambda>))" "l \<le> 2"
    | (second) rc k l where "write_int ?off off \<Lambda> = (0, wrote k [(?off, int_text off)] \<Lambda>)" "k \<le> 2"
      "write_int ?on on (wrote k [(?off, int_text off)] \<Lambda>) = (rc, wrote l [] (wrote k [(?off, int_text off)] \<Lambda>))" "rc < 0" "l \<le> 2"
    unfolding write_int_def int_text_def by (metis write_node_cases)
  then show ?case
  proof cases
    case first
    with Suc.IH [of rc "wrote k [] \<Lambda>"] obtain rc' m ws where
      "timer_loop n ?on ?off on off rc (wrote k [] \<Lambda>) = (rc', wrote m ws (wrote k [] \<Lambda>))" "m \<le> 4 * n" "rc' \<le> 0"
      "tries_end n led on off rc' ws" by blast
    with first show ?thesis
      by (intro exI [of _ rc'] exI [of _ "k + m"] exI [of _ ws]) (simp add: tries_end_Suc)
  next
    case both
    then show ?thesis
      by (intro exI [of _ 0] exI [of _ "k + l"] exI [of _ "timed_pair led on off"])
        (simp add: tries_end_def timed_pair_def failed_tries_def exI [of _ "[]"])
  next
    case second
    let ?\<Lambda> = "wrote (k + l) [(?off, int_text off)] \<Lambda>"
    from second Suc.IH [of rc ?\<Lambda>] obtain rc' m ws where
      "timer_loop n ?on ?off on off rc ?\<Lambda> = (rc', wrote m ws ?\<Lambda>)" "m \<le> 4 * n" "rc' \<le> 0"
      "tries_end n led on off rc' ws" by blast
    with second show ?thesis
      by (intro exI [of _ rc'] exI [of _ "k + l + m"] exI [of _ "(?off, int_text off) # ws"])
        (simp add: tries_end_Suc)
  qed
qed


section \<open>Backlight\<close>

lemma rgb_to_brightness_range: "0 \<le> rgb_to_brightness st" "rgb_to_brightness st \<le> 255"
proof -
  let ?c = "color st AND 0x00ffffff"
  show "0 \<le> rgb_to_brightness st" by (simp add: rgb_to_brightness_def Let_def channel_range(1) pos_imp_zdiv_nonneg_iff)
  have "77 * channel 16 ?c + 150 * channel 8 ?c + 29 * channel 0 ?c \<le> 256 * 255"
    using channel_range(2) [of 16 ?c] channel_range(2) [of 8 ?c] channel_range(2) [of 0 ?c] by simp
  then show "rgb_to_brightness st \<le> 255" by (simp add: rgb_to_brightness_def Let_def)
qed

definition low_persistence :: "light_state \<Rightarrow> bool" where
  "low_persistence st \<longleftrightarrow> brightnessMode st = BRIGHTNESS_MODE_LOW_PERSISTENCE"

definition persistence_toggles :: "light_state \<Rightarrow> lights \<Rightarrow> bool" where
  "persistence_toggles st \<Lambda> \<longleftrightarrow> low_persistence st \<noteq> (g_last_backlight_mode \<Lambda> = BRIGHTNESS_MODE_LOW_PERSISTENCE)"

definition backlight_level :: "light_state \<Rightarrow> lights \<Rightarrow> int" where
  "backlight_level st \<Lambda> = (if g_has_persistence_node \<Lambda> \<and> persistence_toggles st \<Lambda> \<and> low_persistence st then 128 else rgb_to_brightness st)"

definition persistence_write :: "light_state \<Rightarrow> lights \<Rightarrow> (string \<times> string) list" where
  "persistence_write st \<Lambda> = (if g_has_persistence_node \<Lambda> \<and> persistence_toggles st \<Lambda>
     then [(PERSISTENCE_FILE, int_text (if low_persistence st then 1 else 0))] else [])"

text \<open>The write to the panel, which ends the request.\<close>

definition panel_write :: "int \<Rightarrow> lights \<Rightarrow> int \<times> lights" where
  "panel_write level \<Lambda> = (let (lcd, \<Lambda>) = access_ok LCD_FILE \<Lambda> in write_int (if lcd then LCD_FILE else LCD_FILE2) level \<Lambda>)"

lemma panel_write_faults:
  "\<exists>rc n ws. panel_write level \<Lambda> = (rc, wrote n ws \<Lambda>) \<and> rc \<le> 0 \<and>
    (if rc = 0 then \<exists>panel \<in> {LCD_FILE, LCD_FILE2}. ws = [(panel, int_text level)] else ws = [])"
proof -
  let ?panel = "if path_exists \<Lambda> (calls \<Lambda>) LCD_FILE then LCD_FILE else LCD_FILE2"
  have w: "panel_write level \<Lambda> = write_node ?panel (int_text level) (wrote 1 [] \<Lambda>)"
    by (simp add: panel_write_def access_ok_def called_wrote write_int_def int_text_def)
  show ?thesis
  proof (cases rule: write_node_cases [of ?panel "int_text level" "wrote 1 [] \<Lambda>"])
    case (stored n)
    then show ?thesis using w by (intro exI [of _ 0] exI [of _ "1 + n"] exI [of _ "[(?panel, int_text level)]"]) auto
  next
    case (failed rc n)
    then show ?thesis using w by (intro exI [of _ rc] exI [of _ "1 + n"] exI [of _ "[]"]) simp
  qed
qed

lemma backlight_eq:
  "set_light_backlight True st \<Lambda> =
     (let (err, \<Lambda>') = (if persistence_write st \<Lambda> = [] then (0, \<Lambda>) else write_int PERSISTENCE_FILE (if low_persistence st then 1 else 0) \<Lambda>);
          \<Lambda>' = (if g_has_persistence_node \<Lambda> then \<Lambda>'\<lparr>g_last_backlight_mode := brightnessMode st\<rparr> else \<Lambda>');
          (err, \<Lambda>') = (if err = 0 then panel_write (backlight_level st \<Lambda>) \<Lambda>' else (err, \<Lambda>')) in
      (if \<not> g_has_persistence_node \<Lambda> \<and> persistence_toggles st \<Lambda> then - ENOSYS else err, \<Lambda>'))"
proof -
  have t: "(g_last_backlight_mode \<Lambda> \<noteq> brightnessMode st \<and> low_persistence st \<or>
      \<not> low_persistence st \<and> g_last_backlight_mode \<Lambda> = BRIGHTNESS_MODE_LOW_PERSISTENCE) = persistence_toggles st \<Lambda>"
    by (auto simp: persistence_toggles_def low_persistence_def)
  have p: "(case access_ok LCD_FILE \<Lambda> of (lcd, \<Lambda>) \<Rightarrow> write_int (if lcd then LCD_FILE else LCD_FILE2) v \<Lambda>) = panel_write v \<Lambda>" for v \<Lambda>
    by (simp add: panel_write_def)
  show ?thesis
    unfolding set_light_backlight_def Let_def low_persistence_def [symmetric] t p
    by (cases "g_has_persistence_node \<Lambda> \<and> persistence_toggles st \<Lambda>"; cases "write_int PERSISTENCE_FILE (if low_persistence st then 1 else 0) \<Lambda>")
      (auto simp: persistence_write_def backlight_level_def DEFAULT_LOW_PERSISTENCE_MODE_BRIGHTNESS_def)
qed

text \<open>
  Claim C21. Whatever calls fail, a backlight request writes a level between 0 and 255 to one of the two panel nodes, after the
  persistence node when low persistence is entered or left and the node exists, or it fails with a negative result and the panel
  is not written; without the node a request that enters or leaves low persistence is answered with
  \<open>-ENOSYS\<close>, even though the level may have been written. The mode is remembered exactly when the node exists.
\<close>

theorem backlight_exact:
  "\<exists>rc ws. fst (set_light_backlight True st \<Lambda>) = (if \<not> g_has_persistence_node \<Lambda> \<and> persistence_toggles st \<Lambda> then - ENOSYS else rc) \<and>
    written (snd (set_light_backlight True st \<Lambda>)) = written \<Lambda> @ ws \<and> rc \<le> 0 \<and> 0 \<le> backlight_level st \<Lambda> \<and> backlight_level st \<Lambda> \<le> 255 \<and>
    (if rc = 0 then \<exists>panel \<in> {LCD_FILE, LCD_FILE2}. ws = persistence_write st \<Lambda> @ [(panel, int_text (backlight_level st \<Lambda>))]
     else ws = [] \<or> ws = persistence_write st \<Lambda>) \<and>
    g_last_backlight_mode (snd (set_light_backlight True st \<Lambda>)) = (if g_has_persistence_node \<Lambda> then brightnessMode st else g_last_backlight_mode \<Lambda>)"
proof -
  let ?level = "backlight_level st \<Lambda>" and ?unsupported = "\<not> g_has_persistence_node \<Lambda> \<and> persistence_toggles st \<Lambda>"
  let ?keep = "\<lambda>\<Lambda>'. if g_has_persistence_node \<Lambda> then \<Lambda>'\<lparr>g_last_backlight_mode := brightnessMode st\<rparr> else \<Lambda>'"
  have level: "0 \<le> ?level" "?level \<le> 255" using rgb_to_brightness_range by (simp_all add: backlight_level_def)
  have kept: "written (?keep \<Lambda>') = written \<Lambda>'" "g_last_backlight_mode (?keep (wrote n ws \<Lambda>)) =
      (if g_has_persistence_node \<Lambda> then brightnessMode st else g_last_backlight_mode \<Lambda>)" for \<Lambda>' n ws by simp_all
  have first: "\<exists>err n ws. (if persistence_write st \<Lambda> = [] then (0, \<Lambda>) else write_int PERSISTENCE_FILE (if low_persistence st then 1 else 0) \<Lambda>) =
      (err, wrote n ws \<Lambda>) \<and> err \<le> 0 \<and> ws = (if err = 0 then persistence_write st \<Lambda> else [])"
  proof (cases "persistence_write st \<Lambda> = []")
    case True
    then show ?thesis by (intro exI [of _ 0] exI [of _ "[]"]) (simp add: wrote_def)
  next
    case False
    then have w: "persistence_write st \<Lambda> = [(PERSISTENCE_FILE, int_text (if low_persistence st then 1 else 0))]"
      by (simp add: persistence_write_def split: if_splits)
    show ?thesis
      unfolding w write_int_def int_text_def [symmetric]
      by (rule write_node_cases [of PERSISTENCE_FILE "int_text (if low_persistence st then 1 else 0)" \<Lambda>]) auto
  qed
  obtain err n ws where 1: "(if persistence_write st \<Lambda> = [] then (0, \<Lambda>) else write_int PERSISTENCE_FILE (if low_persistence st then 1 else 0) \<Lambda>) =
      (err, wrote n ws \<Lambda>)" "err \<le> 0" "ws = (if err = 0 then persistence_write st \<Lambda> else [])" using first by blast
  obtain rc m vs where 2: "panel_write ?level (?keep (wrote n ws \<Lambda>)) = (rc, wrote m vs (?keep (wrote n ws \<Lambda>)))" "rc \<le> 0"
      "if rc = 0 then \<exists>panel \<in> {LCD_FILE, LCD_FILE2}. vs = [(panel, int_text ?level)] else vs = []"
    using panel_write_faults by blast
  show ?thesis
  proof (cases "err = 0")
    case True
    have "set_light_backlight True st \<Lambda> = (if ?unsupported then - ENOSYS else rc, wrote m vs (?keep (wrote n ws \<Lambda>)))"
      unfolding backlight_eq Let_def 1(1) using 2(1) True by simp
    then show ?thesis using 1 2(2,3) True level kept by (intro exI [of _ rc] exI [of _ "ws @ vs"]) auto
  next
    case False
    have "set_light_backlight True st \<Lambda> = (if ?unsupported then - ENOSYS else err, ?keep (wrote n ws \<Lambda>))"
      unfolding backlight_eq Let_def 1(1) using False by simp
    then show ?thesis using 1 False level kept by (intro exI [of _ err] exI [of _ "[]"]) auto
  qed
qed

end
