(* ===== verification/Lights_Hal.thy ===== *)
theory Lights_Hal
  imports Liblight_Props
begin

text \<open>
  The lights service (\<open>lights/Lights.cpp\<close>) on top of the module: which lights it finds when it is constructed, the list it gives its
  clients, and a request on its way to the node. \<open>hw_get_module\<close> and \<open>malloc\<close> may fail on every call. The ids of the
  light types and the names of the lights are those of the Android interface and of \<open>hardware/lights.h\<close>.
\<close>

section \<open>Lights.cpp\<close>

datatype LightType = BACKLIGHT | KEYBOARD | BUTTONS | BATTERY | NOTIFICATIONS | ATTENTION | BLUETOOTH | WIFI

fun light_type_id :: "LightType \<Rightarrow> int" where
  "light_type_id BACKLIGHT = 0"
| "light_type_id KEYBOARD = 1"
| "light_type_id BUTTONS = 2"
| "light_type_id BATTERY = 3"
| "light_type_id NOTIFICATIONS = 4"
| "light_type_id ATTENTION = 5"
| "light_type_id BLUETOOTH = 6"
| "light_type_id WIFI = 7"

definition kLogicalLights :: "(LightType \<times> string) list" where
  "kLogicalLights =
     [(BACKLIGHT, ''backlight''), (KEYBOARD, ''keyboard''), (BUTTONS, ''buttons''), (BATTERY, ''battery''),
      (NOTIFICATIONS, ''notifications''), (ATTENTION, ''attention''), (BLUETOOTH, ''bluetooth''), (WIFI, ''wifi'')]"

record HwLight =
  light_id :: int
  light_type :: LightType
  light_ordinal :: int

record HwLightState =
  hw_color :: int
  hw_flashMode :: int
  hw_flashOnMs :: int
  hw_flashOffMs :: int
  hw_brightnessMode :: int

text \<open>A light device is known by the function it was opened for.\<close>

record Lights =
  mLights :: "int \<rightharpoonup> light_fn"
  mAvailableLights :: "HwLight list"
  maxLights :: int

datatype light_status = LightOk | LightUnsupported | LightError int

definition getLightDevice :: "int \<Rightarrow> bool \<Rightarrow> string \<Rightarrow> lights \<Rightarrow> light_fn option \<times> lights" where
  "getLightDevice hw_get_module malloc_ok name \<Lambda> =
     (if hw_get_module = 0 then
        let (ret, lightDevice, \<Lambda>) = open_lights malloc_ok name \<Lambda> in
        (if ret = 0 then lightDevice else None, \<Lambda>)
      else (None, \<Lambda>))"

text \<open>One round of the constructor; the outcome of \<open>hw_get_module\<close> and of \<open>malloc\<close> are functions of the round.\<close>

definition construct_light :: "(int \<Rightarrow> int) \<Rightarrow> (int \<Rightarrow> bool) \<Rightarrow> LightType \<times> string \<Rightarrow> Lights \<times> lights \<Rightarrow> Lights \<times> lights" where
  "construct_light hw_get_module malloc_ok = (\<lambda>(type, name) (L, \<Lambda>).
     (let (lightDevice, \<Lambda>) = getLightDevice (hw_get_module (maxLights L)) (malloc_ok (maxLights L)) name \<Lambda>;
          L = L\<lparr>maxLights := maxLights L + 1\<rparr> in
      case lightDevice of
        None \<Rightarrow> (L, \<Lambda>)
      | Some dev \<Rightarrow>
          let hwLight = \<lparr>light_id = light_type_id type, light_type = type, light_ordinal = 0\<rparr> in
          (L\<lparr>mLights := (mLights L)(light_id hwLight \<mapsto> dev), mAvailableLights := mAvailableLights L @ [hwLight]\<rparr>, \<Lambda>)))"

definition construct_Lights :: "(int \<Rightarrow> int) \<Rightarrow> (int \<Rightarrow> bool) \<Rightarrow> lights \<Rightarrow> Lights \<times> lights" where
  "construct_Lights hw_get_module malloc_ok \<Lambda> =
     fold (construct_light hw_get_module malloc_ok) kLogicalLights (\<lparr>mLights = Map.empty, mAvailableLights = [], maxLights = 0\<rparr>, \<Lambda>)"

definition legacyState :: "HwLightState \<Rightarrow> light_state" where
  "legacyState state = \<lparr>color = word_of_int (hw_color state), flashMode = hw_flashMode state, flashOnMS = hw_flashOnMs state,
     flashOffMS = hw_flashOffMs state, brightnessMode = hw_brightnessMode state\<rparr>"

definition light_status_of :: "int \<Rightarrow> light_status" where
  "light_status_of ret = (if ret = - ENOSYS then LightUnsupported else if ret = 0 then LightOk else LightError ret)"

definition set_light_of :: "light_fn \<Rightarrow> HwLightState \<Rightarrow> lights \<Rightarrow> (light_status \<times> lights) option" where
  "set_light_of hwLight state \<Lambda> = do {
     (ret, \<Lambda>) \<leftarrow> set_light hwLight True (legacyState state) \<Lambda>;
     Some (light_status_of ret, \<Lambda>)
   }"

definition setLightState :: "Lights \<Rightarrow> int \<Rightarrow> HwLightState \<Rightarrow> lights \<Rightarrow> (light_status \<times> lights) option" where
  "setLightState L lid state \<Lambda> =
     (if maxLights L \<le> lid then Some (LightUnsupported, \<Lambda>)
      else case mLights L lid of
        None \<Rightarrow> Some (LightUnsupported, \<Lambda>)
      | Some hwLight \<Rightarrow> set_light_of hwLight state \<Lambda>)"

definition getLights :: "Lights \<Rightarrow> HwLight list \<Rightarrow> HwLight list" where
  "getLights L ls = ls @ mAvailableLights L"

section \<open>Construction\<close>

text \<open>
  The invariant of the constructor: the list holds the lights of the table in increasing order of their ids,
  each opened for the function its name stands for.
\<close>

fun light_fn_of :: "LightType \<Rightarrow> light_fn option" where
  "light_fn_of BACKLIGHT = Some Backlight"
| "light_fn_of BUTTONS = Some Buttons"
| "light_fn_of BATTERY = Some Battery"
| "light_fn_of NOTIFICATIONS = Some Notifications"
| "light_fn_of ATTENTION = Some Attention"
| "light_fn_of _ = None"

definition lights_inv :: "Lights \<Rightarrow> bool" where
  "lights_inv L \<longleftrightarrow> (\<forall>i dev. mLights L i = Some dev \<longleftrightarrow> (\<exists>hl \<in> set (mAvailableLights L). light_id hl = i \<and> light_fn_of (light_type hl) = Some dev)) \<and>
     (\<forall>hl \<in> set (mAvailableLights L). light_id hl = light_type_id (light_type hl) \<and> light_id hl < maxLights L \<and> light_ordinal hl = 0 \<and>
        light_fn_of (light_type hl) \<noteq> None) \<and>
     sorted_wrt (\<lambda>a b. light_id a < light_id b) (mAvailableLights L)"

lemma kLogicalLights_ids: "(type, name) \<in> set kLogicalLights \<Longrightarrow> kLogicalLights ! nat (light_type_id type) = (type, name)"
  by (auto simp: kLogicalLights_def)

lemma open_lights_fn:
  assumes "(type, name) \<in> set kLogicalLights" and "getLightDevice m ok name \<Lambda> = (Some dev, \<Lambda>')"
  shows "light_fn_of type = Some dev"
  using assms by (auto simp: kLogicalLights_def getLightDevice_def open_lights_def access_ok_def Let_def split: if_splits)

lemma lights_inv_skip: "lights_inv L \<Longrightarrow> lights_inv (L\<lparr>maxLights := maxLights L + 1\<rparr>)"
  unfolding lights_inv_def by fastforce

lemma lights_inv_add:
  assumes "lights_inv L" and "maxLights L = light_type_id type" and "light_fn_of type = Some dev"
  shows "lights_inv (L\<lparr>maxLights := maxLights L + 1, mLights := (mLights L)(light_type_id type \<mapsto> dev),
    mAvailableLights := mAvailableLights L @ [\<lparr>light_id = light_type_id type, light_type = type, light_ordinal = 0\<rparr>]\<rparr>)"
proof -
  let ?k = "light_type_id type" and ?A = "mAvailableLights L" and ?new = "\<lparr>light_id = light_type_id type, light_type = type, light_ordinal = 0\<rparr>"
  let ?L = "L\<lparr>maxLights := maxLights L + 1, mLights := (mLights L)(?k \<mapsto> dev), mAvailableLights := ?A @ [?new]\<rparr>"
  have below: "\<forall>hl \<in> set ?A. light_id hl < ?k" using assms(1) unfolding lights_inv_def assms(2) by blast
  have "((mLights L)(?k \<mapsto> dev)) i = Some d \<longleftrightarrow> (\<exists>hl \<in> set (?A @ [?new]). light_id hl = i \<and> light_fn_of (light_type hl) = Some d)" for i d
  proof (cases "i = ?k")
    case True
    then show ?thesis using below assms(3) by auto
  next
    case False
    moreover have "mLights L i = Some d \<longleftrightarrow> (\<exists>hl \<in> set ?A. light_id hl = i \<and> light_fn_of (light_type hl) = Some d)"
      using assms(1) unfolding lights_inv_def by blast
    ultimately show ?thesis by simp
  qed
  moreover have "\<forall>hl \<in> set (?A @ [?new]). light_id hl = light_type_id (light_type hl) \<and> light_id hl < maxLights L + 1 \<and> light_ordinal hl = 0 \<and>
      light_fn_of (light_type hl) \<noteq> None"
    using assms unfolding lights_inv_def by fastforce
  moreover have "sorted_wrt (\<lambda>a b. light_id a < light_id b) (?A @ [?new])"
    using assms(1) below unfolding lights_inv_def by (simp add: sorted_wrt_append)
  moreover have "mLights ?L = (mLights L)(?k \<mapsto> dev)" "mAvailableLights ?L = ?A @ [?new]" "maxLights ?L = maxLights L + 1" by simp_all
  ultimately show ?thesis unfolding lights_inv_def by presburger
qed

lemma construct_light_inv:
  assumes "lights_inv L" and "(type, name) \<in> set kLogicalLights" and "maxLights L = light_type_id type"
  shows "lights_inv (fst (construct_light m ok (type, name) (L, \<Lambda>)))"
    and "maxLights (fst (construct_light m ok (type, name) (L, \<Lambda>))) = maxLights L + 1"
proof -
  obtain d \<Lambda>' where d: "getLightDevice (m (maxLights L)) (ok (maxLights L)) name \<Lambda> = (d, \<Lambda>')" by fastforce
  then show "maxLights (fst (construct_light m ok (type, name) (L, \<Lambda>))) = maxLights L + 1"
    by (auto simp: construct_light_def Let_def split: option.split)
  show "lights_inv (fst (construct_light m ok (type, name) (L, \<Lambda>)))"
    using d lights_inv_skip [OF assms(1)] lights_inv_add [OF assms(1,3)] open_lights_fn [OF assms(2)]
    by (cases d) (simp_all add: construct_light_def Let_def)
qed

lemma light_type_id_nth: "i < 8 \<Longrightarrow> light_type_id (fst (kLogicalLights ! i)) = int i"
  by (auto simp: kLogicalLights_def less_Suc_eq numeral_eq_Suc)

lemma length_kLogicalLights: "length kLogicalLights = 8"
  by (simp add: kLogicalLights_def)

lemma construct_fold:
  assumes "kLogicalLights = ys @ xs" and "lights_inv (fst s)" and "maxLights (fst s) = int (length ys)"
  shows "lights_inv (fst (fold (construct_light m ok) xs s)) \<and> maxLights (fst (fold (construct_light m ok) xs s)) = 8"
  using assms
proof (induction xs arbitrary: ys s)
  case Nil
  then show ?case using length_kLogicalLights by simp
next
  case (Cons x xs)
  obtain type name where x: "x = (type, name)" by (cases x)
  obtain L \<Lambda> where s: "s = (L, \<Lambda>)" by (cases s)
  have mem: "(type, name) \<in> set kLogicalLights" by (auto simp: Cons.prems(1) x)
  have "length ys < 8" using length_kLogicalLights by (simp add: Cons.prems(1))
  then have "light_type_id type = int (length ys)"
    using light_type_id_nth [of "length ys"] by (simp add: Cons.prems(1) x nth_append)
  then have id: "maxLights L = light_type_id type" using Cons.prems(3) s by simp
  have "lights_inv L" using Cons.prems(2) s by simp
  note step = construct_light_inv [OF this mem id, of m ok \<Lambda>]
  have 1: "lights_inv (fst (construct_light m ok x s))" unfolding s x by (rule step(1))
  have 2: "maxLights (fst (construct_light m ok x s)) = int (length (ys @ [x]))" unfolding s x step(2) using Cons.prems(3) s by simp
  show ?case using Cons.IH [OF _ 1 2] Cons.prems(1) by simp
qed

lemma lights_inv_empty: "lights_inv \<lparr>mLights = Map.empty, mAvailableLights = [], maxLights = 0\<rparr>"
  by (simp add: lights_inv_def)

lemma construct_inv: "lights_inv (fst (construct_Lights m ok \<Lambda>))" "maxLights (fst (construct_Lights m ok \<Lambda>)) = 8"
  using construct_fold [of "[]" kLogicalLights "(\<lparr>mLights = Map.empty, mAvailableLights = [], maxLights = 0\<rparr>, \<Lambda>)" m ok] lights_inv_empty
  by (simp_all add: construct_Lights_def)

lemma lights_invD:
  assumes "lights_inv L" and "hl \<in> set (mAvailableLights L)"
  shows "light_id hl = light_type_id (light_type hl)" and "light_id hl < maxLights L"
    and "\<exists>dev. light_fn_of (light_type hl) = Some dev \<and> mLights L (light_id hl) = Some dev"
  using assms unfolding lights_inv_def by blast+

lemma setLightState_unlisted:
  assumes "lights_inv L" and "lid \<notin> light_id ` set (mAvailableLights L)"
  shows "setLightState L lid st \<Lambda> = Some (LightUnsupported, \<Lambda>)"
proof -
  have "mLights L lid = None" using assms by (cases "mLights L lid") (auto simp: lights_inv_def)
  then show ?thesis by (simp add: setLightState_def)
qed

lemma setLightState_listed:
  assumes "lights_inv L" and "hl \<in> set (mAvailableLights L)"
  shows "\<exists>dev. light_fn_of (light_type hl) = Some dev \<and> (\<forall>st \<Lambda>. setLightState L (light_id hl) st \<Lambda> = set_light_of dev st \<Lambda>)"
  using lights_invD [OF assms] by (auto simp: setLightState_def)

lemma lights_inv_sorted: "lights_inv L \<Longrightarrow> sorted_wrt (<) (map light_id (mAvailableLights L))"
  by (auto simp: lights_inv_def sorted_wrt_map)

lemma listed_exactly:
  assumes "lights_inv L" and "maxLights L = 8"
  shows "sorted_wrt (<) (map light_id (getLights L [])) \<and>
    (\<forall>lid st \<Lambda>. lid \<notin> light_id ` set (getLights L []) \<longrightarrow> setLightState L lid st \<Lambda> = Some (LightUnsupported, \<Lambda>)) \<and>
    (\<forall>hl \<in> set (getLights L []). light_id hl = light_type_id (light_type hl) \<and> light_id hl < 8 \<and>
      (\<exists>dev. light_fn_of (light_type hl) = Some dev \<and> (\<forall>st \<Lambda>. setLightState L (light_id hl) st \<Lambda> = set_light_of dev st \<Lambda>)))"
proof -
  have g: "getLights L [] = mAvailableLights L" by (simp add: getLights_def)
  have below: "light_id hl < 8" if "hl \<in> set (mAvailableLights L)" for hl
    using lights_invD(2) [OF assms(1) that] assms(2) by simp
  show ?thesis
    unfolding g using below lights_inv_sorted [OF assms(1)] setLightState_unlisted [OF assms(1)] lights_invD(1) [OF assms(1)] setLightState_listed [OF assms(1)]
    by blast
qed

text \<open>
  Claim C22. Whatever fails while the service is constructed, the list it gives its clients has strictly increasing ids below 8;
  a request for an id that is not listed (negative and too large ones included) is answered as unsupported and touches nothing; a
  request for a listed id runs the operation of the module the light is named for, its result passed on as the status.
\<close>

theorem lights_listed_exactly:
  fixes m :: "int \<Rightarrow> int" and ok :: "int \<Rightarrow> bool" and \<Lambda>\<^sub>0 :: lights
  shows "sorted_wrt (<) (map light_id (getLights (fst (construct_Lights m ok \<Lambda>\<^sub>0)) [])) \<and>
    (\<forall>lid st \<Lambda>. lid \<notin> light_id ` set (getLights (fst (construct_Lights m ok \<Lambda>\<^sub>0)) []) \<longrightarrow>
      setLightState (fst (construct_Lights m ok \<Lambda>\<^sub>0)) lid st \<Lambda> = Some (LightUnsupported, \<Lambda>)) \<and>
    (\<forall>hl \<in> set (getLights (fst (construct_Lights m ok \<Lambda>\<^sub>0)) []). light_id hl = light_type_id (light_type hl) \<and> light_id hl < 8 \<and>
      (\<exists>dev. light_fn_of (light_type hl) = Some dev \<and> 
        (\<forall>st \<Lambda>. setLightState (fst (construct_Lights m ok \<Lambda>\<^sub>0)) (light_id hl) st \<Lambda> = set_light_of dev st \<Lambda>)))"
  by (rule listed_exactly [OF construct_inv])

definition hw_off :: HwLightState where
  "hw_off = \<lparr>hw_color = 0, hw_flashMode = 0, hw_flashOnMs = 0, hw_flashOffMs = 0, hw_brightnessMode = 0\<rparr>"

definition hw_blink :: HwLightState where
  "hw_blink = \<lparr>hw_color = -65536, hw_flashMode = 1, hw_flashOnMs = 500, hw_flashOffMs = 2000, hw_brightnessMode = 0\<rparr>"

lemma faultless_lights: "mAvailableLights (fst (construct_Lights (\<lambda>_. 0) (\<lambda>_. True) faultless)) =
  [\<lparr>light_id = 0, light_type = BACKLIGHT, light_ordinal = 0\<rparr>, \<lparr>light_id = 2, light_type = BUTTONS, light_ordinal = 0\<rparr>,
   \<lparr>light_id = 3, light_type = BATTERY, light_ordinal = 0\<rparr>, \<lparr>light_id = 4, light_type = NOTIFICATIONS, light_ordinal = 0\<rparr>,
   \<lparr>light_id = 5, light_type = ATTENTION, light_ordinal = 0\<rparr>]"
  by (simp add: construct_Lights_def kLogicalLights_def construct_light_def getLightDevice_def open_lights_def access_ok_def called_def faultless_def
      EINVAL_light_def Let_def)

theorem lights_listed_exactly_witness:
  "setLightState (fst (construct_Lights (\<lambda>_. 0) (\<lambda>_. True) faultless)) (-1) hw_off faultless = Some (LightUnsupported, faultless) \<and>
   setLightState (fst (construct_Lights (\<lambda>_. 0) (\<lambda>_. True) faultless)) 2 hw_off faultless = set_light_of Buttons hw_off faultless"
  using lights_listed_exactly [of "\<lambda>_. 0" "\<lambda>_. True" faultless] by (simp add: getLights_def faultless_lights)

section \<open>From a client to the LED\<close>

fun client_calls :: "Lights \<Rightarrow> (LightType \<times> HwLightState) list \<Rightarrow> lights \<Rightarrow> (light_status list \<times> lights) option" where
  "client_calls L [] \<Lambda> = Some ([], \<Lambda>)"
| "client_calls L ((type, st) # cs) \<Lambda> = do {
     (r, \<Lambda>) \<leftarrow> setLightState L (light_type_id type) st \<Lambda>;
     (rs, \<Lambda>) \<leftarrow> client_calls L cs \<Lambda>;
     Some (r # rs, \<Lambda>)
   }"

definition led_type :: "LightType \<Rightarrow> bool" where
  "led_type type \<longleftrightarrow> type = BATTERY \<or> type = NOTIFICATIONS \<or> type = ATTENTION"

definition request_of :: "LightType \<times> HwLightState \<Rightarrow> led_request" where
  "request_of c =
     (if fst c = BATTERY then RequestBattery (legacyState (snd c))
      else if fst c = NOTIFICATIONS then RequestNotification (legacyState (snd c))
      else RequestAttention (legacyState (snd c)))"

lemma getLightDevice_frame:
  assumes "getLightDevice r ok name \<Lambda> = (d, \<Lambda>')"
  shows "fault_free mx \<Lambda>' = fault_free mx \<Lambda>" and "g_battery \<Lambda>' = g_battery \<Lambda>" and "g_notification \<Lambda>' = g_notification \<Lambda>"
  using assms by (auto simp: getLightDevice_def open_lights_def access_ok_def called_def fault_free_def Let_def split: if_splits)

definition led_ready :: "(rgb_led \<Rightarrow> int) \<Rightarrow> lights \<Rightarrow> lights \<Rightarrow> bool" where
  "led_ready mx \<Lambda> \<Lambda>' \<longleftrightarrow> fault_free mx \<Lambda>' = fault_free mx \<Lambda> \<and> g_battery \<Lambda>' = g_battery \<Lambda> \<and> g_notification \<Lambda>' = g_notification \<Lambda>"

lemma construct_light_opens:
  "\<exists>d \<Lambda>'. getLightDevice (m (maxLights L)) (ok (maxLights L)) name \<Lambda> = (d, \<Lambda>') \<and>
     construct_light m ok (type, name) (L, \<Lambda>) =
       (case d of None \<Rightarrow> L\<lparr>maxLights := maxLights L + 1\<rparr>
        | Some dev \<Rightarrow> L\<lparr>maxLights := maxLights L + 1, mLights := (mLights L)(light_type_id type \<mapsto> dev),
            mAvailableLights := mAvailableLights L @ [\<lparr>light_id = light_type_id type, light_type = type, light_ordinal = 0\<rparr>]\<rparr>, \<Lambda>')"
  by (cases "getLightDevice (m (maxLights L)) (ok (maxLights L)) name \<Lambda>") (simp add: construct_light_def Let_def split: option.split)

lemma construct_frame: "led_ready mx \<Lambda> (snd (construct_Lights m ok \<Lambda>))"
  unfolding construct_Lights_def
proof (rule fold_invariant [where Q = "\<lambda>_. True" and P = "\<lambda>s. led_ready mx \<Lambda> (snd s)"])
  fix x :: "LightType \<times> string" and s :: "Lights \<times> lights"
  assume s: "led_ready mx \<Lambda> (snd s)"
  obtain type name where x: "x = (type, name)" by (cases x)
  obtain L \<Lambda>1 where L: "s = (L, \<Lambda>1)" by (cases s)
  obtain d \<Lambda>2 where d: "getLightDevice (m (maxLights L)) (ok (maxLights L)) name \<Lambda>1 = (d, \<Lambda>2)" "snd (construct_light m ok x s) = \<Lambda>2"
    using construct_light_opens [of m L ok name \<Lambda>1 type] unfolding x L by (metis snd_conv)
  show "led_ready mx \<Lambda> (snd (construct_light m ok x s))"
    unfolding d(2) using s getLightDevice_frame [OF d(1)] by (simp add: led_ready_def L)
qed (simp_all add: led_ready_def)

lemma construct_led:
  assumes "led_type type"
  shows "mLights (fst (construct_Lights (\<lambda>_. 0) (\<lambda>_. True) \<Lambda>)) (light_type_id type) = light_fn_of type"
  using assms
  by (cases "path_exists \<Lambda> (Suc (calls \<Lambda>)) BUTTON_FILE")
    (auto simp: led_type_def construct_Lights_def kLogicalLights_def construct_light_def getLightDevice_def open_lights_def access_ok_def called_def
      EINVAL_light_def Let_def)

lemma perform_zero: "led_request_run r \<Lambda> = Some (rc, \<Lambda>') \<Longrightarrow> rc = 0"
  by (cases r) (auto simp: set_light_battery_def set_light_notifications_def set_light_attention_def Let_def split: bind_splits)

lemma perform_setLightState:
  assumes "mLights L (light_type_id type) = light_fn_of type" and "maxLights L = 8" and "led_type type"
    and "led_request_run (request_of (type, st)) \<Lambda> = Some (rc, \<Lambda>')"
  shows "setLightState L (light_type_id type) st \<Lambda> = Some (LightOk, \<Lambda>')"
proof -
  obtain dev where dev: "light_fn_of type = Some dev" "set_light dev True (legacyState st) \<Lambda> = Some (rc, \<Lambda>')" "light_type_id type < 8"
    using assms(3,4) unfolding led_type_def request_of_def by fastforce
  then show ?thesis
    using assms(1,2) perform_zero [OF assms(4)] by (simp add: setLightState_def set_light_of_def light_status_of_def ENOSYS_def)
qed

lemma client_calls_requests:
  assumes "\<And>type. led_type type \<Longrightarrow> mLights L (light_type_id type) = light_fn_of type" and "maxLights L = 8"
    and "list_all (\<lambda>(type, st). led_type type) cs" and "led_requests (map request_of cs) \<Lambda> = Some \<Lambda>'"
  shows "client_calls L cs \<Lambda> = Some (replicate (length cs) LightOk, \<Lambda>')"
  using assms(3,4)
proof (induction cs arbitrary: \<Lambda>)
  case Nil
  then show ?case by simp
next
  case (Cons c cs)
  obtain type st where c: "c = (type, st)" by (cases c)
  obtain rc \<Lambda>1 where 1: "led_request_run (request_of c) \<Lambda> = Some (rc, \<Lambda>1)" "led_requests (map request_of cs) \<Lambda>1 = Some \<Lambda>'"
    using Cons.prems(2) by (cases "led_request_run (request_of c) \<Lambda>") auto
  have type: "led_type type" using Cons.prems(1) c by simp
  have "setLightState L (light_type_id type) st \<Lambda> = Some (LightOk, \<Lambda>1)"
    using perform_setLightState [OF assms(1) [OF type] assms(2) type] 1(1) c by simp
  then show ?case using Cons.IH [OF _ 1(2)] Cons.prems(1) by (simp add: c)
qed


lemma faultless_clients: "list_all (\<lambda>(type, st). led_type type \<and> hw_flashMode st \<noteq> LIGHT_FLASH_HARDWARE) [(NOTIFICATIONS, hw_blink), (BATTERY, hw_off)]"
  "[(NOTIFICATIONS, hw_blink), (BATTERY, hw_off)] \<noteq> []"
  by (simp_all add: led_type_def hw_blink_def hw_off_def LIGHT_FLASH_HARDWARE_def)

lemma faultless_winner: "led_winner (last_states (map request_of [(NOTIFICATIONS, hw_blink), (BATTERY, hw_off)]) s) = legacyState hw_blink"
  by (cases s) (simp add: request_of_def led_winner_def is_lit_def legacyState_def hw_off_def)

lemma faultless_red: "led_shows mx (legacyState hw_blink) \<Lambda> LED_RED \<Longrightarrow> node \<Lambda> (led_node LED_RED ''trigger'') = Some ''timer''"
  by (simp add: led_shows_def legacyState_def hw_blink_def channel_def LIGHT_FLASH_TIMED_def)


end
