(* ===== verification/Cpp_Float.thy ===== *)
theory Cpp_Float
  imports Cpp_Arith Decimal
begin

text \<open>
  Single precision numbers of C++, as the vibrator service receives and computes them: a number received may be infinite or not a number, and
  then fails every comparison; a computation on finite numbers is the exact one followed by rounding to 24 bits.
  Conversions to integers are \<open>None\<close> where C++ leaves them undefined. Printing is that of an output stream with precision 1.
\<close>

section \<open>Numbers received\<close>

datatype flt = Num rat | Infinite bool | NaN

fun flt_less :: "flt \<Rightarrow> rat \<Rightarrow> bool" where
  "flt_less (Num x) c \<longleftrightarrow> x < c"
| "flt_less (Infinite positive) c \<longleftrightarrow> \<not> positive"
| "flt_less NaN c \<longleftrightarrow> False"

fun flt_greater :: "flt \<Rightarrow> rat \<Rightarrow> bool" where
  "flt_greater (Num x) c \<longleftrightarrow> c < x"
| "flt_greater (Infinite positive) c \<longleftrightarrow> positive"
| "flt_greater NaN c \<longleftrightarrow> False"

fun flt_num :: "flt \<Rightarrow> rat option" where
  "flt_num (Num x) = Some x"
| "flt_num _ = None"

lemma flt_between: "\<not> flt_less x a \<Longrightarrow> \<not> flt_greater x b \<Longrightarrow> x = NaN \<or> (\<exists>r. x = Num r \<and> a \<le> r \<and> r \<le> b)"
  by (cases x) auto

section \<open>Rounding\<close>

definition fl32 :: "rat \<Rightarrow> rat" where
  "fl32 x =
     (if x = 0 then 0
      else let e = max (leading \<bar>x\<bar> - 23) (-149) in of_int (round_even (x / 2 powi e)) * 2 powi e)"

text \<open>\<open>std::round\<close> and \<open>std::lround\<close>: to the nearest integer, halves away from zero.\<close>

definition round_away :: "rat \<Rightarrow> int" where
  "round_away x = (if 0 \<le> x then \<lfloor>x + 1 / 2\<rfloor> else - \<lfloor>1 / 2 - x\<rfloor>)"

definition cast_u8 :: "int \<Rightarrow> int option" where
  "cast_u8 n = (if 0 \<le> n \<and> n < 2 ^ 8 then Some n else None)"

definition cast_u32 :: "int \<Rightarrow> int option" where
  "cast_u32 n = (if 0 \<le> n \<and> n < 2 ^ 32 then Some n else None)"

lemma round_away_near: "\<bar>of_int (round_away x) - x\<bar> \<le> 1 / 2"
proof (cases "0 \<le> x")
  case True
  have "of_int \<lfloor>x + 1 / 2\<rfloor> \<le> x + 1 / 2" "x + 1 / 2 < of_int \<lfloor>x + 1 / 2\<rfloor> + 1" by linarith+
  then have "\<bar>of_int \<lfloor>x + 1 / 2\<rfloor> - x\<bar> \<le> 1 / 2" by linarith
  then show ?thesis using True by (simp add: round_away_def)
next
  case False
  have "of_int \<lfloor>1 / 2 - x\<rfloor> \<le> 1 / 2 - x" "1 / 2 - x < of_int \<lfloor>1 / 2 - x\<rfloor> + 1" by linarith+
  then have "\<bar>- of_int \<lfloor>1 / 2 - x\<rfloor> - x\<bar> \<le> 1 / 2" by linarith
  then show ?thesis using False by (simp add: round_away_def)
qed

lemma round_away_int [simp]: "round_away (of_int n) = n"
proof -
  have "\<lfloor>of_int n + 1 / 2 :: rat\<rfloor> = n" "\<lfloor>1 / 2 - of_int n :: rat\<rfloor> = - n"
    by (simp_all add: floor_eq_iff)
  then show ?thesis by (simp add: round_away_def)
qed

lemma fl32_near: "\<bar>fl32 x - x\<bar> \<le> \<bar>x\<bar> / 2 ^ 24 + 1 / 2 ^ 150"
  using rounded_near [of x "max (leading \<bar>x\<bar> - 23) (-149)" 23 149] by (simp add: fl32_def Let_def)

lemma fl32_int:
  assumes "\<bar>n\<bar> < 2 ^ 24"
  shows "fl32 (of_int n) = of_int n"
proof (cases "n = 0")
  case False
  define e where "e = leading \<bar>of_int n\<bar> - 23"
  have "leading \<bar>of_int n\<bar> = bitlen \<bar>n\<bar> - 1" using leading_int [of "\<bar>n\<bar>"] False by simp
  moreover have "bitlen \<bar>n\<bar> \<le> 24" using bitlen_le_iff_power [of "\<bar>n\<bar>" 24] assms by simp
  moreover have "0 < bitlen \<bar>n\<bar>" using False bitlen_ge_iff_power [of 1 "\<bar>n\<bar>"] by auto
  ultimately have e: "e \<le> 0" "- 23 \<le> e" by (simp_all add: e_def)
  define p where "p = (2 :: int) ^ nat (- e)"
  have "(2 :: rat) powi e = inverse (2 powi (- e))" by (simp add: power_int_minus)
  also have "2 powi (- e) = (of_int p :: rat)" using e(1) by (simp add: power_int_def p_def)
  finally have q: "(2 :: rat) powi e = inverse (of_int p)" .
  have "of_int p \<noteq> (0 :: rat)" by (simp add: p_def)
  then have "of_int (round_even (of_int n / 2 powi e)) * 2 powi e = (of_int n :: rat)"
    unfolding q using round_even_int [of "n * p"] by (simp add: field_simps)
  moreover have "max e (-149) = e" using e(2) by simp
  ultimately show ?thesis using False by (simp add: fl32_def e_def Let_def)
qed (simp add: fl32_def)

section \<open>Printing with precision 1\<close>

text \<open>
  The digit and the exponent of a positive number below 10 rounded to one digit; the fuel is the number of times
  it is scaled by ten, and 50 suffices for the smallest single.
\<close>

fun one_digit :: "nat \<Rightarrow> nat \<Rightarrow> rat \<Rightarrow> nat \<times> nat" where
  "one_digit 0 e x = (nat (round_even x), e)"
| "one_digit (Suc n) e x =
     (if 1 \<le> x then (if round_even x = 10 then (1, e - 1) else (nat (round_even x), e))
      else one_digit n (e + 1) (10 * x))"

definition print_precision1 :: "rat \<Rightarrow> string" where
  "print_precision1 x =
     (if x = 0 then ''0''
      else let (d, e) = one_digit 50 0 x in
        if e = 0 then decimal (int d)
        else if e \<le> 4 then ''0.'' @ replicate (e - 1) CHR ''0'' @ decimal (int d)
        else decimal (int d) @ ''e-'' @ (if e < 10 then ''0'' else []) @ decimal (int e))"

end
