(* ===== verification/Vib_Hw.thy ===== *)
theory Vib_Hw
  imports Cpp_Float Gpt_Bytes
begin

text \<open>
  The hardware layer of the vibrator service: the streams on the driver's nodes (\<open>HardwareBase.h\<close>, \<open>Hardware.h\<close>) with their failure bits,
  the calibration data read from the TA partition (\<open>HardwareBase.cpp\<close>) and the parsing of it (\<open>utils.h\<close>). Whether a call of a
  driver succeeds is a function of the number of calls so far.
\<close>

section \<open>Nodes\<close>

datatype node =
  mF0 | mF0Offset_node | mRedc_node | mQ | mActivate | mDuration | mState | mEffectDuration | mEffectIndex | mEffectQueue | mEffectScale |
  mGlobalScale | mAspEnable | mGpioFallIndex | mGpioFallScale | mGpioRiseIndex | mGpioRiseScale | mVibeState | mEffectCount |
  mClabEnable | mAvailablePwleSegments | mPwle | mPwleRampDown

definition hw_files :: "(string \<times> node) list" where
  "hw_files =
     [(''device/f0_stored'', mF0), (''device/f0_offset'', mF0Offset_node), (''device/redc_stored'', mRedc_node), (''device/q_stored'', mQ),
      (''activate'', mActivate), (''duration'', mDuration), (''state'', mState), (''device/cp_trigger_duration'', mEffectDuration),
      (''device/cp_trigger_index'', mEffectIndex), (''device/cp_trigger_queue'', mEffectQueue), (''device/cp_dig_scale'', mEffectScale),
      (''device/dig_scale'', mGlobalScale), (''device/asp_enable'', mAspEnable), (''device/gpio1_fall_index'', mGpioFallIndex),
      (''device/gpio1_fall_dig_scale'', mGpioFallScale), (''device/gpio1_rise_index'', mGpioRiseIndex),
      (''device/gpio1_rise_dig_scale'', mGpioRiseScale), (''device/vibe_state'', mVibeState), (''device/num_waves'', mEffectCount),
      (''device/clab_enable'', mClabEnable), (''device/available_pwle_segments'', mAvailablePwleSegments), (''device/pwle'', mPwle),
      (''device/pwle_ramp_down'', mPwleRampDown)]"

text \<open>What reading a number from a node gives: the number, text that is none (0 is stored), or nothing (the variable is left alone).\<close>

datatype reading = Got int | Malformed | Blocked

text \<open>
  A stream is good while no failure bit is set. \<open>sent\<close> is what the driver received, in order, and \<open>mRecords\<close> the last 32
  calls kept for debugging.
\<close>

record hwapi =
  good :: "node \<Rightarrow> bool"
  opened :: "node \<Rightarrow> bool"
  accepts :: "nat \<Rightarrow> node \<Rightarrow> string \<Rightarrow> bool"
  reads :: "nat \<Rightarrow> node \<Rightarrow> reading"
  accesses :: nat
  sent :: "(node \<times> string) list"
  mRecords :: "(node \<times> string) option list"

definition RECORDS_SIZE :: nat where "RECORDS_SIZE = 32"

definition open_hw :: "(string \<Rightarrow> bool) \<Rightarrow> string \<times> node \<Rightarrow> hwapi \<Rightarrow> hwapi" where
  "open_hw there = (\<lambda>(name, nd) h. h\<lparr>good := (good h)(nd := there name), opened := (opened h)(nd := there name)\<rparr>)"

definition new_HwApi :: "(string \<Rightarrow> bool) \<Rightarrow> (nat \<Rightarrow> node \<Rightarrow> string \<Rightarrow> bool) \<Rightarrow> (nat \<Rightarrow> node \<Rightarrow> reading) \<Rightarrow> hwapi" where
  "new_HwApi there acc rd =
     fold (open_hw there) hw_files
       \<lparr>good = \<lambda>_. True, opened = \<lambda>_. False, accepts = acc, reads = rd, accesses = 0, sent = [], mRecords = replicate RECORDS_SIZE None\<rparr>"

definition hw_record :: "node \<Rightarrow> string \<Rightarrow> hwapi \<Rightarrow> hwapi" where
  "hw_record nd value h = h\<lparr>mRecords := tl (mRecords h @ [Some (nd, value)])\<rparr>"

definition has :: "node \<Rightarrow> hwapi \<Rightarrow> bool" where
  "has nd h = good h nd"

text \<open>A write to a stream with a failure bit, or without a file, does nothing but fail; a failed write clears the bits.\<close>

definition set_node :: "node \<Rightarrow> string \<Rightarrow> hwapi \<Rightarrow> bool \<times> hwapi" where
  "set_node nd value h =
     (let ret = (good h nd \<and> opened h nd \<and> accepts h (accesses h) nd value);
          h = h\<lparr>accesses := accesses h + 1, sent := (if ret then sent h @ [(nd, value)] else sent h)\<rparr>;
          h = (if \<not> ret then h\<lparr>good := (good h)(nd := True)\<rparr> else h) in
      (ret, hw_record nd value h))"

text \<open>Reading clears the bits in every case; the second component is the value stored, if any.\<close>

definition get_node :: "node \<Rightarrow> hwapi \<Rightarrow> bool \<times> int option \<times> hwapi" where
  "get_node nd h =
     (let r = (if good h nd \<and> opened h nd then reads h (accesses h) nd else Blocked);
          (ret, value) = (case r of Got v \<Rightarrow> (True, Some v) | Malformed \<Rightarrow> (False, Some 0) | Blocked \<Rightarrow> (False, None));
          h = h\<lparr>accesses := accesses h + 1, good := (good h)(nd := True)\<rparr> in
      (ret, value, hw_record nd (case value of None \<Rightarrow> [] | Some v \<Rightarrow> decimal v) h))"

text \<open>
  Polling: each round reads the node and, where it holds another value, waits. The list gives the results of reading and waiting;
  \<open>None\<close> stands for still waiting at its end.
\<close>

fun poll_rounds :: "int \<Rightarrow> (reading \<times> int) list \<Rightarrow> bool option" where
  "poll_rounds value [] = None"
| "poll_rounds value ((r, epollRet) # rounds) =
     (case r of
        Got actual \<Rightarrow> if actual = value then Some True else if epollRet \<le> 0 then Some False else poll_rounds value rounds
      | _ \<Rightarrow> Some False)"

definition poll_node :: "int \<Rightarrow> int \<Rightarrow> bool \<Rightarrow> (reading \<times> int) list \<Rightarrow> bool option" where
  "poll_node value timeoutMs epoll_ok rounds =
     (if timeoutMs < -1 then Some False else if \<not> epoll_ok then Some False else poll_rounds value rounds)"

definition bool_text :: "bool \<Rightarrow> string" where
  "bool_text b = (if b then ''1'' else ''0'')"

section \<open>Reading numbers\<close>

definition is_space :: "char \<Rightarrow> bool" where
  "is_space c \<longleftrightarrow> c = CHR '' '' \<or> c = CHR 0x09 \<or> c = CHR 0x0A \<or> c = CHR 0x0B \<or> c = CHR 0x0C \<or> c = CHR 0x0D"

text \<open>\<open>stream >> value\<close> for an unsigned 32 bit number: white space, a sign, digits; a minus sign negates modulo \<open>2 ^ 32\<close>.\<close>

definition read_u32 :: "string \<Rightarrow> (int \<times> string) option" where
  "read_u32 s =
     (let s = dropWhile is_space s;
          (neg, s) = (case s of c # t \<Rightarrow> if c = CHR ''-'' then (True, t) else if c = CHR ''+'' then (False, t) else (False, s) | [] \<Rightarrow> (False, []));
          ds = takeWhile is_digit s;
          n = int (undigits ds) in
      if ds = [] \<or> 2 ^ 32 \<le> n then None
      else Some (to_u32 (if neg then - n else n), dropWhile is_digit s))"

fun unpack :: "nat \<Rightarrow> string \<Rightarrow> (int list \<times> string) option" where
  "unpack 0 s = Some ([], s)"
| "unpack (Suc n) s = do { (v, s) \<leftarrow> read_u32 s; (vs, s) \<leftarrow> unpack n s; Some (v # vs, s) }"

definition blank :: "char \<Rightarrow> bool" where
  "blank c \<longleftrightarrow> c = CHR '' '' \<or> c = CHR 0x09"

definition trim :: "string \<Rightarrow> string" where
  "trim str = rev (dropWhile blank (rev (dropWhile blank str)))"

section \<open>Calibration\<close>

record hwcal =
  mCalData :: "string \<rightharpoonup> string"
  prop_int :: "string \<Rightarrow> int option"
  prop_float :: "string \<Rightarrow> rat option"
  prop_bool :: "string \<Rightarrow> bool option"

definition getPersist :: "nat \<Rightarrow> string \<Rightarrow> hwcal \<Rightarrow> int list option" where
  "getPersist n key K =
     (case mCalData K key of
        None \<Rightarrow> None
      | Some s \<Rightarrow> (case unpack n s of None \<Rightarrow> None | Some (vs, rest) \<Rightarrow> if rest = [] then Some vs else None))"

text \<open>The properties are read under their bare keys: \<open>mPropertyPrefix\<close> is never set.\<close>

definition mPropertyPrefix :: string where "mPropertyPrefix = ''''"

definition getProperty_int :: "string \<Rightarrow> int \<Rightarrow> hwcal \<Rightarrow> int" where
  "getProperty_int key defval K = (case prop_int K (mPropertyPrefix @ key) of None \<Rightarrow> defval | Some v \<Rightarrow> v)"

definition getProperty_bool :: "string \<Rightarrow> bool \<Rightarrow> hwcal \<Rightarrow> bool" where
  "getProperty_bool key defval K = (case prop_bool K (mPropertyPrefix @ key) of None \<Rightarrow> defval | Some v \<Rightarrow> v)"

text \<open>Properties that do not parse to a finite number are not given by \<open>prop_float\<close>.\<close>

definition getProperty_float :: "string \<Rightarrow> rat \<Rightarrow> hwcal \<Rightarrow> rat" where
  "getProperty_float key defval K = (case prop_float K (mPropertyPrefix @ key) of None \<Rightarrow> defval | Some v \<Rightarrow> v)"

definition Q_INDEX_TO_FIXED :: int where "Q_INDEX_TO_FIXED = 98304"
definition Q_INDEX_OFFSET :: int where "Q_INDEX_OFFSET = 131072"
definition Q_DEFAULT :: int where "Q_DEFAULT = 1015808"

definition getVersion :: "hwcal \<Rightarrow> int" where
  "getVersion K = (case getPersist 1 ''version'' K of Some [v] \<Rightarrow> v | _ \<Rightarrow> 1)"

definition getF0 :: "hwcal \<Rightarrow> int option" where
  "getF0 K = map_option hd (getPersist 1 ''f0_measured'' K)"

definition getRedc :: "hwcal \<Rightarrow> int option" where
  "getRedc K = map_option hd (getPersist 1 ''redc_measured'' K)"

definition getQ :: "hwcal \<Rightarrow> int" where
  "getQ K =
     (case getPersist 1 ''q_measured'' K of
        Some vs \<Rightarrow> hd vs
      | None \<Rightarrow> (case getPersist 1 ''q_index'' K of Some vs \<Rightarrow> to_u32 (hd vs * Q_INDEX_TO_FIXED + Q_INDEX_OFFSET) | None \<Rightarrow> Q_DEFAULT))"

definition getVolLevels :: "hwcal \<Rightarrow> int list" where
  "getVolLevels K = (case getPersist 6 ''v_levels'' K of Some vs \<Rightarrow> vs | None \<Rightarrow> [60, 70, 80, 90, 100, 100])"

definition pair_levels :: "string \<Rightarrow> hwcal \<Rightarrow> int \<times> int" where
  "pair_levels key K = (case getPersist 2 key K of Some vs \<Rightarrow> (vs ! 0, vs ! 1) | None \<Rightarrow> (10, 70))"

definition getTickVolLevels :: "hwcal \<Rightarrow> int \<times> int" where "getTickVolLevels K = pair_levels ''v_tick'' K"
definition getClickVolLevels :: "hwcal \<Rightarrow> int \<times> int" where "getClickVolLevels K = pair_levels ''v_click'' K"
definition getLongVolLevels :: "hwcal \<Rightarrow> int \<times> int" where "getLongVolLevels K = pair_levels ''v_long'' K"

definition getLongFrequencyShift :: "hwcal \<Rightarrow> int" where
  "getLongFrequencyShift K = getProperty_int ''long.frequency.shift'' 0 K"

definition getDeviceMass :: "hwcal \<Rightarrow> rat" where
  "getDeviceMass K = getProperty_float ''device.mass'' (fl32 (21 / 100)) K"

definition getLocCoeff :: "hwcal \<Rightarrow> rat" where
  "getLocCoeff K = getProperty_float ''loc.coeff'' (1 / 2) K"

definition isChirpEnabled :: "hwcal \<Rightarrow> bool" where
  "isChirpEnabled K = getProperty_bool ''chirp.enabled'' False K"

section \<open>The TA partition\<close>

text \<open>
  \<open>libmiscta\<close> is a library: the size of a unit and its content are functions, \<open>None\<close> for an error. The buffer is the array of
  six integers of the caller, 24 bytes; a unit that does not fit is written past its end, which is \<open>None\<close>.
\<close>

record miscta =
  unit_size :: "nat \<Rightarrow> nat option"
  unit_data :: "nat \<Rightarrow> byte list option"

definition read_unit :: "miscta \<Rightarrow> nat \<Rightarrow> nat \<Rightarrow> byte list \<Rightarrow> (bool \<times> byte list) option" where
  "read_unit ta unit off dat =
     (case unit_size ta unit of
        None \<Rightarrow> Some (False, dat)
      | Some ta_sz \<Rightarrow>
          (case unit_data ta unit of
             None \<Rightarrow> Some (False, dat)
           | Some bs \<Rightarrow> if off + ta_sz \<le> length dat then Some (True, overwrite off (take ta_sz bs) dat) else None))"

definition cirrusMiscTaRead :: "miscta \<Rightarrow> byte list \<Rightarrow> (bool \<times> byte list) option" where
  "cirrusMiscTaRead ta a1 = do {
     (ok, a1) \<leftarrow> read_unit ta 4730 0 a1;
     if \<not> ok then Some (False, a1)
     else do {
       (ok, a1) \<leftarrow> read_unit ta 4731 8 a1;
       if \<not> ok then Some (False, a1)
       else do {
         (ok, a1) \<leftarrow> read_unit ta 4732 16 a1;
         if \<not> ok then Some (False, a1)
         else read_unit ta 4733 20 a1
       }
     }
   }"

definition dat_int :: "byte list \<Rightarrow> nat \<Rightarrow> int" where
  "dat_int dat k = sint (le32 dat (4 * k))"

text \<open>The constructor; \<open>lib\<close> is the library if both of its symbols were found, and \<open>dat\<close> the indeterminate content of the array.\<close>

definition new_HwCal :: "miscta option \<Rightarrow> byte list \<Rightarrow> hwcal \<Rightarrow> hwcal option" where
  "new_HwCal lib dat K =
     (case lib of
        None \<Rightarrow> Some K
      | Some ta \<Rightarrow> do {
          (ok, dat) \<leftarrow> cirrusMiscTaRead ta dat;
          if ok then
            let f0_measured = decimal (dat_int dat 5);
                redc_measured = decimal (dat_int dat 4) in
            Some (K\<lparr>mCalData := (mCalData K)(trim ''f0_measured'' \<mapsto> trim f0_measured, trim ''redc_measured'' \<mapsto> trim redc_measured)\<rparr>)
          else Some K
        })"

end
