(* ===== verification/Vibrator.thy ===== *)
theory Vibrator
  imports Vib_Hw
begin

text \<open>
  The vibrator service (\<open>Vibrator.cpp\<close>): its state, and one definition per operation. An operation returns its status and the new state, or
  \<open>None\<close> where the C++ code has undefined behaviour (an index out of range, signed overflow, a conversion out of range) or an unspecified
  result. \<open>log10\<close> is an argument \<open>lg\<close>, on positive singles.
\<close>

section \<open>State\<close>

datatype Effect = E_CLICK | E_DOUBLE_CLICK | E_TICK | E_THUD | E_POP | E_HEAVY_CLICK | E_RINGTONE nat | E_TEXTURE_TICK

datatype EffectStrength = LIGHT | MEDIUM | STRONG | OtherStrength int

datatype CompositePrimitive =
  NOOP | P_CLICK | P_THUD | P_SPIN | P_QUICK_RISE | P_SLOW_RISE | P_QUICK_FALL | P_LIGHT_TICK | P_LOW_TICK | OtherPrimitive int

record CompositeEffect =
  delayMs :: int
  primitive :: CompositePrimitive
  scale :: flt

datatype vstatus = VOk | IllegalArgument | IllegalState | Unsupported

text \<open>A callback is given by a number, \<open>None\<close> for a null pointer. Sound devices are numbered in the order they are opened.\<close>

type_synonym callback = "nat option"

datatype pcm_event = PcmOpen nat | PcmClose nat

text \<open>
  \<open>mAsyncHandle\<close> holds the callback of a vibration that has not completed, \<open>completed\<close> the callbacks made, \<open>pcm_log\<close> the sound devices
  opened and closed; \<open>proc_pcm\<close> are the lines of \<open>/proc/asound/pcm\<close> and \<open>pcm_starts\<close> tells whether the n-th device opened can
  be started. \<open>mBandwidthAmplitudeMap\<close> is \<open>None\<close> where its computation left the range of single precision.
\<close>

record vibrator =
  mHwApi :: hwapi
  mHwCal :: hwcal
  mF0Offset :: int
  mTickEffectVol :: "int \<times> int"
  mClickEffectVol :: "int \<times> int"
  mLongEffectVol :: "int \<times> int"
  mEffectDurations :: "int list"
  mAsyncHandle :: "callback option"
  mCompositionSizeMax :: int
  mHapticPcm :: "nat option"
  mCard :: int
  mDevice :: int
  mHasHapticAlsaDevice :: bool
  mIsUnderExternalControl :: bool
  mResonantFrequency :: rat
  mRedc :: int
  mActiveId :: int
  mIsChirpEnabled :: bool
  mBandwidthAmplitudeMap :: "rat list option"
  mGenerateBandwidthAmplitudeMapDone :: bool
  configHapticAlsaDeviceDone :: bool
  pwleMaxLevelLimitMap :: "rat list"
  completed :: "nat list"
  pcm_log :: "pcm_event list"
  pcm_count :: nat
  proc_pcm :: "string list option"
  pcm_starts :: "nat \<Rightarrow> bool"

definition BASE_CONTINUOUS_EFFECT_OFFSET :: int where "BASE_CONTINUOUS_EFFECT_OFFSET = 32768"
definition WAVEFORM_EFFECT_LEVEL_MINIMUM :: int where "WAVEFORM_EFFECT_LEVEL_MINIMUM = 4"
definition WAVEFORM_DOUBLE_CLICK_SILENCE_MS :: int where "WAVEFORM_DOUBLE_CLICK_SILENCE_MS = 100"
definition WAVEFORM_LONG_VIBRATION_EFFECT_INDEX :: int where "WAVEFORM_LONG_VIBRATION_EFFECT_INDEX = 0"
definition WAVEFORM_CLICK_INDEX :: int where "WAVEFORM_CLICK_INDEX = 2"
definition WAVEFORM_THUD_INDEX :: int where "WAVEFORM_THUD_INDEX = 4"
definition WAVEFORM_SPIN_INDEX :: int where "WAVEFORM_SPIN_INDEX = 5"
definition WAVEFORM_QUICK_RISE_INDEX :: int where "WAVEFORM_QUICK_RISE_INDEX = 6"
definition WAVEFORM_SLOW_RISE_INDEX :: int where "WAVEFORM_SLOW_RISE_INDEX = 7"
definition WAVEFORM_QUICK_FALL_INDEX :: int where "WAVEFORM_QUICK_FALL_INDEX = 8"
definition WAVEFORM_LIGHT_TICK_INDEX :: int where "WAVEFORM_LIGHT_TICK_INDEX = 9"
definition WAVEFORM_LOW_TICK_INDEX :: int where "WAVEFORM_LOW_TICK_INDEX = 10"
definition WAVEFORM_CUSTOM_TICK_INDEX_1 :: int where "WAVEFORM_CUSTOM_TICK_INDEX_1 = 11"
definition WAVEFORM_CUSTOM_TICK_INDEX_2 :: int where "WAVEFORM_CUSTOM_TICK_INDEX_2 = 12"
definition WAVEFORM_CUSTOM_TICK_INDEX_3 :: int where "WAVEFORM_CUSTOM_TICK_INDEX_3 = 13"
definition WAVEFORM_UNSAVED_TRIGGER_QUEUE_INDEX :: int where "WAVEFORM_UNSAVED_TRIGGER_QUEUE_INDEX = 65529"
definition WAVEFORM_TRIGGER_QUEUE_INDEX :: int where "WAVEFORM_TRIGGER_QUEUE_INDEX = 65534"
definition VOLTAGE_SCALE_MAX :: int where "VOLTAGE_SCALE_MAX = 100"
definition MAX_COLD_START_LATENCY_MS :: int where "MAX_COLD_START_LATENCY_MS = 6"
definition MAX_PAUSE_TIMING_ERROR_MS :: int where "MAX_PAUSE_TIMING_ERROR_MS = 1"
definition MAX_TIME_MS :: int where "MAX_TIME_MS = 4294967295"
definition COMPOSE_DELAY_MAX_MS :: int where "COMPOSE_DELAY_MAX_MS = 10000"
definition COMPOSE_SIZE_MAX :: nat where "COMPOSE_SIZE_MAX = 127"
definition COMPOSE_PWLE_SIZE_LIMIT :: int where "COMPOSE_PWLE_SIZE_LIMIT = 82"

section \<open>Writing and reading nodes\<close>

definition put :: "node \<Rightarrow> string \<Rightarrow> vibrator \<Rightarrow> bool \<times> vibrator" where
  "put nd value V = (let (ret, h) = set_node nd value (mHwApi V) in (ret, V\<lparr>mHwApi := h\<rparr>))"

definition put_ignored :: "node \<Rightarrow> string \<Rightarrow> vibrator \<Rightarrow> vibrator" where
  "put_ignored nd value V = snd (put nd value V)"

definition fetch :: "node \<Rightarrow> vibrator \<Rightarrow> bool \<times> int option \<times> vibrator" where
  "fetch nd V = (let (ret, value, h) = get_node nd (mHwApi V) in (ret, value, V\<lparr>mHwApi := h\<rparr>))"

section \<open>Amplitudes\<close>

definition amplitudeToScale :: "(rat \<Rightarrow> rat) \<Rightarrow> rat \<Rightarrow> rat \<Rightarrow> int option" where
  "amplitudeToScale lg amplitude maximum =
     (let q = fl32 (amplitude / maximum) in
      if q \<le> 0 then None else cast_u8 (round_away (fl32 (fl32 (-20 * lg q) / (1 / 8)))))"

definition setEffectAmplitude :: "(rat \<Rightarrow> rat) \<Rightarrow> rat \<Rightarrow> rat \<Rightarrow> vibrator \<Rightarrow> (vstatus \<times> vibrator) option" where
  "setEffectAmplitude lg amplitude maximum V = do {
     scale \<leftarrow> amplitudeToScale lg amplitude maximum;
     let (ok, V) = put mEffectScale (decimal scale) V;
     Some (if ok then VOk else IllegalState, V)
   }"

definition setGlobalAmplitude :: "(rat \<Rightarrow> rat) \<Rightarrow> bool \<Rightarrow> vibrator \<Rightarrow> (vstatus \<times> vibrator) option" where
  "setGlobalAmplitude lg on V = do {
     let amplitude = (if on then snd (mLongEffectVol V) mod 2 ^ 8 else VOLTAGE_SCALE_MAX);
     scale \<leftarrow> amplitudeToScale lg (of_int amplitude) (of_int VOLTAGE_SCALE_MAX);
     let (ok, V) = put mGlobalScale (decimal scale) V;
     Some (if ok then VOk else IllegalState, V)
   }"

definition setAmplitude :: "(rat \<Rightarrow> rat) \<Rightarrow> flt \<Rightarrow> vibrator \<Rightarrow> (vstatus \<times> vibrator) option" where
  "setAmplitude lg amplitude V =
     (if \<not> flt_greater amplitude 0 \<and> amplitude \<noteq> NaN \<or> flt_greater amplitude 1 then Some (IllegalArgument, V)
      else if \<not> mIsUnderExternalControl V then do { a \<leftarrow> flt_num amplitude; setEffectAmplitude lg a 1 V }
      else Some (Unsupported, V))"

text \<open>\<open>lround(intst * (v[1] - v[0])) + v[0]\<close>; the difference is unsigned.\<close>

definition calc_vol :: "flt \<Rightarrow> int \<times> int \<Rightarrow> int option" where
  "calc_vol intst v = do {
     i \<leftarrow> flt_num intst;
     Some (to_u32 (round_away (fl32 (i * fl32 (of_int (to_u32 (snd v - fst v))))) + fst v))
   }"

definition intensityToVolLevel :: "flt \<Rightarrow> int \<Rightarrow> vibrator \<Rightarrow> int option" where
  "intensityToVolLevel intensity effectIndex V =
     (if effectIndex = WAVEFORM_LIGHT_TICK_INDEX then calc_vol intensity (mTickEffectVol V)
      else if effectIndex = WAVEFORM_QUICK_RISE_INDEX \<or> effectIndex = WAVEFORM_QUICK_FALL_INDEX then calc_vol intensity (mLongEffectVol V)
      else calc_vol intensity (mClickEffectVol V))"

section \<open>The sound device\<close>

definition HAPTIC_PCM_DEVICE_SYMBOL :: string where
  "HAPTIC_PCM_DEVICE_SYMBOL = ''haptic nohost playback''"

fun contains :: "string \<Rightarrow> string \<Rightarrow> bool" where
  "contains pat [] \<longleftrightarrow> pat = []"
| "contains pat (c # s) \<longleftrightarrow> take (length pat) (c # s) = pat \<or> contains pat s"

text \<open>\<open>sscanf("%d")\<close>: white space, a sign, digits; the number must be an \<open>int\<close>.\<close>

definition scan_int :: "string \<Rightarrow> (int \<times> string) option" where
  "scan_int s =
     (let s = dropWhile is_space s;
          (neg, s) = (case s of c # t \<Rightarrow> if c = CHR ''-'' then (True, t) else if c = CHR ''+'' then (False, t) else (False, s) | [] \<Rightarrow> (False, []));
          ds = takeWhile is_digit s;
          n = int (undigits ds) in
      if ds = [] \<or> ck32 (if neg then - n else n) = None then None
      else Some (if neg then - n else n, dropWhile is_digit s))"

definition scan_card_device :: "string \<Rightarrow> int \<times> int \<Rightarrow> int \<times> int" where
  "scan_card_device s old =
     (case scan_int s of
        None \<Rightarrow> old
      | Some (crd, t) \<Rightarrow>
          (case t of
             [] \<Rightarrow> (crd, snd old)
           | c # t \<Rightarrow> if c \<noteq> CHR ''-'' then (crd, snd old)
               else (case scan_int t of None \<Rightarrow> (crd, snd old) | Some (device, _) \<Rightarrow> (crd, device))))"

fun findHapticAlsaDevice :: "string list \<Rightarrow> int \<times> int \<Rightarrow> (int \<times> int) option" where
  "findHapticAlsaDevice [] old = None"
| "findHapticAlsaDevice (line # lines) old =
     (if contains HAPTIC_PCM_DEVICE_SYMBOL line then Some (scan_card_device (takeWhile (\<lambda>c. c \<noteq> CHR '':'') line) old)
      else findHapticAlsaDevice lines old)"

definition hasHapticAlsaDevice :: "vibrator \<Rightarrow> bool \<times> vibrator" where
  "hasHapticAlsaDevice V =
     (let V = (if \<not> configHapticAlsaDeviceDone V then
                 (case proc_pcm V of
                    None \<Rightarrow> V
                  | Some lines \<Rightarrow>
                      (case findHapticAlsaDevice lines (mCard V, mDevice V) of
                         None \<Rightarrow> V
                       | Some (crd, device) \<Rightarrow>
                           V\<lparr>mCard := crd, mDevice := device, mHasHapticAlsaDevice := True, configHapticAlsaDeviceDone := True\<rparr>))
               else V) in
      (mHasHapticAlsaDevice V, V))"

definition pcm_close :: "vibrator \<Rightarrow> vibrator" where
  "pcm_close V =
     (case mHapticPcm V of
        None \<Rightarrow> V
      | Some p \<Rightarrow> V\<lparr>pcm_log := pcm_log V @ [PcmClose p], mHapticPcm := None\<rparr>)"

definition enableHapticPcmAmp :: "bool \<Rightarrow> vibrator \<Rightarrow> bool \<times> vibrator" where
  "enableHapticPcmAmp enable V =
     (if enable then
        let p = pcm_count V;
            V = V\<lparr>mHapticPcm := Some p, pcm_count := p + 1, pcm_log := pcm_log V @ [PcmOpen p]\<rparr> in
        if pcm_starts V p then (True, V) else (False, pcm_close V)
      else (True, pcm_close V))"

text \<open>The part of \<open>setExternalControl\<close> that drives the device, run once or, to restart, twice.\<close>

definition drive_external :: "bool \<Rightarrow> vibrator \<Rightarrow> bool \<times> vibrator" where
  "drive_external enabled V =
     (let (ok, V) = (if mHasHapticAlsaDevice V then enableHapticPcmAmp enabled V else (True, V)) in
      if \<not> ok then (False, V)
      else if has mAspEnable (mHwApi V) then put mAspEnable (bool_text enabled) V else (True, V))"

definition setExternalControl :: "(rat \<Rightarrow> rat) \<Rightarrow> bool \<Rightarrow> vibrator \<Rightarrow> (vstatus \<times> vibrator) option" where
  "setExternalControl lg enabled V = do {
     (_, V) \<leftarrow> setGlobalAmplitude lg enabled V;
     if mIsUnderExternalControl V = enabled \<and> \<not> enabled then Some (VOk, V)
     else
       let (ok, V) = (if mIsUnderExternalControl V = enabled then drive_external (\<not> enabled) V else (True, V)) in
       if \<not> ok then Some (IllegalState, V)
       else
         let (ok, V) = drive_external enabled V in
         if \<not> ok then Some (IllegalState, V) else Some (VOk, V\<lparr>mIsUnderExternalControl := enabled\<rparr>)
   }"

section \<open>Vibrations\<close>

text \<open>
  The end of the thread of a vibration: the driver has reported that it stopped. The polling before (\<open>poll_node\<close>) reads a node nothing else uses; it is
  left out of the record of accesses.
\<close>

definition waitForComplete :: "vibrator \<Rightarrow> vibrator" where
  "waitForComplete V =
     (case mAsyncHandle V of
        None \<Rightarrow> V
      | Some callback \<Rightarrow>
          let V = put_ignored mActivate (bool_text False) V in
          V\<lparr>completed := completed V @ (case callback of None \<Rightarrow> [] | Some c \<Rightarrow> [c]), mAsyncHandle := None\<rparr>)"

text \<open>\<open>in_time\<close> tells whether a vibration that is pending completes within the 100 ms it is waited for.\<close>

definition on_index :: "(rat \<Rightarrow> rat) \<Rightarrow> bool \<Rightarrow> int \<Rightarrow> int \<Rightarrow> callback \<Rightarrow> vibrator \<Rightarrow> (vstatus \<times> vibrator) option" where
  "on_index lg in_time timeoutMs effectIndex callback V = do {
     V \<leftarrow> (if mIsUnderExternalControl V then map_option snd (setExternalControl lg False V) else Some V);
     if mAsyncHandle V \<noteq> None \<and> \<not> in_time then Some (IllegalState, V)
     else
       let V = waitForComplete V;
           V = put_ignored mEffectIndex (decimal effectIndex) V;
           V = put_ignored mDuration (decimal timeoutMs) V;
           V = put_ignored mActivate (bool_text True) V;
           V = V\<lparr>mActiveId := (effectIndex + 2 ^ 7) mod 2 ^ 8 - 2 ^ 7, mAsyncHandle := Some callback\<rparr> in
       Some (VOk, V)
   }"

definition on_ms :: "(rat \<Rightarrow> rat) \<Rightarrow> bool \<Rightarrow> int \<Rightarrow> callback \<Rightarrow> vibrator \<Rightarrow> (vstatus \<times> vibrator) option" where
  "on_ms lg in_time timeoutMs callback V = do {
     timeoutMs \<leftarrow> (if MAX_COLD_START_LATENCY_MS \<le> to_u32 (2 ^ 32 - 1 - to_u32 timeoutMs) then ck32 (timeoutMs + MAX_COLD_START_LATENCY_MS) else Some timeoutMs);
     (_, V) \<leftarrow> setGlobalAmplitude lg True V;
     let V = put_ignored mF0Offset_node (decimal (mF0Offset V)) V;
     on_index lg in_time (to_u32 timeoutMs) WAVEFORM_LONG_VIBRATION_EFFECT_INDEX callback V
   }"

definition off :: "(rat \<Rightarrow> rat) \<Rightarrow> vibrator \<Rightarrow> (vstatus \<times> vibrator) option" where
  "off lg V = do {
     (_, V) \<leftarrow> setGlobalAmplitude lg False V;
     let V = put_ignored mF0Offset_node (decimal 0) V;
     let (ok, V) = put mActivate (bool_text False) V;
     if \<not> ok then Some (IllegalState, V) else Some (VOk, V\<lparr>mActiveId := -1\<rparr>)
   }"

text \<open>\<open>mEffectDurations[effectIndex]\<close>\<close>

definition effectDuration :: "int \<Rightarrow> vibrator \<Rightarrow> int option" where
  "effectDuration effectIndex V =
     (if nat effectIndex < length (mEffectDurations V) then Some (mEffectDurations V ! nat effectIndex) else None)"

definition strength_intensity :: "EffectStrength \<Rightarrow> rat option" where
  "strength_intensity strength =
     (case strength of LIGHT \<Rightarrow> Some (1 / 2) | MEDIUM \<Rightarrow> Some (fl32 (7 / 10)) | STRONG \<Rightarrow> Some 1 | OtherStrength _ \<Rightarrow> None)"

definition simple_index :: "Effect \<Rightarrow> int option" where
  "simple_index effect =
     (case effect of
        E_TEXTURE_TICK \<Rightarrow> Some WAVEFORM_LOW_TICK_INDEX
      | E_TICK \<Rightarrow> Some WAVEFORM_LOW_TICK_INDEX
      | E_CLICK \<Rightarrow> Some WAVEFORM_CLICK_INDEX
      | E_THUD \<Rightarrow> Some WAVEFORM_CUSTOM_TICK_INDEX_1
      | E_POP \<Rightarrow> Some WAVEFORM_CUSTOM_TICK_INDEX_2
      | E_HEAVY_CLICK \<Rightarrow> Some WAVEFORM_CUSTOM_TICK_INDEX_3
      | _ \<Rightarrow> None)"

text \<open>The index, the time and the level of an effect, or the status it is refused with.\<close>

definition getSimpleDetails :: "Effect \<Rightarrow> EffectStrength \<Rightarrow> vibrator \<Rightarrow> (vstatus + int \<times> int \<times> int) option" where
  "getSimpleDetails effect strength V =
     (case strength_intensity strength of
        None \<Rightarrow> Some (Inl Unsupported)
      | Some intensity \<Rightarrow>
          (case simple_index effect of
             None \<Rightarrow> Some (Inl Unsupported)
           | Some effectIndex \<Rightarrow> do {
               volLevel \<leftarrow> intensityToVolLevel (Num intensity) effectIndex V;
               d \<leftarrow> effectDuration effectIndex V;
               Some (Inr (effectIndex, to_u32 (d + MAX_COLD_START_LATENCY_MS), volLevel))
             }))"

definition getCompoundDetails :: "Effect \<Rightarrow> EffectStrength \<Rightarrow> vibrator \<Rightarrow> (vstatus + int \<times> string) option" where
  "getCompoundDetails effect strength V =
     (if effect \<noteq> E_DOUBLE_CLICK then Some (Inl Unsupported)
      else do {
        r \<leftarrow> getSimpleDetails E_CLICK strength V;
        case r of
          Inl st \<Rightarrow> Some (Inl st)
        | Inr (thisEffectIndex, thisTimeMs, thisVolLevel) \<Rightarrow> do {
            let text = decimal thisEffectIndex @ ''.'' @ decimal thisVolLevel @ '','' @ decimal WAVEFORM_DOUBLE_CLICK_SILENCE_MS @ '','';
            let timeMs = to_u32 (thisTimeMs + WAVEFORM_DOUBLE_CLICK_SILENCE_MS + MAX_PAUSE_TIMING_ERROR_MS);
            r \<leftarrow> getSimpleDetails E_HEAVY_CLICK strength V;
            case r of
              Inl st \<Rightarrow> Some (Inl st)
            | Inr (thisEffectIndex, thisTimeMs, thisVolLevel) \<Rightarrow>
                Some (Inr (to_u32 (timeMs + thisTimeMs), text @ decimal thisEffectIndex @ ''.'' @ decimal thisVolLevel))
          }
      })"

definition getPrimitiveDetails :: "CompositePrimitive \<Rightarrow> vstatus + int" where
  "getPrimitiveDetails p =
     (case p of
        NOOP \<Rightarrow> Inl IllegalArgument
      | P_CLICK \<Rightarrow> Inr WAVEFORM_CLICK_INDEX
      | P_THUD \<Rightarrow> Inr WAVEFORM_THUD_INDEX
      | P_SPIN \<Rightarrow> Inr WAVEFORM_SPIN_INDEX
      | P_QUICK_RISE \<Rightarrow> Inr WAVEFORM_QUICK_RISE_INDEX
      | P_SLOW_RISE \<Rightarrow> Inr WAVEFORM_SLOW_RISE_INDEX
      | P_QUICK_FALL \<Rightarrow> Inr WAVEFORM_QUICK_FALL_INDEX
      | P_LIGHT_TICK \<Rightarrow> Inr WAVEFORM_LIGHT_TICK_INDEX
      | P_LOW_TICK \<Rightarrow> Inr WAVEFORM_LOW_TICK_INDEX
      | OtherPrimitive _ \<Rightarrow> Inl Unsupported)"

definition getPrimitiveDuration :: "CompositePrimitive \<Rightarrow> vibrator \<Rightarrow> (vstatus + int) option" where
  "getPrimitiveDuration p V =
     (if p \<noteq> NOOP then
        (case getPrimitiveDetails p of
           Inl st \<Rightarrow> Some (Inl st)
         | Inr effectIndex \<Rightarrow> map_option (\<lambda>d. Inr (to_s32 d)) (effectDuration effectIndex V))
      else Some (Inr 0))"

definition setEffectQueue :: "string \<Rightarrow> vibrator \<Rightarrow> vstatus \<times> vibrator" where
  "setEffectQueue effectQueue V = (let (ok, V) = put mEffectQueue effectQueue V in (if ok then VOk else IllegalState, V))"

definition perform_index :: "(rat \<Rightarrow> rat) \<Rightarrow> bool \<Rightarrow> int \<Rightarrow> int \<Rightarrow> string \<Rightarrow> callback \<Rightarrow> vibrator \<Rightarrow> (vstatus \<times> vibrator) option" where
  "perform_index lg in_time effectIndex volLevel effectQueue callback V =
     (if effectQueue \<noteq> [] then
        let (st, V) = setEffectQueue effectQueue V in
        if st \<noteq> VOk then Some (st, V)
        else do {
          (_, V) \<leftarrow> setEffectAmplitude lg (of_int VOLTAGE_SCALE_MAX) (of_int VOLTAGE_SCALE_MAX) V;
          on_index lg in_time MAX_TIME_MS WAVEFORM_TRIGGER_QUEUE_INDEX callback V
        }
      else do {
        (_, V) \<leftarrow> setEffectAmplitude lg (fl32 (of_int volLevel)) (of_int VOLTAGE_SCALE_MAX) V;
        on_index lg in_time MAX_TIME_MS effectIndex callback V
      })"

text \<open>
  The status, the time reported to the client and the state. For a double click the index and the level handed on are not initialised; they are not
  used where there is a queue.
\<close>

definition perform :: "(rat \<Rightarrow> rat) \<Rightarrow> bool \<Rightarrow> Effect \<Rightarrow> EffectStrength \<Rightarrow> callback \<Rightarrow> vibrator \<Rightarrow> (vstatus \<times> int \<times> vibrator) option" where
  "perform lg in_time effect strength callback V =
     (if simple_index effect \<noteq> None then do {
        r \<leftarrow> getSimpleDetails effect strength V;
        case r of
          Inl st \<Rightarrow> Some (st, 0, V)
        | Inr (effectIndex, timeMs, volLevel) \<Rightarrow> do {
            (st, V) \<leftarrow> perform_index lg in_time effectIndex volLevel [] callback V;
            Some (st, to_s32 timeMs, V)
          }
      }
      else if effect = E_DOUBLE_CLICK then do {
        r \<leftarrow> getCompoundDetails effect strength V;
        case r of
          Inl st \<Rightarrow> Some (st, 0, V)
        | Inr (timeMs, effectQueue) \<Rightarrow> do {
            (st, V) \<leftarrow> perform_index lg in_time 0 0 effectQueue callback V;
            Some (st, to_s32 timeMs, V)
          }
      }
      else Some (Unsupported, 0, V))"

section \<open>Composition\<close>

text \<open>The text of the queue without its end, or the status of the first effect that is refused.\<close>

fun compose_text :: "vibrator \<Rightarrow> CompositeEffect list \<Rightarrow> (vstatus + string) option" where
  "compose_text V [] = Some (Inr [])"
| "compose_text V (e # es) =
     (if flt_less (scale e) 0 \<or> flt_greater (scale e) 1 then Some (Inl IllegalArgument)
      else if delayMs e \<noteq> 0 \<and> COMPOSE_DELAY_MAX_MS < delayMs e then Some (Inl IllegalArgument)
      else do {
        let delay = (if delayMs e \<noteq> 0 then decimal (delayMs e) @ '','' else []);
        r \<leftarrow> (if primitive e \<noteq> NOOP then
                (case getPrimitiveDetails (primitive e) of
                   Inl st \<Rightarrow> Some (Inl st)
                 | Inr effectIndex \<Rightarrow> do {
                     vol \<leftarrow> intensityToVolLevel (scale e) effectIndex V;
                     Some (Inr (decimal effectIndex @ ''.'' @ decimal vol @ '',''))
                   })
              else Some (Inr []));
        case r of
          Inl st \<Rightarrow> Some (Inl st)
        | Inr part \<Rightarrow> do {
            rest \<leftarrow> compose_text V es;
            case rest of Inl st \<Rightarrow> Some (Inl st) | Inr text \<Rightarrow> Some (Inr (delay @ part @ text))
          }
      })"

definition compose :: "(rat \<Rightarrow> rat) \<Rightarrow> bool \<Rightarrow> CompositeEffect list \<Rightarrow> callback \<Rightarrow> vibrator \<Rightarrow> (vstatus \<times> vibrator) option" where
  "compose lg in_time composite callback V =
     (if COMPOSE_SIZE_MAX < length composite then Some (IllegalArgument, V)
      else do {
        r \<leftarrow> compose_text V composite;
        case r of
          Inl st \<Rightarrow> Some (st, V)
        | Inr text \<Rightarrow>
            if text = [] then Some (IllegalArgument, V)
            else perform_index lg in_time 0 0 (text @ ''0'') callback V
      })"

section \<open>Always-on effects\<close>

definition alwaysOnEnable :: "(rat \<Rightarrow> rat) \<Rightarrow> int \<Rightarrow> Effect \<Rightarrow> EffectStrength \<Rightarrow> vibrator \<Rightarrow> (vstatus \<times> vibrator) option" where
  "alwaysOnEnable lg gpio effect strength V = do {
     r \<leftarrow> getSimpleDetails effect strength V;
     case r of
       Inl st \<Rightarrow> Some (st, V)
     | Inr (effectIndex, timeMs, volLevel) \<Rightarrow> do {
         scale \<leftarrow> amplitudeToScale lg (fl32 (of_int volLevel)) (of_int VOLTAGE_SCALE_MAX);
         if gpio = 0 then Some (VOk, put_ignored mGpioRiseScale (decimal scale) (put_ignored mGpioRiseIndex (decimal effectIndex) V))
         else if gpio = 1 then Some (VOk, put_ignored mGpioFallScale (decimal scale) (put_ignored mGpioFallIndex (decimal effectIndex) V))
         else Some (Unsupported, V)
       }
   }"

definition alwaysOnDisable :: "int \<Rightarrow> vibrator \<Rightarrow> vstatus \<times> vibrator" where
  "alwaysOnDisable gpio V =
     (if gpio = 0 then (VOk, put_ignored mGpioRiseIndex (decimal 0) V)
      else if gpio = 1 then (VOk, put_ignored mGpioFallIndex (decimal 0) V)
      else (Unsupported, V))"

section \<open>Capabilities\<close>

datatype capability =
  CAP_ON_CALLBACK | CAP_PERFORM_CALLBACK | CAP_AMPLITUDE_CONTROL | CAP_EXTERNAL_CONTROL | CAP_COMPOSE_EFFECTS | CAP_ALWAYS_ON_CONTROL |
  CAP_GET_RESONANT_FREQUENCY | CAP_GET_Q_FACTOR | CAP_FREQUENCY_CONTROL | CAP_COMPOSE_PWLE_EFFECTS

definition getCapabilities :: "vibrator \<Rightarrow> capability list \<times> vibrator" where
  "getCapabilities V =
     (let ret = [CAP_ON_CALLBACK, CAP_PERFORM_CALLBACK, CAP_COMPOSE_EFFECTS, CAP_ALWAYS_ON_CONTROL, CAP_GET_RESONANT_FREQUENCY, CAP_GET_Q_FACTOR];
          ret = (if has mEffectScale (mHwApi V) then ret @ [CAP_AMPLITUDE_CONTROL] else ret);
          (external, V) = (if has mAspEnable (mHwApi V) then (True, V) else hasHapticAlsaDevice V);
          ret = (if external then ret @ [CAP_EXTERNAL_CONTROL] else ret);
          ret = (if has mPwle (mHwApi V) \<and> mIsChirpEnabled V then ret @ [CAP_FREQUENCY_CONTROL, CAP_COMPOSE_PWLE_EFFECTS] else ret) in
      (ret, V))"

text \<open>The size reported, and remembered for \<open>composePwle\<close>.\<close>

definition getPwleCompositionSizeMax :: "vibrator \<Rightarrow> (vstatus + int) \<times> vibrator" where
  "getPwleCompositionSizeMax V =
     (let (capabilities, V) = getCapabilities V in
      if CAP_COMPOSE_PWLE_EFFECTS \<in> set capabilities then
        let (ok, segments, V) = fetch mAvailablePwleSegments V in
        (case (ok, segments) of
           (True, Some n) \<Rightarrow>
             let maxSize = (if COMPOSE_PWLE_SIZE_LIMIT < n then COMPOSE_PWLE_SIZE_LIMIT else n) in
             (Inr maxSize, V\<lparr>mCompositionSizeMax := maxSize\<rparr>)
         | _ \<Rightarrow> (Inl IllegalState, V))
      else (Inl Unsupported, V))"

definition getQFactor :: "vibrator \<Rightarrow> rat" where
  "getQFactor V = fl32 (of_int (getQ (mHwCal V))) / 2 ^ 16"

section \<open>Lists and limits\<close>

definition getSupportedEffects :: "Effect list" where
  "getSupportedEffects = [E_TEXTURE_TICK, E_TICK, E_CLICK, E_HEAVY_CLICK, E_DOUBLE_CLICK, E_POP, E_THUD]"

definition getSupportedPrimitives :: "CompositePrimitive list" where
  "getSupportedPrimitives = [NOOP, P_CLICK, P_THUD, P_SPIN, P_QUICK_RISE, P_SLOW_RISE, P_QUICK_FALL, P_LIGHT_TICK, P_LOW_TICK]"

definition getSupportedAlwaysOnEffects :: "Effect list" where
  "getSupportedAlwaysOnEffects = [E_TEXTURE_TICK, E_TICK, E_CLICK, E_HEAVY_CLICK]"

definition getCompositionDelayMax :: int where
  "getCompositionDelayMax = COMPOSE_DELAY_MAX_MS"

definition getCompositionSizeMax :: nat where
  "getCompositionSizeMax = COMPOSE_SIZE_MAX"

definition getResonantFrequency :: "vibrator \<Rightarrow> rat" where
  "getResonantFrequency V = mResonantFrequency V"

end
