(* ===== verification/Vibrator_Pwle.thy ===== *)
theory Vibrator_Pwle
  imports Vibrator
begin

text \<open>
  The rest of the vibrator service: piecewise linear envelopes (\<open>composePwle\<close> and the limits of their levels), the map of amplitudes reported to
  clients, and the constructor. Members the
  constructor reads before it sets them are those of the memory the object is made in, an argument.
\<close>

section \<open>Limits\<close>

definition PWLE_FREQUENCY_RESOLUTION_HZ :: rat where "PWLE_FREQUENCY_RESOLUTION_HZ = 1"
definition PWLE_FREQUENCY_MIN_HZ :: rat where "PWLE_FREQUENCY_MIN_HZ = 1"
definition PWLE_FREQUENCY_MAX_HZ :: rat where "PWLE_FREQUENCY_MAX_HZ = 999"
definition PWLE_BW_MAP_SIZE :: nat where "PWLE_BW_MAP_SIZE = 999"
definition COMPOSE_PWLE_PRIMITIVE_DURATION_MAX_MS :: int where "COMPOSE_PWLE_PRIMITIVE_DURATION_MAX_MS = 999"
definition CS40L2X_PWLE_LEVEL_MAX :: rat where "CS40L2X_PWLE_LEVEL_MAX = fl32 (99 / 100)"
definition CS40L2X_PWLE_LENGTH_MAX :: nat where "CS40L2X_PWLE_LENGTH_MAX = 4094"
definition RESONANT_FREQUENCY_DEFAULT :: rat where "RESONANT_FREQUENCY_DEFAULT = 145"

text \<open>The actuator the build is for.\<close>

datatype actuator = LUXSHARE_ICT_081545 | LUXSHARE_ICT_LT_XLRA1906D | OtherActuator

fun discretePwleMaxLevels :: "actuator \<Rightarrow> (rat \<times> rat) list" where
  "discretePwleMaxLevels LUXSHARE_ICT_081545 =
     [(120, fl32 (40 / 100)), (130, fl32 (31 / 100)), (140, fl32 (14 / 100)), (145, fl32 (9 / 100)), (150, fl32 (15 / 100)), (160, fl32 (35 / 100)),
      (170, fl32 (40 / 100))]"
| "discretePwleMaxLevels LUXSHARE_ICT_LT_XLRA1906D =
     [(145, fl32 (38 / 100)), (150, fl32 (35 / 100)), (160, fl32 (35 / 100)), (170, fl32 (15 / 100)), (180, fl32 (35 / 100)), (190, fl32 (35 / 100)),
      (200, fl32 (38 / 100))]"
| "discretePwleMaxLevels OtherActuator = []"

fun default_level :: "actuator \<Rightarrow> rat" where
  "default_level LUXSHARE_ICT_081545 = fl32 (40 / 100)"
| "default_level LUXSHARE_ICT_LT_XLRA1906D = fl32 (38 / 100)"
| "default_level OtherActuator = 1"

text \<open>\<open>pwleMaxLevelLimitMap[x]\<close>: the index is a single, truncated; outside of the vector is undefined.\<close>

definition set_limit :: "rat \<Rightarrow> rat \<Rightarrow> rat list \<Rightarrow> rat list option" where
  "set_limit x y m = (if 0 \<le> trunc x \<and> nat (trunc x) < length m then Some (m[nat (trunc x) := y]) else None)"

text \<open>
  The inner loop: from \<open>xp\<close> in steps of 1 while it is below \<open>x1 + 1\<close>. The fuel is the number of entries of the map, which no segment exceeds.
\<close>

fun limit_segment :: "nat \<Rightarrow> rat \<Rightarrow> rat \<Rightarrow> rat \<Rightarrow> rat \<Rightarrow> rat \<Rightarrow> rat \<Rightarrow> rat list \<Rightarrow> rat list option" where
  "limit_segment 0 x0 y0 x1 y1 xp i m = None"
| "limit_segment (Suc n) x0 y0 x1 y1 xp i m =
     (if xp < fl32 (x1 + 1) then do {
        let yp = fl32 (y0 + fl32 (fl32 (fl32 (y1 - y0) / fl32 (x1 - x0)) * fl32 (xp - x0)));
        m \<leftarrow> set_limit i yp m;
        limit_segment n x0 y0 x1 y1 (fl32 (xp + 1)) (fl32 (i + 1)) m
      }
      else Some m)"

fun limit_segments :: "(rat \<times> rat) list \<Rightarrow> rat list \<Rightarrow> rat list option" where
  "limit_segments [] m = Some m"
| "limit_segments [(x, y)] m = Some m"
| "limit_segments ((x0, y0) # (x1, y1) # ps) m = do {
     m \<leftarrow> limit_segment (PWLE_BW_MAP_SIZE + 1) x0 y0 x1 y1 x0 (fl32 (x0 - PWLE_FREQUENCY_MIN_HZ)) m;
     limit_segments ((x1, y1) # ps) m
   }"

definition createPwleMaxLevelLimitMap :: "actuator \<Rightarrow> vibrator \<Rightarrow> vibrator option" where
  "createPwleMaxLevelLimitMap act V =
     (let (capabilities, V) = getCapabilities V in
      if CAP_FREQUENCY_CONTROL \<in> set capabilities then
        (case discretePwleMaxLevels act of
           [] \<Rightarrow> Some V
         | [(x, y)] \<Rightarrow> map_option (\<lambda>m. V\<lparr>pwleMaxLevelLimitMap := m\<rparr>) (set_limit (fl32 (x - PWLE_FREQUENCY_MIN_HZ)) y (pwleMaxLevelLimitMap V))
         | ps \<Rightarrow> map_option (\<lambda>m. V\<lparr>pwleMaxLevelLimitMap := m\<rparr>) (limit_segments ps (pwleMaxLevelLimitMap V)))
      else Some V)"

section \<open>Envelopes\<close>

record ActivePwle =
  startAmplitude :: flt
  startFrequency :: flt
  endAmplitude :: flt
  endFrequency :: flt
  active_duration :: int

text \<open>The kind of braking is the number of the enumeration: 0 for none, 1 for closed-loop active braking.\<close>

datatype PrimitivePwle = Active ActivePwle | BrakingPwle int int

definition constructActiveDefaults :: "nat \<Rightarrow> string" where
  "constructActiveDefaults i =
     '',C'' @ decimal (int i) @ '':1'' @ '',B'' @ decimal (int i) @ '':0'' @ '',AR'' @ decimal (int i) @ '':0'' @ '',V'' @ decimal (int i) @ '':0''"

fun print_level :: "flt \<Rightarrow> string" where
  "print_level (Num x) = print_precision1 x"
| "print_level (Infinite positive) = (if positive then ''inf'' else ''-inf'')"
| "print_level NaN = ''nan''"

definition constructActiveSegment :: "nat \<Rightarrow> int \<Rightarrow> flt \<Rightarrow> rat \<Rightarrow> string" where
  "constructActiveSegment i dur amplitude frequency =
     '',T'' @ decimal (int i) @ '':'' @ decimal dur @
     '',L'' @ decimal (int i) @ '':'' @ print_level amplitude @
     '',F'' @ decimal (int i) @ '':'' @ decimal (round_away frequency) @ constructActiveDefaults i"

definition constructBrakingSegment :: "nat \<Rightarrow> int \<Rightarrow> int \<Rightarrow> rat \<Rightarrow> string" where
  "constructBrakingSegment i dur brakingType frequency =
     '',T'' @ decimal (int i) @ '':'' @ decimal dur @ '',L'' @ decimal (int i) @ '':'' @ decimal 0 @
     '',F'' @ decimal (int i) @ '':'' @ decimal (round_away frequency) @ '',C'' @ decimal (int i) @ '':0'' @
     '',B'' @ decimal (int i) @ '':'' @ decimal brakingType @ '',AR'' @ decimal (int i) @ '':0'' @ '',V'' @ decimal (int i) @ '':0''"

text \<open>The limit at a frequency; a frequency that is not a number has no index.\<close>

definition level_limit :: "vibrator \<Rightarrow> flt \<Rightarrow> rat option" where
  "level_limit V f = do {
     x \<leftarrow> flt_num f;
     let i = trunc (fl32 (x / 1 - 1));
     if 0 \<le> i \<and> nat i < length (pwleMaxLevelLimitMap V) then Some (pwleMaxLevelLimitMap V ! nat i) else None
   }"

text \<open>The level sent for an amplitude: at most 0.99 and at most the limit. An amplitude that is not a number stays one.\<close>

definition clip_level :: "vibrator \<Rightarrow> flt \<Rightarrow> flt \<Rightarrow> flt option" where
  "clip_level V a f = do {
     limit \<leftarrow> level_limit V f;
     let a = (if flt_greater a CS40L2X_PWLE_LEVEL_MAX then Num CS40L2X_PWLE_LEVEL_MAX else a);
     Some (if flt_greater a limit then Num limit else a)
   }"

definition level_outside :: "flt \<Rightarrow> bool" where
  "level_outside a \<longleftrightarrow> flt_less a 0 \<or> flt_greater a 1"

definition frequency_outside :: "flt \<Rightarrow> bool" where
  "frequency_outside f \<longleftrightarrow> flt_less f PWLE_FREQUENCY_MIN_HZ \<or> flt_greater f PWLE_FREQUENCY_MAX_HZ"

definition active_refused :: "ActivePwle \<Rightarrow> bool" where
  "active_refused a \<longleftrightarrow>
     active_duration a < 0 \<or> COMPOSE_PWLE_PRIMITIVE_DURATION_MAX_MS < active_duration a \<or>
     level_outside (startAmplitude a) \<or> level_outside (endAmplitude a) \<or>
     frequency_outside (startFrequency a) \<or> frequency_outside (endFrequency a)"

text \<open>
  The loop over the primitives: the number of segments so far, the amplitude and frequency the last one ended with, the total
  duration; the result adds the text.
\<close>

fun pwle_text :: "vibrator \<Rightarrow> PrimitivePwle list \<Rightarrow> nat \<Rightarrow> flt \<Rightarrow> rat \<Rightarrow> int \<Rightarrow> (vstatus + nat \<times> int \<times> string) option" where
  "pwle_text V [] i prevA prevF tot = Some (Inr (i, tot, []))"
| "pwle_text V (Active a # es) i prevA prevF tot =
     (if active_refused a then Some (Inl IllegalArgument)
      else do {
        startA \<leftarrow> clip_level V (startAmplitude a) (startFrequency a);
        endA \<leftarrow> clip_level V (endAmplitude a) (endFrequency a);
        startF \<leftarrow> flt_num (startFrequency a);
        endF \<leftarrow> flt_num (endFrequency a);
        let jump = \<not> (startA = prevA \<and> startA \<noteq> NaN \<and> startF = prevF);
        let j = (if jump then i + 1 else i);
        let text = (if jump then constructActiveSegment i 0 startA startF else []) @ constructActiveSegment j (active_duration a) endA endF;
        r \<leftarrow> pwle_text V es (j + 1) endA endF (to_u32 (tot + active_duration a));
        case r of Inl st \<Rightarrow> Some (Inl st) | Inr (n, t, rest) \<Rightarrow> Some (Inr (n, t, text @ rest))
      })"
| "pwle_text V (BrakingPwle braking dur # es) i prevA prevF tot =
     (if 1 < braking then Some (Inl IllegalArgument)
      else if COMPOSE_PWLE_PRIMITIVE_DURATION_MAX_MS < dur then Some (Inl IllegalArgument)
      else do {
        r \<leftarrow> pwle_text V es (i + 1) (Num 0) prevF (to_u32 (tot + dur));
        case r of Inl st \<Rightarrow> Some (Inl st) | Inr (n, t, rest) \<Rightarrow> Some (Inr (n, t, constructBrakingSegment i dur braking prevF @ rest))
      })"

text \<open>
  \<open>mAsyncHandle = std::async(...)\<close>: the new thread is started, then the assignment waits for the thread of a vibration that is pending. Both wait for the driver to
  stop, so the new one may complete first; this is what \<open>overtakes\<close> tells.
\<close>

definition replace_handle :: "bool \<Rightarrow> callback \<Rightarrow> vibrator \<Rightarrow> vibrator" where
  "replace_handle overtakes callback V =
     (if overtakes \<and> mAsyncHandle V \<noteq> None then
        let old = mAsyncHandle V;
            V = waitForComplete (V\<lparr>mAsyncHandle := Some callback\<rparr>) in
        waitForComplete (V\<lparr>mAsyncHandle := old\<rparr>)
      else (waitForComplete V)\<lparr>mAsyncHandle := Some callback\<rparr>)"

text \<open>What follows the loop, from \<open>setPwle\<close> on.\<close>

definition play_pwle :: "(rat \<Rightarrow> rat) \<Rightarrow> bool \<Rightarrow> string \<Rightarrow> int \<Rightarrow> callback \<Rightarrow> vibrator \<Rightarrow> (vstatus \<times> vibrator) option" where
  "play_pwle lg overtakes pwleQueue totalDuration callback V =
     (let (ok, V) = put mPwle pwleQueue V in
      if \<not> ok then Some (IllegalState, V)
      else do {
        (_, V) \<leftarrow> setEffectAmplitude lg (of_int VOLTAGE_SCALE_MAX) (of_int VOLTAGE_SCALE_MAX) V;
        let V = put_ignored mEffectIndex (decimal WAVEFORM_UNSAVED_TRIGGER_QUEUE_INDEX) V;
        let V = put_ignored mDuration (decimal (to_u32 (totalDuration + MAX_COLD_START_LATENCY_MS))) V;
        let V = put_ignored mActivate (bool_text True) V;
        Some (VOk, replace_handle overtakes callback V)
      })"

definition composePwle :: "(rat \<Rightarrow> rat) \<Rightarrow> bool \<Rightarrow> PrimitivePwle list \<Rightarrow> callback \<Rightarrow> vibrator \<Rightarrow> (vstatus \<times> vibrator) option" where
  "composePwle lg overtakes composite callback V =
     (if \<not> mIsChirpEnabled V then Some (Unsupported, V)
      else if composite = [] \<or> mCompositionSizeMax V mod 2 ^ 64 < int (length composite) then Some (IllegalArgument, V)
      else do {
        r \<leftarrow> pwle_text V composite 0 (Num 0) (mResonantFrequency V) 0;
        case r of
          Inl st \<Rightarrow> Some (st, V)
        | Inr (segments, totalDuration, text) \<Rightarrow>
            let pwleQueue = ''S:0,WF:4,RP:0,WT:0'' @ text in
            if CS40L2X_PWLE_LENGTH_MAX < length pwleQueue then Some (IllegalState, V)
            else play_pwle lg overtakes pwleQueue totalDuration callback V
      })"

section \<open>Limits of envelopes\<close>

definition getFrequencyResolution :: "vibrator \<Rightarrow> (vstatus + rat) \<times> vibrator" where
  "getFrequencyResolution V =
     (let (capabilities, V) = getCapabilities V in
      (if CAP_FREQUENCY_CONTROL \<in> set capabilities then Inr PWLE_FREQUENCY_RESOLUTION_HZ else Inl Unsupported, V))"

definition getFrequencyMinimum :: "vibrator \<Rightarrow> (vstatus + rat) \<times> vibrator" where
  "getFrequencyMinimum V =
     (let (capabilities, V) = getCapabilities V in
      (if CAP_FREQUENCY_CONTROL \<in> set capabilities then Inr PWLE_FREQUENCY_MIN_HZ else Inl Unsupported, V))"

definition getPwlePrimitiveDurationMax :: "vibrator \<Rightarrow> (vstatus + int) \<times> vibrator" where
  "getPwlePrimitiveDurationMax V =
     (let (capabilities, V) = getCapabilities V in
      (if CAP_COMPOSE_PWLE_EFFECTS \<in> set capabilities then Inr COMPOSE_PWLE_PRIMITIVE_DURATION_MAX_MS else Inl Unsupported, V))"

text \<open>\<open>Braking::NONE\<close> is 0 and \<open>Braking::CLAB\<close> is 1.\<close>

definition getSupportedBraking :: "vibrator \<Rightarrow> (vstatus + int list) \<times> vibrator" where
  "getSupportedBraking V =
     (let (capabilities, V) = getCapabilities V in
      (if CAP_COMPOSE_PWLE_EFFECTS \<in> set capabilities then Inr [0, 1] else Inl Unsupported, V))"

section \<open>The bandwidth map\<close>

text \<open>
  \<open>pow(x, 2)\<close> and \<open>sqrt\<close> are arguments \<open>pw\<close> and \<open>sq\<close>. A result that is rounded to single precision is \<open>None\<close> when it is infinite, and so is a quotient by
  zero. The literals of the source are the doubles or singles next to them.
\<close>

definition single :: "rat \<Rightarrow> rat option" where
  "single x = (if \<bar>fl32 x\<bar> < 2 ^ 128 then Some (fl32 x) else None)"

definition M_PI :: rat where
  "M_PI = fl (314159265358979323846 / 10 ^ 20)"

definition redcToFloat :: "int \<Rightarrow> rat" where
  "redcToFloat redcMeasured = fl32 (fl (of_int redcMeasured * fl (5857 / 1000)) / 2 ^ 17)"

definition radians :: "rat \<Rightarrow> rat" where
  "radians hz = fl32 (fl (fl32 (hz * 2) * M_PI))"

definition voltage :: "vibrator \<Rightarrow> rat \<Rightarrow> rat option" where
  "voltage V vLevel = single (fl (fl (fl (of_int (snd (mLongEffectVol V)) / 100) * fl32 (123 / 10)) * vLevel))"

text \<open>\<open>amplitudeSys\<close> for the i-th frequency, which is i + 1.\<close>

definition amplitudeSys :: "(rat \<Rightarrow> rat) \<Rightarrow> (rat \<Rightarrow> rat) \<Rightarrow> vibrator \<Rightarrow> nat \<Rightarrow> rat option" where
  "amplitudeSys pw sq V i =
     (if \<not> i < length (pwleMaxLevelLimitMap V) then None
      else do {
        let wnSys = radians (mResonantFrequency V);
        let frequencyRadians = radians (PWLE_FREQUENCY_MIN_HZ + of_nat i * PWLE_FREQUENCY_RESOLUTION_HZ);
        vSys \<leftarrow> voltage V (pwleMaxLevelLimitMap V ! i);
        var1 \<leftarrow> single (pw (fl (pw wnSys - pw frequencyRadians)));
        product \<leftarrow> single (wnSys * frequencyRadians);
        var2 \<leftarrow> single (pw (fl32 (product / 10)));
        var12 \<leftarrow> single (var1 + var2);
        psysAbs \<leftarrow> single (sq var12);
        force \<leftarrow> single (vSys * fl32 (11 / 10));
        force \<leftarrow> single (force * getLocCoeff (mHwCal V));
        force \<leftarrow> single (force / redcToFloat (mRedc V));
        force \<leftarrow> single (force / getDeviceMass (mHwCal V));
        if psysAbs = 0 then None
        else single (fl (fl (fl (force * pw frequencyRadians) / psysAbs) / fl32 (981 / 100)))
      })"

definition hundredths :: "rat \<Rightarrow> rat \<Rightarrow> rat" where
  "hundredths maxAsys a = fl32 (of_int \<lfloor>fl32 (fl32 (a / maxAsys) * 100)\<rfloor> / 100)"

text \<open>The map, and whether it was completed.\<close>

definition generateBandwidthAmplitudeMap :: "(rat \<Rightarrow> rat) \<Rightarrow> (rat \<Rightarrow> rat) \<Rightarrow> vibrator \<Rightarrow> (rat list \<times> bool) option" where
  "generateBandwidthAmplitudeMap pw sq V =
     (if getDeviceMass (mHwCal V) = 0 \<or> getLocCoeff (mHwCal V) = 0 \<or> mRedc V = 0 then Some ([], False)
      else do {
        bandwidthAmplitudeMap \<leftarrow> those (map (amplitudeSys pw sq V) [0..<PWLE_BW_MAP_SIZE]);
        let maxAsys = fold (\<lambda>a m. if m < a then a else m) bandwidthAmplitudeMap 0;
        Some (if 0 < maxAsys then (map (hundredths maxAsys) bandwidthAmplitudeMap, True) else ([], False))
      })"

definition generate_map :: "(rat \<Rightarrow> rat) \<Rightarrow> (rat \<Rightarrow> rat) \<Rightarrow> vibrator \<Rightarrow> vibrator" where
  "generate_map pw sq V =
     (case generateBandwidthAmplitudeMap pw sq V of
        None \<Rightarrow> V\<lparr>mBandwidthAmplitudeMap := None\<rparr>
      | Some (m, whole) \<Rightarrow>
          V\<lparr>mBandwidthAmplitudeMap := Some m, mGenerateBandwidthAmplitudeMapDone := mGenerateBandwidthAmplitudeMapDone V \<or> whole\<rparr>)"

definition getBandwidthAmplitudeMap :: "(rat \<Rightarrow> rat) \<Rightarrow> (rat \<Rightarrow> rat) \<Rightarrow> vibrator \<Rightarrow> (vstatus \<times> rat list \<times> vibrator) option" where
  "getBandwidthAmplitudeMap pw sq V =
     (let (capabilities, V) = getCapabilities V in
      if CAP_FREQUENCY_CONTROL \<in> set capabilities then do {
        let V = (if \<not> mGenerateBandwidthAmplitudeMapDone V then generate_map pw sq V else V);
        m \<leftarrow> mBandwidthAmplitudeMap V;
        Some (if m \<noteq> [] then VOk else IllegalState, m, V)
      }
      else Some (Unsupported, [], V))"

section \<open>Construction\<close>

definition long_offset :: "int \<Rightarrow> int option" where
  "long_offset shift =
     (if 0 < shift then cast_u32 (shift * 2 ^ 14)
      else if shift < 0 then do { s \<leftarrow> ck32 \<bar>shift\<bar>; cast_u32 (2 ^ 24 - s * 2 ^ 14) }
      else Some 0)"

definition click_minimum :: "int list \<Rightarrow> int" where
  "click_minimum vs =
     to_u32 (max (round_away (fl32 (fl32 (of_int (vs ! 0)) - fl32 (fl32 (of_int (to_u32 (vs ! 4 - vs ! 0))) / 4)))) WAVEFORM_EFFECT_LEVEL_MINIMUM)"

fun read_durations :: "nat \<Rightarrow> nat \<Rightarrow> vibrator \<Rightarrow> vibrator" where
  "read_durations i 0 V = V"
| "read_durations i (Suc n) V =
     (let V = put_ignored mEffectIndex (decimal (int i)) V;
          (ok, d, V) = fetch mEffectDuration V in
      read_durations (Suc i) n
        (case (ok, d) of
           (True, Some v) \<Rightarrow> V\<lparr>mEffectDurations := (mEffectDurations V)[i := \<lceil>fl32 (fl32 (of_int v) / 48)\<rceil>]\<rparr>
         | _ \<Rightarrow> V))"

definition set_calibration :: "vibrator \<Rightarrow> vibrator" where
  "set_calibration V =
     (let K = mHwCal V;
          V = (case getF0 K of
                 Some caldata \<Rightarrow> (put_ignored mF0 (decimal caldata) V)\<lparr>mResonantFrequency := fl32 (of_int caldata) / 2 ^ 14\<rparr>
               | None \<Rightarrow> V\<lparr>mResonantFrequency := RESONANT_FREQUENCY_DEFAULT\<rparr>);
          V = (case getRedc K of
                 Some caldata \<Rightarrow> (put_ignored mRedc_node (decimal caldata) V)\<lparr>mRedc := caldata\<rparr>
               | None \<Rightarrow> V) in
      put_ignored mQ (decimal (getQ K)) V)"

definition set_levels :: "vibrator \<Rightarrow> vibrator" where
  "set_levels V =
     (let K = mHwCal V in
      if getVersion K = 1 then
        let vs = getVolLevels K; click = (click_minimum vs, vs ! 4) in
        V\<lparr>mClickEffectVol := click, mTickEffectVol := click, mLongEffectVol := (0, vs ! 5)\<rparr>
      else
        V\<lparr>mTickEffectVol := getTickVolLevels K, mClickEffectVol := getClickVolLevels K, mLongEffectVol := getLongVolLevels K\<rparr>)"

text \<open>\<open>RAMP_DOWN_TIME_MS\<close> is zero, so the ramp down is turned off.\<close>

definition setPwleRampDown :: "vibrator \<Rightarrow> vibrator" where
  "setPwleRampDown V = put_ignored mPwleRampDown (decimal 0) V"

text \<open>\<open>mem\<close> is the memory of the object, with the hardware and the calibration it was given; an effect count that cannot be read is the value of \<open>junk\<close>.\<close>

definition new_Vibrator :: "(rat \<Rightarrow> rat) \<Rightarrow> (rat \<Rightarrow> rat) \<Rightarrow> actuator \<Rightarrow> int \<Rightarrow> vibrator \<Rightarrow> vibrator option" where
  "new_Vibrator pw sq act junk mem = do {
     let V = mem\<lparr>mAsyncHandle := None, mRedc := 0, mActiveId := -1, pwleMaxLevelLimitMap := replicate PWLE_BW_MAP_SIZE (default_level act)\<rparr>;
     let V = put_ignored mState (bool_text True) V;
     let V = set_calibration V;
     offset \<leftarrow> long_offset (getLongFrequencyShift (mHwCal V));
     let V = set_levels (V\<lparr>mF0Offset := offset\<rparr>);
     let (ok, n, V) = fetch mEffectCount V;
     let effectCount = nat (case n of Some k \<Rightarrow> k | None \<Rightarrow> junk);
     let V = read_durations 0 effectCount (V\<lparr>mEffectDurations := replicate effectCount 0\<rparr>);
     let V = put_ignored mClabEnable (bool_text True) V;
     let (size, V) = getPwleCompositionSizeMax V;
     let V = (case size of Inr _ \<Rightarrow> V | Inl _ \<Rightarrow> V\<lparr>mCompositionSizeMax := COMPOSE_PWLE_SIZE_LIMIT\<rparr>);
     V \<leftarrow> createPwleMaxLevelLimitMap act V;
     let V = generate_map pw sq (V\<lparr>mGenerateBandwidthAmplitudeMapDone := False\<rparr>);
     let V = V\<lparr>mIsUnderExternalControl := False\<rparr>;
     let V = setPwleRampDown V;
     Some (V\<lparr>mIsChirpEnabled := isChirpEnabled (mHwCal V)\<rparr>)
   }"

end
