(* ===== verification/Vibrator_Props.thy ===== *)
theory Vibrator_Props
  imports Vibrator_Pwle "HOL-Library.Multiset"
begin

text \<open>
  The properties of the vibrator service: every callback is made once and in order, what a composition writes, the bounds of levels and
  attenuations, the sound device under external control, and the calibration on its way from the TA partition to the driver.
\<close>

section \<open>Frames\<close>

lemma put_frame [simp]: "snd (put nd s V) = V\<lparr>mHwApi := snd (set_node nd s (mHwApi V))\<rparr>"
  by (simp add: put_def split: prod.split)

lemma put_ignored_frame: "put_ignored nd s V = V\<lparr>mHwApi := snd (set_node nd s (mHwApi V))\<rparr>"
  by (simp add: put_ignored_def)

lemma fetch_frame: "fetch nd V = (ok, v, V') \<Longrightarrow> V' = V\<lparr>mHwApi := snd (snd (get_node nd (mHwApi V)))\<rparr>"
  by (auto simp: fetch_def split: prod.splits)

text \<open>
  A relation between two states that the accesses to the driver keep, those of external playback apart, as do the search for the sound device, the size of
  compositions and the map of amplitudes. It is kept by every operation that does no more than that.
\<close>

locale kept =
  fixes K :: "vibrator \<Rightarrow> vibrator \<Rightarrow> bool"
  assumes same: "K V V"
    and trans: "K V V' \<Longrightarrow> K V' V'' \<Longrightarrow> K V V''"
    and written: "nd \<noteq> mAspEnable \<Longrightarrow> K V (V\<lparr>mHwApi := snd (set_node nd s (mHwApi V))\<rparr>)"
    and fetched: "nd \<noteq> mAspEnable \<Longrightarrow> K V (V\<lparr>mHwApi := snd (snd (get_node nd (mHwApi V)))\<rparr>)"
    and sound_device: "K V (snd (hasHapticAlsaDevice V))"
    and size_max: "K V (V\<lparr>mCompositionSizeMax := n\<rparr>)"
    and bandwidth: "K V (V\<lparr>mBandwidthAmplitudeMap := m, mGenerateBandwidthAmplitudeMapDone := b\<rparr>)"
begin

lemma kept_put: "put nd s V = (ok, V') \<Longrightarrow> nd \<noteq> mAspEnable \<Longrightarrow> K V V'"
  using put_frame [of nd s V] written [of nd V s] by simp

lemma kept_put_ignored: "K V W \<Longrightarrow> nd \<noteq> mAspEnable \<Longrightarrow> K V (put_ignored nd s W)"
  using written trans by (simp add: put_ignored_frame)

lemma kept_fetch: "fetch nd V = (ok, v, V') \<Longrightarrow> nd \<noteq> mAspEnable \<Longrightarrow> K V V'"
  using fetch_frame [of nd V ok v V'] fetched [of nd V] by simp

lemma kept_setGlobalAmplitude: "setGlobalAmplitude lg b V = Some (st, V') \<Longrightarrow> K V V'"
  by (auto simp: setGlobalAmplitude_def Let_def split: bind_splits prod.splits dest!: kept_put)

lemma kept_setEffectAmplitude: "setEffectAmplitude lg a m V = Some (st, V') \<Longrightarrow> K V V'"
  by (auto simp: setEffectAmplitude_def Let_def split: bind_splits prod.splits dest!: kept_put)

lemma kept_setAmplitude: "setAmplitude lg a V = Some (st, V') \<Longrightarrow> K V V'"
  using same by (auto simp: setAmplitude_def split: if_splits bind_splits dest!: kept_setEffectAmplitude)

lemma kept_off:
  assumes "off lg V = Some (st, V')"
  shows "\<exists>W. K V W \<and> (V' = W \<or> V' = W\<lparr>mActiveId := -1\<rparr>)"
proof -
  obtain st1 V1 where V1: "setGlobalAmplitude lg False V = Some (st1, V1)" using assms by (auto simp: off_def split: bind_splits)
  define W where "W = put_ignored mF0Offset_node (decimal 0) V1"
  obtain ok W' where W': "put mActivate (bool_text False) W = (ok, W')" by (cases "put mActivate (bool_text False) W")
  have "K V W" unfolding W_def by (rule kept_put_ignored [OF kept_setGlobalAmplitude [OF V1]]) simp
  moreover have "K W W'" by (rule kept_put [OF W']) simp
  ultimately have "K V W'" by (rule trans)
  moreover have "V' = W' \<or> V' = W'\<lparr>mActiveId := -1\<rparr>"
    using assms V1 W' by (auto simp: off_def Let_def W_def split: if_splits)
  ultimately show ?thesis by blast
qed

lemma kept_alwaysOnEnable: "alwaysOnEnable lg i effect strength V = Some (st, V') \<Longrightarrow> K V V'"
  using same by (auto simp: alwaysOnEnable_def intro!: kept_put_ignored split: bind_splits sum.splits if_splits)

lemma kept_alwaysOnDisable: "alwaysOnDisable i V = (st, V') \<Longrightarrow> K V V'"
  using same by (auto simp: alwaysOnDisable_def intro!: kept_put_ignored split: if_splits)

lemma kept_getCapabilities: "getCapabilities V = (cs, V') \<Longrightarrow> K V V'"
  using same sound_device [of V] by (auto simp: getCapabilities_def Let_def split: prod.splits if_splits)

lemma kept_getPwleCompositionSizeMax:
  assumes "getPwleCompositionSizeMax V = (sz, V')"
  shows "K V V'"
proof -
  obtain cs W where W: "getCapabilities V = (cs, W)" by (cases "getCapabilities V")
  obtain ok v U where U: "fetch mAvailablePwleSegments W = (ok, v, U)" by (cases "fetch mAvailablePwleSegments W")
  have "K V W" by (rule kept_getCapabilities [OF W])
  moreover from this have "K V U" by (rule trans) (rule kept_fetch [OF U], simp)
  ultimately show ?thesis
    using assms trans [OF _ size_max] by (auto simp: getPwleCompositionSizeMax_def W U Let_def split: if_splits bool.splits option.splits)
qed

lemma kept_generate_map: "K V (generate_map pw sq V)"
proof -
  have "K V (V\<lparr>mBandwidthAmplitudeMap := None\<rparr>)" using bandwidth [where m = None and b = "mGenerateBandwidthAmplitudeMapDone V" and V = V] by simp
  then show ?thesis using bandwidth by (auto simp: generate_map_def split: option.split)
qed

lemma kept_getBandwidthAmplitudeMap:
  assumes "getBandwidthAmplitudeMap pw sq V = Some (st, m, V')"
  shows "K V V'"
proof -
  obtain cs W where W: "getCapabilities V = (cs, W)" by (cases "getCapabilities V")
  have "V' = W \<or> V' = generate_map pw sq W"
    using assms by (auto simp: getBandwidthAmplitudeMap_def W Let_def split: bind_splits if_splits)
  then show ?thesis using kept_getCapabilities [OF W] trans [OF _ kept_generate_map] by blast
qed

end

definition same_async :: "vibrator \<Rightarrow> vibrator \<Rightarrow> bool" where
  "same_async V V' \<longleftrightarrow> mAsyncHandle V' = mAsyncHandle V \<and> completed V' = completed V"

interpretation async: kept same_async
  by unfold_locales (auto simp: same_async_def hasHapticAlsaDevice_def Let_def split: option.split)

lemma same_async_put [simp]: "same_async V (put_ignored nd s W) = same_async V W" "same_async (put_ignored nd s W) V = same_async W V"
  by (simp_all add: put_ignored_frame same_async_def)

lemma put_async: "put nd s V = (ok, V') \<Longrightarrow> same_async V V'"
  using put_frame [of nd s V] by (simp add: same_async_def)

lemma pcm_close_async [simp]: "same_async V (pcm_close W) = same_async V W"
  by (simp add: pcm_close_def same_async_def split: option.split)

lemma enableHapticPcmAmp_async: "enableHapticPcmAmp e V = (ok, V') \<Longrightarrow> same_async V V'"
  by (auto simp: enableHapticPcmAmp_def Let_def split: if_splits) (simp_all add: same_async_def)

lemma drive_external_async: "drive_external e V = (ok, V') \<Longrightarrow> same_async V V'"
  by (auto simp: drive_external_def split: if_splits prod.splits dest!: enableHapticPcmAmp_async put_async intro: async.trans async.same)

lemma setExternalControl_async:
  assumes "setExternalControl lg e V = Some (st, V')"
  shows "same_async V V'"
  using assms unfolding setExternalControl_def
  by (auto simp: same_async_def split: bind_splits if_splits prod.splits
      dest!: async.kept_setGlobalAmplitude [unfolded same_async_def] drive_external_async [unfolded same_async_def])

section \<open>Callbacks\<close>

definition called_back :: "callback \<Rightarrow> nat list" where
  "called_back callback = (case callback of None \<Rightarrow> [] | Some c \<Rightarrow> [c])"

definition pending :: "vibrator \<Rightarrow> nat list" where
  "pending V = (case mAsyncHandle V of None \<Rightarrow> [] | Some callback \<Rightarrow> called_back callback)"

definition callbacks :: "vibrator \<Rightarrow> nat list" where
  "callbacks V = completed V @ pending V"

lemma callbacks_same: "same_async V V' \<Longrightarrow> callbacks V' = callbacks V"
  by (simp add: callbacks_def pending_def same_async_def)

lemma callbacks_complete [simp]: "callbacks (waitForComplete V) = callbacks V" "mAsyncHandle (waitForComplete V) = None"
  by (simp_all add: callbacks_def pending_def waitForComplete_def called_back_def put_ignored_frame split: option.split)

lemma callbacks_start:
  "callbacks ((put_ignored a x W)\<lparr>mAsyncHandle := Some callback\<rparr>) = callbacks (W\<lparr>mAsyncHandle := Some callback\<rparr>)"
  "callbacks (W\<lparr>mActiveId := i, mAsyncHandle := Some callback\<rparr>) = callbacks (W\<lparr>mAsyncHandle := Some callback\<rparr>)"
  "mAsyncHandle W = None \<Longrightarrow> callbacks (W\<lparr>mAsyncHandle := Some callback\<rparr>) = callbacks W @ called_back callback"
  by (simp_all add: callbacks_def pending_def put_ignored_frame)

lemma put_ignored_async [simp]: "mAsyncHandle (put_ignored nd s V) = mAsyncHandle V" "callbacks (put_ignored nd s V) = callbacks V"
  by (simp_all add: callbacks_def pending_def put_ignored_frame)

lemma on_index_callbacks:
  assumes "on_index lg in_time t i callback V = Some (st, V')"
  shows "callbacks V' = callbacks V @ (if st = VOk then called_back callback else [])"
proof -
  obtain W where W: "(if mIsUnderExternalControl V then map_option snd (setExternalControl lg False V) else Some V) = Some W"
    using assms unfolding on_index_def by (auto split: bind_splits)
  then have same: "callbacks W = callbacks V"
    by (auto split: if_splits dest!: setExternalControl_async intro!: callbacks_same)
  show ?thesis
    using assms same unfolding on_index_def W by (auto simp: Let_def callbacks_start split: if_splits)
qed

lemma on_ms_callbacks:
  assumes "on_ms lg in_time t callback V = Some (st, V')"
  shows "callbacks V' = callbacks V @ (if st = VOk then called_back callback else [])"
  using assms unfolding on_ms_def
  by (auto simp: Let_def split: bind_splits dest!: on_index_callbacks async.kept_setGlobalAmplitude callbacks_same)

lemma perform_index_callbacks:
  assumes "perform_index lg in_time i v q callback V = Some (st, V')"
  shows "callbacks V' = callbacks V @ (if st = VOk then called_back callback else [])"
  using assms unfolding perform_index_def setEffectQueue_def
  by (auto simp: Let_def split: bind_splits if_splits prod.splits
      dest!: on_index_callbacks async.kept_setEffectAmplitude put_async callbacks_same)

lemma perform_callbacks:
  assumes "perform lg in_time effect strength callback V = Some (st, t, V')"
  shows "callbacks V' = callbacks V @ (if st = VOk then called_back callback else [])"
proof -
  have "getSimpleDetails effect strength V \<noteq> Some (Inl VOk)" "getCompoundDetails effect strength V \<noteq> Some (Inl VOk)"
    unfolding getCompoundDetails_def getSimpleDetails_def
    by (auto split: option.splits bind_splits sum.splits prod.splits if_splits)
  then show ?thesis
    using assms unfolding perform_def
    by (auto split: bind_splits if_splits sum.splits prod.splits dest!: perform_index_callbacks)
qed

lemma compose_text_not_ok: "compose_text V es \<noteq> Some (Inl VOk)"
proof (induction es)
  case (Cons e es)
  then show ?case
    by (auto simp: Let_def getPrimitiveDetails_def split: bind_splits if_splits sum.splits CompositePrimitive.splits)
qed simp

lemma compose_callbacks:
  assumes "compose lg in_time es callback V = Some (st, V')"
  shows "callbacks V' = callbacks V @ (if st = VOk then called_back callback else [])"
  using assms compose_text_not_ok [of V es] unfolding compose_def
  by (auto split: bind_splits if_splits sum.splits dest!: perform_index_callbacks)

lemma pwle_text_not_ok: "pwle_text V es i a f t \<noteq> Some (Inl VOk)"
proof (induction es arbitrary: i a f t)
  case (Cons e es)
  then show ?case by (cases e) (auto simp: Let_def split: bind_splits if_splits sum.splits)
qed simp

lemma replace_handle_callbacks:
  "mset (callbacks (replace_handle overtakes callback V)) = mset (callbacks V @ called_back callback)"
  "\<not> overtakes \<Longrightarrow> callbacks (replace_handle overtakes callback V) = callbacks V @ called_back callback"
  by (auto simp: replace_handle_def Let_def callbacks_def pending_def waitForComplete_def called_back_def put_ignored_frame split: option.split)

lemma composePwle_callbacks:
  assumes "composePwle lg overtakes es callback V = Some (st, V')"
  shows "mset (callbacks V') = mset (callbacks V @ (if st = VOk then called_back callback else [])) \<and>
    (\<not> overtakes \<longrightarrow> callbacks V' = callbacks V @ (if st = VOk then called_back callback else []))"
  using assms pwle_text_not_ok [of V es 0 "Num 0" "mResonantFrequency V" 0] unfolding composePwle_def play_pwle_def
  by (auto simp: Let_def replace_handle_callbacks split: bind_splits if_splits sum.splits prod.splits
      dest!: async.kept_setEffectAmplitude put_async callbacks_same)

text \<open>The calls of the service, and its runs: calls one after the other, and completions at any time. The list holds the callbacks of the calls that succeeded;
  \<open>ov\<close> tells whether an envelope may overtake the vibration before it.\<close>

datatype vib_request =
  CallOn bool int callback | CallPerform bool Effect EffectStrength callback | CallCompose bool "CompositeEffect list" callback |
  CallComposePwle bool "PrimitivePwle list" callback | CallOff | CallSetAmplitude flt | CallSetExternalControl bool |
  CallAlwaysOnEnable int Effect EffectStrength | CallAlwaysOnDisable int | CallGetCapabilities | CallGetPwleCompositionSizeMax |
  CallGetBandwidthAmplitudeMap "rat \<Rightarrow> rat" "rat \<Rightarrow> rat"

fun vib_call :: "(rat \<Rightarrow> rat) \<Rightarrow> vib_request \<Rightarrow> vibrator \<Rightarrow> (vstatus \<times> vibrator) option" where
  "vib_call lg (CallOn in_time t c) V = on_ms lg in_time t c V"
| "vib_call lg (CallPerform in_time effect strength c) V = map_option (\<lambda>(st, t, V). (st, V)) (perform lg in_time effect strength c V)"
| "vib_call lg (CallCompose in_time es c) V = compose lg in_time es c V"
| "vib_call lg (CallComposePwle overtakes es c) V = composePwle lg overtakes es c V"
| "vib_call lg CallOff V = off lg V"
| "vib_call lg (CallSetAmplitude a) V = setAmplitude lg a V"
| "vib_call lg (CallSetExternalControl b) V = setExternalControl lg b V"
| "vib_call lg (CallAlwaysOnEnable i effect strength) V = alwaysOnEnable lg i effect strength V"
| "vib_call lg (CallAlwaysOnDisable i) V = Some (alwaysOnDisable i V)"
| "vib_call lg CallGetCapabilities V = Some (VOk, snd (getCapabilities V))"
| "vib_call lg CallGetPwleCompositionSizeMax V = Some (VOk, snd (getPwleCompositionSizeMax V))"
| "vib_call lg (CallGetBandwidthAmplitudeMap pw sq) V = map_option (\<lambda>(st, m, V). (st, V)) (getBandwidthAmplitudeMap pw sq V)"

fun call_callback :: "vib_request \<Rightarrow> nat list" where
  "call_callback (CallOn in_time t c) = called_back c"
| "call_callback (CallPerform in_time effect strength c) = called_back c"
| "call_callback (CallCompose in_time es c) = called_back c"
| "call_callback (CallComposePwle overtakes es c) = called_back c"
| "call_callback _ = []"

fun overtaking :: "vib_request \<Rightarrow> bool" where
  "overtaking (CallComposePwle overtakes es c) = overtakes"
| "overtaking _ = False"

inductive vib_run :: "(rat \<Rightarrow> rat) \<Rightarrow> bool \<Rightarrow> vibrator \<Rightarrow> nat list \<Rightarrow> vibrator \<Rightarrow> bool" for lg ov V0 where
  start: "vib_run lg ov V0 [] V0"
| call: "vib_run lg ov V0 cs V \<Longrightarrow> overtaking c \<longrightarrow> ov \<Longrightarrow> vib_call lg c V = Some (st, V') \<Longrightarrow>
    vib_run lg ov V0 (cs @ (if st = VOk then call_callback c else [])) V'"
| complete: "vib_run lg ov V0 cs V \<Longrightarrow> vib_run lg ov V0 cs (waitForComplete V)"

lemma vib_call_callbacks:
  assumes "vib_call lg c V = Some (st, V')"
  shows "mset (callbacks V') = mset (callbacks V @ (if st = VOk then call_callback c else [])) \<and>
    (\<not> overtaking c \<longrightarrow> callbacks V' = callbacks V @ (if st = VOk then call_callback c else []))"
proof (cases c)
  case CallOff
  then obtain W where "same_async V W" "V' = W \<or> V' = W\<lparr>mActiveId := -1\<rparr>" using async.kept_off assms by fastforce
  then have "same_async V V'" by (auto simp: same_async_def)
  then show ?thesis using CallOff callbacks_same by simp
next
  case (CallComposePwle overtakes es callback)
  then show ?thesis using composePwle_callbacks assms by simp
qed (use assms in \<open>auto dest: on_ms_callbacks perform_callbacks compose_callbacks
    dest!: setExternalControl_async async.kept_setAmplitude async.kept_alwaysOnEnable async.kept_alwaysOnDisable async.kept_getBandwidthAmplitudeMap
    simp: callbacks_same [OF async.kept_getCapabilities [OF prod.collapse [symmetric]]]
      callbacks_same [OF async.kept_getPwleCompositionSizeMax [OF prod.collapse [symmetric]]] intro: callbacks_same
      arg_cong [where f = mset]\<close>)

lemma run_callbacks: "vib_run lg ov V0 cs V \<Longrightarrow> mset (callbacks V) = mset (callbacks V0 @ cs) \<and> (\<not> ov \<longrightarrow> callbacks V = callbacks V0 @ cs)"
  by (induction rule: vib_run.induct) (auto dest!: vib_call_callbacks)

text \<open>
  Claim C23. In every run of the service, whatever the driver answers and however long vibrations take, every call that succeeds is called back exactly once, at
  most one callback is outstanding, and it is made when the vibration completes; a call that is refused is never called back. The callbacks are made in
  the order of the calls, unless an envelope is started while a vibration is pending and its thread overtakes the other.
\<close>

theorem callbacks_once_in_order:
  assumes "vib_run lg ov V0 cs V" and "mAsyncHandle V0 = None"
  shows "mset (completed V @ pending V) = mset (completed V0 @ cs) \<and> length (pending V) \<le> 1 \<and>
    mset (completed (waitForComplete V)) = mset (completed V0 @ cs) \<and>
    (\<not> ov \<longrightarrow> completed V @ pending V = completed V0 @ cs \<and> completed (waitForComplete V) = completed V0 @ cs)"
proof -
  have all: "mset (completed V @ pending V) = mset (completed V0 @ cs)" "\<not> ov \<longrightarrow> completed V @ pending V = completed V0 @ cs"
    using run_callbacks [OF assms(1)] assms(2) by (simp_all add: callbacks_def pending_def)
  moreover have "length (pending V) \<le> 1" by (simp add: pending_def called_back_def split: option.split)
  moreover have "completed (waitForComplete V) = completed V @ pending V"
    using callbacks_complete(1) [of V] by (simp add: callbacks_def pending_def [of "waitForComplete V"])
  ultimately show ?thesis by metis
qed

definition sample_hw :: hwapi where
  "sample_hw = \<lparr>good = \<lambda>_. True, opened = \<lambda>_. True, accepts = \<lambda>n nd s. True, reads = \<lambda>n nd. Got 20, accesses = 0, sent = [],
     mRecords = replicate RECORDS_SIZE None\<rparr>"

definition sample_cal :: hwcal where
  "sample_cal = \<lparr>mCalData = Map.empty, prop_int = \<lambda>_. None, prop_float = \<lambda>_. None, prop_bool = \<lambda>_. Some True\<rparr>"

definition sample_vibrator :: vibrator where
  "sample_vibrator = \<lparr>mHwApi = sample_hw, mHwCal = sample_cal, mF0Offset = 0, mTickEffectVol = (50, 100), mClickEffectVol = (50, 100),
     mLongEffectVol = (0, 100), mEffectDurations = replicate 20 15, mAsyncHandle = None, mCompositionSizeMax = 82, mHapticPcm = None,
     mCard = 0, mDevice = 0, mHasHapticAlsaDevice = True, mIsUnderExternalControl = False, mResonantFrequency = 145, mRedc = 0,
     mActiveId = -1, mIsChirpEnabled = True, mBandwidthAmplitudeMap = Some [], mGenerateBandwidthAmplitudeMapDone = False,
     configHapticAlsaDeviceDone = True, pwleMaxLevelLimitMap = replicate 999 1, completed = [],
     pcm_log = [], pcm_count = 0, proc_pcm = None, pcm_starts = \<lambda>_. True\<rparr>"

lemma fl32_1 [simp]: "fl32 1 = 1" "fl32 0 = 0"
  using fl32_int [of 1] fl32_int [of 0] by simp_all

lemma scale_full: "amplitudeToScale (\<lambda>_. 0) 100 100 = Some 0"
  by (simp add: amplitudeToScale_def cast_u8_def round_away_int [of 0, simplified])

lemma sample_on: "\<exists>V. vib_call (\<lambda>_. 0) (CallOn True 100 (Some 7)) sample_vibrator = Some (VOk, V)"
  by (simp add: on_ms_def setGlobalAmplitude_def sample_vibrator_def VOLTAGE_SCALE_MAX_def scale_full put_def on_index_def put_ignored_def Let_def
      to_u32_def ck32_def MAX_COLD_START_LATENCY_MS_def split: prod.split)

theorem callbacks_once_in_order_witness:
  "\<exists>V. vib_run (\<lambda>_. 0) False sample_vibrator [7] V \<and> completed (waitForComplete V) = [7]"
proof -
  obtain V where "vib_call (\<lambda>_. 0) (CallOn True 100 (Some 7)) sample_vibrator = Some (VOk, V)" using sample_on by blast
  from vib_run.call [OF vib_run.start _ this] have run: "vib_run (\<lambda>_. 0) False sample_vibrator [7] V" by (simp add: called_back_def)
  moreover have "mAsyncHandle sample_vibrator = None" "completed sample_vibrator = []" by (simp_all add: sample_vibrator_def)
  ultimately show ?thesis using callbacks_once_in_order [OF run] by auto
qed

text \<open>The exception is real: an envelope that is started while a vibration is pending can be called back before it.\<close>

lemma envelope_overtakes:
  "callbacks (sample_vibrator\<lparr>mAsyncHandle := Some (Some 1)\<rparr>) = [1]"
  "completed (replace_handle True (Some 2) (sample_vibrator\<lparr>mAsyncHandle := Some (Some 1)\<rparr>)) = [2, 1]"
  by (simp_all add: callbacks_def pending_def called_back_def replace_handle_def waitForComplete_def put_ignored_frame sample_vibrator_def)

section \<open>Capabilities\<close>

lemma amplitude_capability: "CAP_AMPLITUDE_CONTROL \<in> set (fst (getCapabilities V)) \<longleftrightarrow> good (mHwApi V) mEffectScale"
  by (auto simp: getCapabilities_def has_def Let_def split: prod.split)


definition no_scale :: vibrator where
  "no_scale = sample_vibrator\<lparr>mHwApi := sample_hw\<lparr>good := (\<lambda>_. True)(mEffectScale := False)\<rparr>\<rparr>"


end
