(* ===== verification/Vibrator_Scale.thy ===== *)
theory Vibrator_Scale
  imports Vibrator_Props Complex_Main
begin

text \<open>
  The attenuation the driver is given for an amplitude, in steps of 1/8 dB: how close it is to the logarithm, and for which amplitudes the
  conversion to 8 bits is undefined.
\<close>

text \<open>The accuracy \<open>log10\<close> is relied on for.\<close>

definition log10_ok :: "(rat \<Rightarrow> rat) \<Rightarrow> bool" where
  "log10_ok lg \<longleftrightarrow> (\<forall>x. 0 < x \<and> x \<le> 1 \<longrightarrow> \<bar>real_of_rat (lg x) - log 10 (real_of_rat x)\<bar> \<le> 1 / 10 ^ 4)"

text \<open>The attenuation of a ratio of amplitudes in steps of 1/8 dB, as a real number.\<close>

definition attenuation :: "rat \<Rightarrow> real" where
  "attenuation q = - 160 * log 10 (real_of_rat q)"

lemma scale_rounding: "\<bar>fl32 (fl32 (-20 * L) / (1 / 8)) + 160 * L\<bar> \<le> \<bar>L\<bar> / 1000 + 1 / 1000"
proof -
  define p where "p = fl32 (-20 * L)"
  have "\<bar>p - (-20 * L)\<bar> \<le> \<bar>-20 * L\<bar> / 2 ^ 24 + 1 / 2 ^ 150" unfolding p_def by (rule fl32_near)
  moreover have "\<bar>-20 * L\<bar> / 2 ^ 24 \<le> \<bar>L\<bar> / 100000" "(1 :: rat) / 2 ^ 150 \<le> 1 / 100000" by (simp_all add: abs_mult)
  ultimately have p: "\<bar>p + 20 * L\<bar> \<le> \<bar>L\<bar> / 100000 + 1 / 100000" by simp
  have "\<bar>fl32 (8 * p) - 8 * p\<bar> \<le> \<bar>8 * p\<bar> / 2 ^ 24 + 1 / 2 ^ 150" by (rule fl32_near)
  moreover have "\<bar>8 * p\<bar> / 2 ^ 24 \<le> \<bar>p\<bar> / 1000000" "(1 :: rat) / 2 ^ 150 \<le> 1 / 100000" by (simp_all add: abs_mult)
  ultimately have "\<bar>fl32 (8 * p) - 8 * p\<bar> \<le> \<bar>p\<bar> / 1000000 + 1 / 100000" by linarith
  moreover have "\<bar>p\<bar> \<le> 21 * \<bar>L\<bar> + 1" using p by linarith
  ultimately have "\<bar>fl32 (8 * p) + 160 * L\<bar> \<le> \<bar>L\<bar> / 1000 + 1 / 1000" using p by linarith
  then show ?thesis by (simp add: p_def mult.commute)
qed

lemma scale_near:
  assumes "log10_ok lg" and "0 < q" and "q \<le> 1"
  shows "\<bar>real_of_int (round_away (fl32 (fl32 (-20 * lg q) / (1 / 8)))) - attenuation q\<bar> \<le> 13 / 25 + attenuation q / 100000"
proof -
  define n where "n = round_away (fl32 (fl32 (-20 * lg q) / (1 / 8)))"
  have "\<bar>of_int n - fl32 (fl32 (-20 * lg q) / (1 / 8))\<bar> \<le> 1 / 2" unfolding n_def by (rule round_away_near)
  then have "\<bar>of_int n + 160 * lg q\<bar> \<le> 1 / 2 + \<bar>lg q\<bar> / 1000 + 1 / 1000" using scale_rounding [of "lg q"] by linarith
  then have "real_of_rat \<bar>of_int n + 160 * lg q\<bar> \<le> real_of_rat (1 / 2 + \<bar>lg q\<bar> / 1000 + 1 / 1000)" by (simp only: of_rat_less_eq)
  moreover have "real_of_rat (of_int n + 160 * lg q) = real_of_int n + 160 * real_of_rat (lg q)" by (simp add: of_rat_add of_rat_mult)
  ultimately have n: "\<bar>real_of_int n + 160 * real_of_rat (lg q)\<bar> \<le> 1 / 2 + \<bar>real_of_rat (lg q)\<bar> / 1000 + 1 / 1000"
    by (metis (no_types, lifting) abs_of_rat of_rat_add of_rat_divide of_rat_1 of_rat_numeral_eq)
  have L: "\<bar>real_of_rat (lg q) - log 10 (real_of_rat q)\<bar> \<le> 1 / 10000" using assms by (simp add: log10_ok_def)
  have "log 10 (real_of_rat q) \<le> 0" using assms(2,3) by simp
  then show ?thesis using n L unfolding attenuation_def n_def [symmetric] by (simp only: abs_le_iff) linarith
qed

lemma amplitudeToScale_near:
  assumes "log10_ok lg" and "fl32 (a / m) = q" and "0 < q" and "q \<le> 1"
  shows "attenuation q \<le> 254 \<Longrightarrow> \<exists>n. amplitudeToScale lg a m = Some n \<and> 0 \<le> n \<and> n \<le> 255 \<and> \<bar>real_of_int n - attenuation q\<bar> \<le> 3 / 5"
    and "256 \<le> attenuation q \<Longrightarrow> amplitudeToScale lg a m = None"
proof -
  define n where "n = round_away (fl32 (fl32 (-20 * lg q) / (1 / 8)))"
  have near: "\<bar>real_of_int n - attenuation q\<bar> \<le> 13 / 25 + attenuation q / 100000" unfolding n_def by (rule scale_near [OF assms(1,3,4)])
  have scale: "amplitudeToScale lg a m = cast_u8 n" using assms(2,3) by (simp add: amplitudeToScale_def n_def)
  have "0 \<le> attenuation q" using assms(3,4) by (simp add: attenuation_def)
  show "\<exists>n. amplitudeToScale lg a m = Some n \<and> 0 \<le> n \<and> n \<le> 255 \<and> \<bar>real_of_int n - attenuation q\<bar> \<le> 3 / 5" if "attenuation q \<le> 254"
  proof -
    have close: "\<bar>real_of_int n - attenuation q\<bar> \<le> 3 / 5" using near that by linarith
    then have "- 1 < real_of_int n" "real_of_int n < 255" using \<open>0 \<le> attenuation q\<close> that by linarith+
    then have "0 \<le> n" "n < 255" by linarith+
    then show ?thesis using scale close by (intro exI [of _ n]) (simp add: cast_u8_def)
  qed
  show "amplitudeToScale lg a m = None" if "256 \<le> attenuation q"
  proof -
    have "255 < real_of_int n" using near that by linarith
    then have "255 < n" by linarith
    then show ?thesis using scale by (simp add: cast_u8_def)
  qed
qed

lemma attenuation_mono: "0 < p \<Longrightarrow> p \<le> q \<Longrightarrow> attenuation q \<le> attenuation p"
  by (simp add: attenuation_def of_rat_less_eq)

lemma log10_power: "0 < x \<Longrightarrow> log 10 (x ^ k) = real k * log 10 x" "log 10 (10 ^ k) = real k"
  by (simp_all only: log_nat_power) simp

lemma attenuation_ends: "attenuation (1 / 38) \<le> 254" "256 \<le> attenuation (1 / 40)"
proof -
  have "log 10 ((38 :: real) ^ 160) \<le> log 10 (10 ^ 254)" by (rule log_mono) simp_all
  then have "real 160 * log 10 38 \<le> real 254" by (simp only: log10_power zero_less_numeral)
  then show "attenuation (1 / 38) \<le> 254" by (simp add: attenuation_def of_rat_divide log_divide)
  have "log 10 ((10 :: real) ^ 256) \<le> log 10 (40 ^ 160)" by (rule log_mono) simp_all
  then have "real 256 \<le> real 160 * log 10 40" by (simp only: log10_power zero_less_numeral)
  then show "256 \<le> attenuation (1 / 40)" by (simp add: attenuation_def of_rat_divide log_divide)
qed

text \<open>
  Claim C28. An amplitude from 1/38 to 1, all of which the interface allows, is written to the driver as an attenuation of 0 to 255 steps of 1/8 dB
  that is within 3/5 of a step of the exact one. For an amplitude of 1/40 and below the attenuation does not fit
  into 8 bits, and the conversion is undefined.
\<close>

theorem setAmplitude_attenuation:
  assumes "log10_ok lg" and "fl32 a = a" and "0 < a" and "a \<le> 1" and "\<not> mIsUnderExternalControl V"
  shows "(1 / 38 \<le> a \<longrightarrow> (\<exists>n. setAmplitude lg (Num a) V = (let (ok, V') = put mEffectScale (decimal n) V in Some (if ok then VOk else IllegalState, V')) \<and>
      0 \<le> n \<and> n \<le> 255 \<and> \<bar>real_of_int n - attenuation a\<bar> \<le> 3 / 5)) \<and>
    (a \<le> 1 / 40 \<longrightarrow> setAmplitude lg (Num a) V = None)"
proof -
  have run: "setAmplitude lg (Num a) V = setEffectAmplitude lg a 1 V" using assms(3-5) by (simp add: setAmplitude_def)
  have q: "fl32 (a / 1) = a" using assms(2) by simp
  have "1 / 38 \<le> a \<Longrightarrow> attenuation a \<le> 254" using attenuation_mono [of "1 / 38" a] attenuation_ends(1) by simp
  moreover have "a \<le> 1 / 40 \<Longrightarrow> 256 \<le> attenuation a" using attenuation_mono [of a "1 / 40"] attenuation_ends(2) assms(3) by simp
  ultimately show ?thesis
    using amplitudeToScale_near [OF assms(1) q assms(3,4)] unfolding run setEffectAmplitude_def by fastforce
qed

definition log10_floor :: "rat \<Rightarrow> rat" where
  "log10_floor x = of_int \<lfloor>10 ^ 4 * log 10 (real_of_rat x)\<rfloor> / 10 ^ 4"

lemma log10_floor_ok: "log10_ok log10_floor"
  unfolding log10_ok_def
proof (intro allI impI)
  fix x :: rat
  let ?l = "log 10 (real_of_rat x)"
  define k where "k = real_of_int \<lfloor>10000 * ?l\<rfloor>"
  have "k \<le> 10000 * ?l" "10000 * ?l < k + 1" unfolding k_def by linarith+
  then have "\<bar>k / 10000 - ?l\<bar> \<le> 1 / 10000" by linarith
  moreover have eq: "real_of_rat (log10_floor x) = k / 10000" by (simp add: log10_floor_def of_rat_divide k_def)
  ultimately show "\<bar>real_of_rat (log10_floor x) - ?l\<bar> \<le> 1 / 10 ^ 4" unfolding eq by simp
qed

lemma fl32_64: "fl32 (1 / 64) = 1 / 64"
  by code_simp

theorem setAmplitude_attenuation_witness:
  "(\<exists>n st V. setAmplitude log10_floor (Num 1) sample_vibrator = Some (st, V) \<and> 0 \<le> n \<and> \<bar>real_of_int n - attenuation 1\<bar> \<le> 3 / 5) \<and>
   setAmplitude log10_floor (Num (1 / 64)) sample_vibrator = None"
proof -
  have free: "\<not> mIsUnderExternalControl sample_vibrator" by (simp add: sample_vibrator_def)
  show ?thesis
    using setAmplitude_attenuation [OF log10_floor_ok _ _ _ free, of 1] setAmplitude_attenuation [OF log10_floor_ok fl32_64 _ _ free]
    by (auto simp: split_beta)
qed

end
