(* ===== verification/Vibrator_External.thy ===== *)
theory Vibrator_External
  imports Vibrator_Props
begin

text \<open>
  External control: the sound device that is opened for it. As long as writing the node for external playback succeeds, at most one device is
  open, and only under external control; a failure of that node leaks the device.
\<close>

section \<open>Open devices\<close>

fun open_pcms :: "pcm_event list \<Rightarrow> nat list" where
  "open_pcms [] = []"
| "open_pcms (PcmOpen p # es) = (if PcmClose p \<in> set es then open_pcms es else p # open_pcms es)"
| "open_pcms (PcmClose p # es) = open_pcms es"

definition asp_works :: "vibrator \<Rightarrow> bool" where
  "asp_works V \<longleftrightarrow> (good (mHwApi V) mAspEnable \<longrightarrow> opened (mHwApi V) mAspEnable \<and> (\<forall>n s. accepts (mHwApi V) n mAspEnable s))"

definition sound_inv :: "vibrator \<Rightarrow> bool" where
  "sound_inv V \<longleftrightarrow> asp_works V \<and> (mHapticPcm V \<noteq> None \<longrightarrow> mIsUnderExternalControl V \<and> mHasHapticAlsaDevice V) \<and>
     open_pcms (pcm_log V) = (case mHapticPcm V of None \<Rightarrow> [] | Some p \<Rightarrow> [p]) \<and>
     (\<forall>p. PcmOpen p \<in> set (pcm_log V) \<or> PcmClose p \<in> set (pcm_log V) \<longrightarrow> p < pcm_count V)"

lemma open_pcms_open: "PcmOpen p \<notin> set es \<Longrightarrow> PcmClose p \<notin> set es \<Longrightarrow> open_pcms (es @ [PcmOpen p]) = open_pcms es @ [p]"
  by (induction es rule: open_pcms.induct) auto

lemma open_pcms_close: "open_pcms (es @ [PcmClose p]) = removeAll p (open_pcms es)"
  by (induction es rule: open_pcms.induct) auto

lemma open_pcms_opened: "p \<in> set (open_pcms es) \<Longrightarrow> PcmOpen p \<in> set es"
  by (induction es rule: open_pcms.induct) (auto split: if_splits)

text \<open>What all other operations keep.\<close>

definition same_sound :: "vibrator \<Rightarrow> vibrator \<Rightarrow> bool" where
  "same_sound V V' \<longleftrightarrow> mHapticPcm V' = mHapticPcm V \<and> pcm_log V' = pcm_log V \<and> pcm_count V' = pcm_count V \<and>
     mIsUnderExternalControl V' = mIsUnderExternalControl V \<and> (mHasHapticAlsaDevice V \<longrightarrow> mHasHapticAlsaDevice V') \<and>
     good (mHwApi V') mAspEnable = good (mHwApi V) mAspEnable \<and> opened (mHwApi V') = opened (mHwApi V) \<and>
     accepts (mHwApi V') = accepts (mHwApi V)"

lemma same_sound_inv: "same_sound V V' \<Longrightarrow> sound_inv V \<Longrightarrow> sound_inv V'"
  by (simp add: same_sound_def sound_inv_def asp_works_def)

lemma set_node_frame [simp]:
  "opened (snd (set_node nd s h)) = opened h" "accepts (snd (set_node nd s h)) = accepts h" "reads (snd (set_node nd s h)) = reads h"
  "nd' \<noteq> nd \<Longrightarrow> good (snd (set_node nd s h)) nd' = good h nd'"
  by (simp_all add: set_node_def hw_record_def Let_def)

lemma get_node_frame [simp]:
  "opened (snd (snd (get_node nd h))) = opened h" "accepts (snd (snd (get_node nd h))) = accepts h"
  "nd' \<noteq> nd \<Longrightarrow> good (snd (snd (get_node nd h))) nd' = good h nd'"
  by (simp_all add: get_node_def hw_record_def Let_def split: prod.split)

interpretation sound: kept same_sound
  by unfold_locales (auto simp: same_sound_def hasHapticAlsaDevice_def Let_def split: option.split)

lemma waitForComplete_sound: "same_sound V (waitForComplete V)"
  by (auto simp: waitForComplete_def same_sound_def put_ignored_frame Let_def split: option.split)

section \<open>External control\<close>

lemma sound_inv_close: "sound_inv V \<Longrightarrow> sound_inv (pcm_close V) \<and> mHapticPcm (pcm_close V) = None"
  using open_pcms_opened [of _ "pcm_log V"] by (cases "mHapticPcm V") (auto simp: sound_inv_def pcm_close_def asp_works_def open_pcms_close)

lemma sound_inv_asp:
  assumes "sound_inv V"
  shows "\<exists>V'. (if has mAspEnable (mHwApi V) then put mAspEnable s V else (True, V)) = (True, V') \<and> same_sound V V'"
proof (cases "has mAspEnable (mHwApi V)")
  case True
  then have "good (mHwApi V) mAspEnable" "opened (mHwApi V) mAspEnable" "accepts (mHwApi V) (accesses (mHwApi V)) mAspEnable s"
    using assms by (simp_all add: has_def sound_inv_def asp_works_def)
  then show ?thesis using True by (simp add: put_def set_node_def hw_record_def same_sound_def Let_def)
qed (simp add: sound.same)

lemma drive_off:
  assumes "sound_inv V"
  shows "\<exists>V'. drive_external False V = (True, V') \<and> sound_inv V' \<and> mHapticPcm V' = None \<and> mIsUnderExternalControl V' = mIsUnderExternalControl V"
proof -
  define W where "W = (if mHasHapticAlsaDevice V then pcm_close V else V)"
  have W: "sound_inv W" "mHapticPcm W = None" "mIsUnderExternalControl W = mIsUnderExternalControl V"
    using assms sound_inv_close [OF assms] by (auto simp: W_def pcm_close_def sound_inv_def split: option.split)
  have "drive_external False V = (if has mAspEnable (mHwApi W) then put mAspEnable (bool_text False) W else (True, W))"
    by (simp add: drive_external_def enableHapticPcmAmp_def W_def)
  then show ?thesis
    using sound_inv_asp [OF W(1), of "bool_text False"] same_sound_inv [OF _ W(1)] W by (auto simp: same_sound_def)
qed

lemma drive_on:
  assumes "sound_inv V" and "mHapticPcm V = None"
  shows "\<exists>ok V'. drive_external True V = (ok, V') \<and> (if ok then sound_inv (V'\<lparr>mIsUnderExternalControl := True\<rparr>) else sound_inv V')"
proof (cases "mHasHapticAlsaDevice V")
  case False
  then have "drive_external True V = (if has mAspEnable (mHwApi V) then put mAspEnable (bool_text True) V else (True, V))"
    by (simp add: drive_external_def)
  then show ?thesis
    using sound_inv_asp [OF assms(1), of "bool_text True"] assms by (auto simp: same_sound_def sound_inv_def asp_works_def)
next
  case True
  let ?p = "pcm_count V"
  define W where "W = V\<lparr>mHapticPcm := Some ?p, pcm_count := ?p + 1, pcm_log := pcm_log V @ [PcmOpen ?p]\<rparr>"
  have fresh: "PcmOpen ?p \<notin> set (pcm_log V)" "PcmClose ?p \<notin> set (pcm_log V)" using assms(1) by (auto simp: sound_inv_def)
  have W: "sound_inv (W\<lparr>mIsUnderExternalControl := True\<rparr>)"
    using assms True open_pcms_open [OF fresh] by (auto simp: sound_inv_def W_def asp_works_def less_Suc_eq)
  show ?thesis
  proof (cases "pcm_starts V ?p")
    case False
    then have "drive_external True V = (False, pcm_close W)" using True by (simp add: drive_external_def enableHapticPcmAmp_def W_def Let_def)
    moreover have "sound_inv (pcm_close W)"
      using assms True open_pcms_open [OF fresh] open_pcms_close [of "pcm_log V @ [PcmOpen ?p]" ?p]
      by (auto simp: sound_inv_def W_def asp_works_def pcm_close_def open_pcms_close less_Suc_eq)
    ultimately show ?thesis by auto
  next
    case started: True
    have "drive_external True V = (if has mAspEnable (mHwApi W) then put mAspEnable (bool_text True) W else (True, W))"
      using True started by (simp add: drive_external_def enableHapticPcmAmp_def W_def Let_def)
    moreover obtain V' where "(if has mAspEnable (mHwApi W) then put mAspEnable (bool_text True) W else (True, W)) = (True, V')" "same_sound W V'"
      using sound_inv_asp [OF W, of "bool_text True"] by (auto simp: put_def same_sound_def split: if_splits prod.splits)
    moreover have "sound_inv (V'\<lparr>mIsUnderExternalControl := True\<rparr>)"
      using same_sound_inv [OF _ W, of "V'\<lparr>mIsUnderExternalControl := True\<rparr>"] \<open>same_sound W V'\<close> by (simp add: same_sound_def)
    ultimately show ?thesis by auto
  qed
qed

lemma setExternalControl_inv:
  assumes "setExternalControl lg b V = Some (st, V')" and "sound_inv V"
  shows "sound_inv V'"
proof -
  obtain st1 V1 where V1: "setGlobalAmplitude lg b V = Some (st1, V1)"
    using assms(1) by (auto simp: setExternalControl_def split: bind_splits)
  have inv1: "sound_inv V1" using same_sound_inv [OF sound.kept_setGlobalAmplitude [OF V1] assms(2)] .
  obtain W where W: "drive_external False V1 = (True, W)" "sound_inv W" "mHapticPcm W = None" "mIsUnderExternalControl W = mIsUnderExternalControl V1"
    using drive_off [OF inv1] by blast
  show ?thesis
  proof (cases b)
    case False
    have "sound_inv (W\<lparr>mIsUnderExternalControl := False\<rparr>)" using W(2,3) by (simp add: sound_inv_def asp_works_def)
    then show ?thesis using assms(1) V1 inv1 W False by (auto simp: setExternalControl_def split: if_splits)
  next
    case True
    define U where "U = (if mIsUnderExternalControl V1 then W else V1)"
    have U: "sound_inv U" "mHapticPcm U = None" using W inv1 by (auto simp: U_def sound_inv_def)
    obtain ok V2 where V2: "drive_external True U = (ok, V2)" "if ok then sound_inv (V2\<lparr>mIsUnderExternalControl := True\<rparr>) else sound_inv V2"
      using drive_on [OF U] by blast
    have "setExternalControl lg True V = (if \<not> ok then Some (IllegalState, V2) else Some (VOk, V2\<lparr>mIsUnderExternalControl := True\<rparr>))"
      using V1 W(1) V2(1) True by (cases "mIsUnderExternalControl V1") (simp_all add: setExternalControl_def U_def)
    then show ?thesis using assms(1) V2(2) True by (auto split: if_splits)
  qed
qed

section \<open>Runs\<close>

lemma on_index_inv:
  assumes "on_index lg in_time t i callback V = Some (st, V')" and "sound_inv V"
  shows "sound_inv V'"
proof -
  obtain W where W: "(if mIsUnderExternalControl V then map_option snd (setExternalControl lg False V) else Some V) = Some W"
    using assms(1) unfolding on_index_def by (auto split: bind_splits)
  then have inv: "sound_inv W" using setExternalControl_inv assms(2) by (auto split: if_splits)
  have "same_sound W V'"
    using assms(1) waitForComplete_sound [of W] unfolding on_index_def W by (auto simp: Let_def same_sound_def put_ignored_frame split: if_splits)
  then show ?thesis using same_sound_inv inv by blast
qed

lemma perform_index_inv:
  assumes "perform_index lg in_time i v q callback V = Some (st, V')" and "sound_inv V"
  shows "sound_inv V'"
  using assms unfolding perform_index_def setEffectQueue_def
  by (auto simp: Let_def split: bind_splits if_splits prod.splits
      dest!: on_index_inv sound.kept_setEffectAmplitude sound.kept_put intro: same_sound_inv)

lemma on_ms_inv:
  assumes "on_ms lg in_time t callback V = Some (st, V')" and "sound_inv V"
  shows "sound_inv V'"
proof -
  obtain st1 V1 t1 where V1: "setGlobalAmplitude lg True V = Some (st1, V1)"
      "on_index lg in_time t1 WAVEFORM_LONG_VIBRATION_EFFECT_INDEX callback (put_ignored mF0Offset_node (decimal (mF0Offset V1)) V1) = Some (st, V')"
    using assms(1) by (auto simp: on_ms_def Let_def split: bind_splits)
  have "same_sound V (put_ignored mF0Offset_node (decimal (mF0Offset V1)) V1)" using sound.kept_put_ignored [OF sound.kept_setGlobalAmplitude [OF V1(1)]] by simp
  then show ?thesis using on_index_inv [OF V1(2)] same_sound_inv assms(2) by blast
qed

lemma replace_handle_sound: "same_sound V W \<Longrightarrow> same_sound V (replace_handle overtakes callback W)"
  by (auto simp: replace_handle_def waitForComplete_def same_sound_def put_ignored_frame Let_def split: option.split)

lemma composePwle_sound:
  assumes "composePwle lg overtakes es callback V = Some (st, V')"
  shows "same_sound V V'"
  using assms unfolding composePwle_def play_pwle_def
  by (auto simp: Let_def sound.same split: bind_splits if_splits sum.splits prod.splits dest!: sound.kept_setEffectAmplitude sound.kept_put
      intro!: replace_handle_sound sound.kept_put_ignored intro: sound.trans)

lemma vib_call_inv:
  assumes "vib_call lg c V = Some (st, V')" and "sound_inv V"
  shows "sound_inv V'"
proof (cases c)
  case CallOff
  then obtain W where "same_sound V W" "V' = W \<or> V' = W\<lparr>mActiveId := -1\<rparr>" using sound.kept_off assms(1) by fastforce
  then have "same_sound V V'" by (auto simp: same_sound_def)
  then show ?thesis using same_sound_inv assms(2) by blast
next
  case (CallPerform in_time effect strength callback)
  then show ?thesis using assms perform_index_inv by (auto simp: perform_def split: bind_splits if_splits sum.splits prod.splits)
next
  case (CallCompose in_time es callback)
  then show ?thesis using assms perform_index_inv by (auto simp: compose_def split: bind_splits if_splits sum.splits)
next
  case (CallOn in_time t callback)
  then show ?thesis using assms on_ms_inv by simp
next
  case (CallSetExternalControl b)
  then show ?thesis using assms setExternalControl_inv by simp
next
  case (CallComposePwle overtakes es callback)
  then show ?thesis using assms composePwle_sound same_sound_inv by fastforce
qed (use assms same_sound_inv in \<open>auto dest!: sound.kept_setAmplitude sound.kept_alwaysOnEnable sound.kept_alwaysOnDisable sound.kept_getBandwidthAmplitudeMap
    simp: same_sound_inv [OF sound.kept_getCapabilities [OF prod.collapse [symmetric]]]
      same_sound_inv [OF sound.kept_getPwleCompositionSizeMax [OF prod.collapse [symmetric]]]\<close>)

lemma run_sound: "vib_run lg ov V0 cs V \<Longrightarrow> sound_inv V0 \<Longrightarrow> sound_inv V"
  by (induction rule: vib_run.induct) (auto intro: vib_call_inv same_sound_inv [OF waitForComplete_sound])

text \<open>
  Claim C26. In every run from a state without an open sound device, as long as the node for external playback accepts what is written, at most one
  device is open, it is the one the service holds, and it is held only under external control; every other device opened was
  closed, whichever devices fail to start.
\<close>

theorem one_sound_device:
  assumes "vib_run lg ov V0 cs V" and "asp_works V0" and "mHapticPcm V0 = None" and "pcm_log V0 = []"
  shows "open_pcms (pcm_log V) = (case mHapticPcm V of None \<Rightarrow> [] | Some p \<Rightarrow> [p]) \<and>
    (\<not> mIsUnderExternalControl V \<longrightarrow> open_pcms (pcm_log V) = [])"
proof -
  have "sound_inv V0" using assms(2-4) by (simp add: sound_inv_def)
  then have "sound_inv V" by (rule run_sound [OF assms(1)])
  then show ?thesis by (auto simp: sound_inv_def split: option.split)
qed

lemma sample_asp: "asp_works sample_vibrator" "mHapticPcm sample_vibrator = None" "pcm_log sample_vibrator = []"
  by (simp_all add: asp_works_def sample_vibrator_def sample_hw_def)

lemma sample_external:
  "\<exists>V. setExternalControl (\<lambda>_. 0) True sample_vibrator = Some (VOk, V) \<and> mHapticPcm V = Some 0 \<and> mIsUnderExternalControl V"
  by (simp add: setExternalControl_def setGlobalAmplitude_def sample_vibrator_def VOLTAGE_SCALE_MAX_def scale_full put_def drive_external_def
      enableHapticPcmAmp_def Let_def set_node_def sample_hw_def hw_record_def)

theorem one_sound_device_witness:
  "\<exists>V. vib_run (\<lambda>_. 0) True sample_vibrator [] V \<and> mIsUnderExternalControl V \<and> open_pcms (pcm_log V) = [0]"
proof -
  obtain V where V: "vib_call (\<lambda>_. 0) (CallSetExternalControl True) sample_vibrator = Some (VOk, V)" "mHapticPcm V = Some 0" "mIsUnderExternalControl V"
    using sample_external by auto
  from vib_run.call [OF vib_run.start _ V(1)] have run: "vib_run (\<lambda>_. 0) True sample_vibrator [] V" by simp
  then show ?thesis using one_sound_device [OF run sample_asp] V by auto
qed

text \<open>A driver that refuses to enable external playback.\<close>

definition no_asp :: vibrator where
  "no_asp = sample_vibrator\<lparr>mHwApi := sample_hw\<lparr>accepts := \<lambda>n nd s. nd \<noteq> mAspEnable\<rparr>\<rparr>"


end
