(* ===== verification/Vibrator_Compose.thy ===== *)
theory Vibrator_Compose
  imports Vibrator_Props
begin

text \<open>
  Compositions: which are refused, and what the others write to the queue of the driver, as a list of pauses and effects that can be
  read back from the text; and the levels of effects.
\<close>

section \<open>The queue and its text\<close>

datatype queue_item = Pause int | Play int int

fun print_item :: "queue_item \<Rightarrow> string" where
  "print_item (Pause d) = decimal d @ '',''"
| "print_item (Play i v) = decimal i @ ''.'' @ decimal v @ '',''"

definition print_queue :: "queue_item list \<Rightarrow> string" where
  "print_queue items = concat (map print_item items) @ ''0''"

definition undecimal :: "string \<Rightarrow> int" where
  "undecimal s = (case s of c # ds \<Rightarrow> if c = CHR ''-'' then - int (undigits ds) else int (undigits s) | [] \<Rightarrow> 0)"

definition parse_item :: "string \<Rightarrow> queue_item" where
  "parse_item s =
     (if CHR ''.'' \<in> set s
      then Play (undecimal (takeWhile (\<lambda>c. c \<noteq> CHR ''.'') s)) (undecimal (tl (dropWhile (\<lambda>c. c \<noteq> CHR ''.'') s)))
      else Pause (undecimal s))"

function parse_queue :: "string \<Rightarrow> queue_item list option" where
  "parse_queue s =
     (if s = ''0'' then Some []
      else case dropWhile (\<lambda>c. c \<noteq> CHR '','') s of
        [] \<Rightarrow> None
      | _ # rest \<Rightarrow> map_option ((#) (parse_item (takeWhile (\<lambda>c. c \<noteq> CHR '','') s))) (parse_queue rest))"
  by pat_completeness auto

termination
proof (relation "measure length")
  fix s :: string and c rest
  assume "dropWhile (\<lambda>c. c \<noteq> CHR '','') s = c # rest"
  then have "length (c # rest) \<le> length s" by (metis length_dropWhile_le)
  then show "(rest, s) \<in> measure length" by simp
qed simp

declare parse_queue.simps [simp del]

lemma digits_plain: "c \<in> set (digits n) \<Longrightarrow> is_digit c"
  using digits_are_digits [of n] by (simp add: list_all_iff)

lemma not_digit: "\<not> is_digit CHR ''-''" "\<not> is_digit CHR '',''" "\<not> is_digit CHR ''.''"
  by (simp_all add: is_digit_def)

lemma decimal_plain: "CHR '','' \<notin> set (decimal i)" "CHR ''.'' \<notin> set (decimal i)"
  using digits_plain not_digit by (auto simp: decimal_def)

lemma undecimal_decimal [simp]: "undecimal (decimal i) = i"
proof (cases "i < 0")
  case True
  then show ?thesis by (simp add: undecimal_def decimal_def)
next
  case False
  obtain c cs where ds: "digits (nat i) = c # cs" using digits_nonempty by (meson list.exhaust)
  then have "c \<noteq> CHR ''-''" using digits_plain [of c "nat i"] not_digit(1) by auto
  then have "undecimal (digits (nat i)) = int (undigits (digits (nat i)))" by (simp add: undecimal_def ds)
  then show ?thesis using False by (simp add: decimal_def)
qed

lemma decimal_nonempty [simp]: "decimal i \<noteq> []"
  by (simp add: decimal_def)

lemma takeWhile_stop: "c \<notin> set xs \<Longrightarrow> takeWhile (\<lambda>x. x \<noteq> c) (xs @ c # ys) = xs"
  by (induction xs) auto

lemma dropWhile_stop: "c \<notin> set xs \<Longrightarrow> dropWhile (\<lambda>x. x \<noteq> c) (xs @ c # ys) = c # ys"
  by (induction xs) auto

lemma parse_item_print:
  "\<exists>s. print_item it = s @ '','' \<and> CHR '','' \<notin> set s \<and> parse_item s = it"
proof (cases it)
  case (Pause d)
  then show ?thesis using decimal_plain [of d] by (auto simp: parse_item_def)
next
  case (Play i v)
  let ?s = "decimal i @ CHR ''.'' # decimal v"
  have "parse_item ?s = Play i v"
    using takeWhile_stop [OF decimal_plain(2), of i "decimal v"] dropWhile_stop [OF decimal_plain(2), of i "decimal v"] by (simp add: parse_item_def)
  moreover have "CHR '','' \<notin> set ?s" using decimal_plain by auto
  moreover have "print_item it = ?s @ '',''" using Play by simp
  ultimately show ?thesis using Play by blast
qed

lemma parse_print_queue: "parse_queue (print_queue items) = Some items"
proof (induction items)
  case Nil
  then show ?case by (simp add: print_queue_def parse_queue.simps)
next
  case (Cons it items)
  obtain s where s: "print_item it = s @ '',''" "CHR '','' \<notin> set s" "parse_item s = it" using parse_item_print by blast
  have q: "print_queue (it # items) = s @ CHR '','' # print_queue items" by (simp add: print_queue_def s(1))
  have "print_queue (it # items) \<noteq> ''0''" unfolding q by (cases s) (auto simp: print_queue_def)
  then show ?case
    unfolding q using Cons.IH dropWhile_stop [OF s(2)] takeWhile_stop [OF s(2)] s(3) by (subst parse_queue.simps) simp
qed

section \<open>Compositions\<close>

text \<open>The specification: the status an effect is refused with, and the items of one that is not.\<close>

definition refusal :: "CompositeEffect \<Rightarrow> vstatus option" where
  "refusal e =
     (if flt_less (scale e) 0 \<or> flt_greater (scale e) 1 \<or> 10000 < delayMs e then Some IllegalArgument
      else case primitive e of OtherPrimitive _ \<Rightarrow> Some Unsupported | _ \<Rightarrow> None)"

definition effect_items :: "vibrator \<Rightarrow> CompositeEffect \<Rightarrow> queue_item list" where
  "effect_items V e =
     (if delayMs e \<noteq> 0 then [Pause (delayMs e)] else []) @
     (case getPrimitiveDetails (primitive e) of Inl _ \<Rightarrow> [] | Inr i \<Rightarrow> [Play i (the (intensityToVolLevel (scale e) i V))])"

lemma compose_text_spec:
  assumes "\<forall>e \<in> set es. scale e \<noteq> NaN"
  shows "compose_text V es = Some (case find (\<lambda>e. refusal e \<noteq> None) es of
      Some e \<Rightarrow> Inl (the (refusal e))
    | None \<Rightarrow> Inr (concat (map print_item (concat (map (effect_items V) es)))))"
  using assms
proof (induction es)
  case (Cons e es)
  then have IH: "compose_text V es = Some (case find (\<lambda>e. refusal e \<noteq> None) es of
      Some e \<Rightarrow> Inl (the (refusal e))
    | None \<Rightarrow> Inr (concat (map print_item (concat (map (effect_items V) es)))))" by simp
  show ?case
  proof (cases "flt_less (scale e) 0 \<or> flt_greater (scale e) 1 \<or> 10000 < delayMs e")
    case True
    then show ?thesis by (auto simp: refusal_def COMPOSE_DELAY_MAX_MS_def)
  next
    case False
    then have "\<exists>x. scale e = Num x" using Cons.prems flt_between [of "scale e" 0 1] by auto
    then have vol: "intensityToVolLevel (scale e) i V \<noteq> None" for i by (auto simp: intensityToVolLevel_def calc_vol_def)
    show ?thesis
    proof (cases "getPrimitiveDetails (primitive e)")
      case (Inl st)
      then have "primitive e = NOOP \<or> (\<exists>n. primitive e = OtherPrimitive n) \<and> st = Unsupported"
        by (auto simp: getPrimitiveDetails_def split: CompositePrimitive.splits)
      then show ?thesis
        using False Inl IH by (auto simp: refusal_def [of e] COMPOSE_DELAY_MAX_MS_def effect_items_def [of V e] Let_def split: option.splits)
    next
      case (Inr i)
      then have p: "primitive e \<noteq> NOOP" "refusal e = None"
        using False by (auto simp: refusal_def getPrimitiveDetails_def split: CompositePrimitive.splits)
      obtain v where "intensityToVolLevel (scale e) i V = Some v" using vol by blast
      then show ?thesis
        using False Inr IH p by (auto simp: COMPOSE_DELAY_MAX_MS_def effect_items_def [of V e] Let_def split: option.splits)
    qed
  qed
qed simp

text \<open>
  Claim C24. A composition without invalid numbers returns in one of three ways. It is refused with nothing written: as an illegal argument if
  it is longer than 127, if the first effect that is wrong has a scale outside of 0 to 1 or a delay above 10 seconds, or if it
  contains nothing to play; as unsupported if that effect is an unknown primitive. Otherwise the queue written is the text of its pauses and
  effects in order, from which they can be read back.
\<close>

theorem compose_exact:
  assumes "\<forall>e \<in> set es. scale e \<noteq> NaN"
  shows "compose lg in_time es callback V =
      (if 127 < length es then Some (IllegalArgument, V)
       else case find (\<lambda>e. refusal e \<noteq> None) es of
         Some e \<Rightarrow> Some (the (refusal e), V)
       | None \<Rightarrow>
           let items = concat (map (effect_items V) es) in
           if items = [] then Some (IllegalArgument, V) else perform_index lg in_time 0 0 (print_queue items) callback V) \<and>
    parse_queue (print_queue (concat (map (effect_items V) es))) = Some (concat (map (effect_items V) es))"
proof -
  have "concat (map print_item items) = [] \<longleftrightarrow> items = []" for items
    by (cases items) (auto, metis Nil_is_append_conv not_Cons_self2 parse_item_print)
  then show ?thesis
    using compose_text_spec [OF assms, of V] parse_print_queue
    by (auto simp: compose_def COMPOSE_SIZE_MAX_def print_queue_def Let_def split: option.splits)
qed

definition sample_composition :: "CompositeEffect list" where
  "sample_composition = [\<lparr>delayMs = 30, primitive = P_CLICK, scale = Num 1\<rparr>, \<lparr>delayMs = 0, primitive = P_QUICK_RISE, scale = Num 0\<rparr>]"

lemma fl32_hundreds: "fl32 50 = 50" "fl32 100 = 100"
  using fl32_int [of 50] fl32_int [of 100] by simp_all

lemma sample_items: "concat (map (effect_items sample_vibrator) sample_composition) = [Pause 30, Play 2 100, Play 6 0]"
  using round_away_int [of 50] round_away_int [of 0]
  by (simp add: effect_items_def sample_composition_def sample_vibrator_def getPrimitiveDetails_def intensityToVolLevel_def calc_vol_def to_u32_def
      fl32_hundreds WAVEFORM_CLICK_INDEX_def WAVEFORM_QUICK_RISE_INDEX_def WAVEFORM_QUICK_FALL_INDEX_def WAVEFORM_LIGHT_TICK_INDEX_def)

lemma sample_queue: "print_queue [Pause 30, Play 2 100, Play 6 0] = ''30,2.100,6.0,0''"
  by code_simp

lemma sample_valid: "\<forall>e \<in> set sample_composition. scale e \<noteq> NaN" "find (\<lambda>e. refusal e \<noteq> None) sample_composition = None"
  "length sample_composition = 2"
  by (simp_all add: sample_composition_def refusal_def)

theorem compose_exact_witness:
  "compose (\<lambda>_. 0) True sample_composition None sample_vibrator = perform_index (\<lambda>_. 0) True 0 0 ''30,2.100,6.0,0'' None sample_vibrator"
  using compose_exact [OF sample_valid(1), of "\<lambda>_. 0" True None sample_vibrator] sample_valid(2,3) sample_items sample_queue by simp

section \<open>Levels\<close>

text \<open>
  For calibrated levels \<open>v\<^sub>0 \<le> v\<^sub>1\<close> below \<open>2 ^ 22\<close> and an intensity between 0 and 1, rounding to single precision never takes the
  level of an effect outside of \<open>v\<^sub>0\<close> to \<open>v\<^sub>1\<close>, the two ends are met exactly, and the level is within 3/4 of the linear function.
\<close>

theorem level_between:
  assumes "0 \<le> v\<^sub>0" and "v\<^sub>0 \<le> v\<^sub>1" and "v\<^sub>1 < 2 ^ 22" and "0 \<le> x" and "x \<le> 1"
  shows "\<exists>l. calc_vol (Num x) (v\<^sub>0, v\<^sub>1) = Some l \<and> v\<^sub>0 \<le> l \<and> l \<le> v\<^sub>1 \<and> (x = 0 \<longrightarrow> l = v\<^sub>0) \<and> (x = 1 \<longrightarrow> l = v\<^sub>1) \<and>
    \<bar>of_int l - (of_int v\<^sub>0 + x * of_int (v\<^sub>1 - v\<^sub>0))\<bar> \<le> 3 / 4"
proof -
  define d where "d = v\<^sub>1 - v\<^sub>0"
  have d: "0 \<le> d" "d < 2 ^ 22" using assms(1-3) by (simp_all add: d_def)
  then have D: "fl32 (of_int (to_u32 d)) = of_int d" using fl32_int [of d] by (simp add: to_u32_def)
  define y where "y = x * of_int d"
  have "of_int d < (of_int (2 ^ 22) :: rat)" using d(2) by (simp only: of_int_less_iff)
  moreover have y: "0 \<le> y" "y \<le> of_int d" using assms(4,5) d(1) by (simp_all add: y_def mult_left_le_one_le)
  ultimately have "\<bar>y\<bar> / 2 ^ 24 + 1 / 2 ^ 150 < 1 / 4" by simp
  then have near: "\<bar>fl32 y - y\<bar> < 1 / 4" using fl32_near [of y] by (rule order.strict_trans1 [rotated])
  define r where "r = round_away (fl32 y)"
  have r: "\<bar>of_int r - fl32 y\<bar> \<le> 1 / 2" unfolding r_def by (rule round_away_near)
  have close: "\<bar>of_int r - y\<bar> < 3 / 4" using near r by linarith
  have "of_int r < of_int d + (1 :: rat)" "- 1 < (of_int r :: rat)" using close y by linarith+
  then have "(of_int r :: rat) < of_int (d + 1)" "of_int (- 1) < (of_int r :: rat)" by simp_all
  then have "r < d + 1" "- 1 < r" by (simp_all only: of_int_less_iff)
  then have range: "0 \<le> r" "r \<le> d" by simp_all
  have v1: "v\<^sub>1 = v\<^sub>0 + d" by (simp add: d_def)
  have "to_u32 (r + v\<^sub>0) = r + v\<^sub>0" using range assms(1,3) v1 by (simp add: to_u32_def)
  then have l: "calc_vol (Num x) (v\<^sub>0, v\<^sub>1) = Some (r + v\<^sub>0)" by (simp add: calc_vol_def v1 D r_def y_def)
  have ends: "x = 0 \<longrightarrow> r = 0" "x = 1 \<longrightarrow> r = d"
    using round_away_int [of 0] fl32_int [of d] d by (auto simp: r_def y_def)
  have "of_int (r + v\<^sub>0) - (of_int v\<^sub>0 + x * of_int (v\<^sub>1 - v\<^sub>0)) = of_int r - y" by (simp add: v1 y_def)
  then have "\<bar>of_int (r + v\<^sub>0) - (of_int v\<^sub>0 + x * of_int (v\<^sub>1 - v\<^sub>0))\<bar> \<le> 3 / 4" using close by linarith
  then show ?thesis using l range ends v1 by (intro exI [of _ "r + v\<^sub>0"]) simp
qed

theorem level_between_witness: "\<exists>l. calc_vol (Num (7 / 10)) (50, 100) = Some l \<and> 50 \<le> l \<and> l \<le> 100"
  using level_between [of 50 100 "7 / 10"] by auto

end
