(* ===== verification/Vibrator_Calibration.thy ===== *)
theory Vibrator_Calibration
  imports Vibrator_Compose
begin

text \<open>
  Calibration: what the TA partition holds arrives at the driver. The text in between is that of a signed number and is read as an unsigned one.
\<close>

section \<open>Reading back what was printed\<close>

lemma digit_not_space: "is_digit c \<Longrightarrow> \<not> is_space c"
  by (auto simp: is_digit_def is_space_def)

lemma digits_first: "\<exists>c cs. digits n = c # cs \<and> is_digit c"
  using digits_nonempty [of n] digits_plain [of _ n] by (cases "digits n") auto

lemma takeWhile_digits: "takeWhile is_digit (digits n) = digits n" "dropWhile is_digit (digits n) = []"
  using digits_plain by (auto simp: takeWhile_eq_all_conv dropWhile_eq_Nil_conv)

lemma read_u32_decimal:
  assumes "- (2 ^ 31) \<le> i" and "i < 2 ^ 31"
  shows "read_u32 (decimal i) = Some (to_u32 i, [])"
proof (cases "i < 0")
  case True
  have "\<not> is_space CHR ''-''" by (simp add: is_space_def)
  then show ?thesis using True assms(1) by (simp add: read_u32_def decimal_def takeWhile_digits Let_def)
next
  case False
  obtain c cs where c: "digits (nat i) = c # cs" "is_digit c" using digits_first by blast
  have "c \<noteq> CHR ''-''" "c \<noteq> CHR ''+''" "\<not> is_space c" using c(2) digit_not_space by (auto simp: is_digit_def)
  then show ?thesis
    using False assms(2) c(1) takeWhile_digits [of "nat i"] undigits_digits [of "nat i"] by (simp add: read_u32_def decimal_def)
qed

lemma trim_plain:
  assumes "s \<noteq> []" and "\<not> blank (hd s)" and "\<not> blank (last s)"
  shows "trim s = s"
proof -
  have "dropWhile blank s = s" using assms(1,2) by (cases s) simp_all
  moreover have "dropWhile blank (rev s) = rev s" using assms(1,3) by (cases "rev s") (auto simp: last_rev hd_rev dest: arg_cong [of _ _ hd])
  ultimately show ?thesis by (simp add: trim_def)
qed

lemma trim_decimal: "trim (decimal i) = decimal i"
proof -
  have plain: "\<not> blank c" if "c \<in> set (decimal i)" for c
    using that digit_not_space digits_plain [of c] by (cases "c = CHR ''-''") (auto simp: decimal_def blank_def is_space_def split: if_splits)
  show ?thesis by (rule trim_plain) (simp_all add: plain)
qed

section \<open>From the partition to the driver\<close>

definition ta_holds :: "miscta \<Rightarrow> u32 \<Rightarrow> u32 \<Rightarrow> bool" where
  "ta_holds ta f0 redc \<longleftrightarrow>
     (\<exists>s bs. unit_size ta 4730 = Some s \<and> unit_data ta 4730 = Some bs \<and> s \<le> 24) \<and>
     (\<exists>s bs. unit_size ta 4731 = Some s \<and> unit_data ta 4731 = Some bs \<and> s \<le> 16) \<and>
     unit_size ta 4732 = Some 4 \<and> unit_data ta 4732 = Some (bytes32 redc) \<and>
     unit_size ta 4733 = Some 4 \<and> unit_data ta 4733 = Some (bytes32 f0)"

lemma cirrusMiscTaRead_holds:
  assumes "ta_holds ta f0 redc" and "length dat = 24"
  shows "\<exists>dat'. cirrusMiscTaRead ta dat = Some (True, dat') \<and> dat_int dat' 5 = sint f0 \<and> dat_int dat' 4 = sint redc"
proof -
  obtain s0 bs0 s1 bs1 where 0: "unit_size ta 4730 = Some s0" "unit_data ta 4730 = Some bs0" "s0 \<le> 24"
      and 1: "unit_size ta 4731 = Some s1" "unit_data ta 4731 = Some bs1" "s1 \<le> 16"
    using assms(1) by (auto simp: ta_holds_def)
  define d1 where "d1 = overwrite 8 (take s1 bs1) (overwrite 0 (take s0 bs0) dat)"
  have len: "length d1 = 24" using assms(2) 0(3) 1(3) by (simp add: d1_def)
  have "cirrusMiscTaRead ta dat = Some (True, put32 20 f0 (put32 16 redc d1))"
    using assms 0 1 len by (simp add: cirrusMiscTaRead_def read_unit_def ta_holds_def put32_def d1_def)
  moreover have "le32 (put32 20 f0 (put32 16 redc d1)) 20 = f0" "le32 (put32 20 f0 (put32 16 redc d1)) 16 = redc"
    using len by (simp_all add: le32_put32_same le32_put32_disjoint)
  ultimately show ?thesis by (simp add: dat_int_def)
qed

lemma to_u32_sint: "to_u32 (sint w) = uint w" for w :: u32
proof -
  have "take_bit 32 (sint w) = uint w" by transfer (simp add: take_bit_signed_take_bit)
  then show ?thesis by (simp add: to_u32_def take_bit_eq_mod)
qed

lemma sint_u32: "- (2 ^ 31) \<le> sint w" "sint w < 2 ^ 31" for w :: u32
  using sint_ge [of w] sint_less [of w] by simp_all

lemma new_HwCal_holds:
  assumes "ta_holds ta f0 redc" and "length dat = 24"
  shows "\<exists>K'. new_HwCal (Some ta) dat K = Some K' \<and>
    mCalData K' = (mCalData K)(''f0_measured'' \<mapsto> decimal (sint f0), ''redc_measured'' \<mapsto> decimal (sint redc))"
proof -
  have "trim ''f0_measured'' = ''f0_measured''" "trim ''redc_measured'' = ''redc_measured''" by (simp_all add: trim_def blank_def)
  then show ?thesis using cirrusMiscTaRead_holds [OF assms] by (auto simp: new_HwCal_def trim_decimal)
qed

lemma getPersist_decimal:
  "mCalData K key = Some (decimal (sint w)) \<Longrightarrow> getPersist (Suc 0) key K = Some [uint w]" for w :: u32
  using read_u32_decimal [OF sint_u32, of w] by (simp add: getPersist_def to_u32_sint)

lemma getPersist_absent: "mCalData K key = None \<Longrightarrow> getPersist n key K = None"
  by (simp add: getPersist_def)

definition hw_works :: "hwapi \<Rightarrow> bool" where
  "hw_works h \<longleftrightarrow> (\<forall>nd. good h nd \<and> opened h nd) \<and> (\<forall>n nd s. accepts h n nd s)"

lemma put_works:
  assumes "hw_works (mHwApi V)"
  shows "hw_works (mHwApi (put_ignored nd s V))" and "sent (mHwApi (put_ignored nd s V)) = sent (mHwApi V) @ [(nd, s)]"
  using assms by (simp_all add: hw_works_def put_ignored_def put_def set_node_def hw_record_def Let_def)

lemma default_levels: "click_minimum [60, 70, 80, 90, 100, 100] = 50"
proof -
  have "fl32 60 = 60" "fl32 40 = 40" "fl32 10 = 10" "fl32 50 = 50" "round_away 50 = 50"
    using fl32_int [of 60] fl32_int [of 40] fl32_int [of 10] fl32_int [of 50] round_away_int [of 50] by simp_all
  then show ?thesis by (simp add: click_minimum_def to_u32_def WAVEFORM_EFFECT_LEVEL_MINIMUM_def)
qed

text \<open>
  Claim C27. From the TA partition to the driver: when the two units of the partition hold the resonant frequency and the resistance in four bytes, all
  \<open>2 ^ 32\<close> values of each pass unchanged through the text they are kept as, also those that are printed with a minus sign, and are
  written to their nodes, followed by the default quality factor. All other calibration is absent, so the levels are 50 to 100 for
  ticks and clicks, and 0 to 100 for long effects.
\<close>

theorem calibration_reaches_driver:
  assumes "ta_holds ta f0 redc" and "length dat = 24" and "mCalData K = Map.empty" and "hw_works (mHwApi V)"
    and "new_HwCal (Some ta) dat K = Some (mHwCal V)"
  shows "sent (mHwApi (set_calibration V)) = sent (mHwApi V) @ [(mF0, decimal (uint f0)), (mRedc_node, decimal (uint redc)), (mQ, decimal 1015808)] \<and>
    mResonantFrequency (set_calibration V) = fl32 (of_int (uint f0)) / 2 ^ 14 \<and> mRedc (set_calibration V) = uint redc \<and>
    mClickEffectVol (set_levels V) = (50, 100) \<and> mTickEffectVol (set_levels V) = (50, 100) \<and> mLongEffectVol (set_levels V) = (0, 100)"
proof -
  have K: "mCalData (mHwCal V) = [''f0_measured'' \<mapsto> decimal (sint f0), ''redc_measured'' \<mapsto> decimal (sint redc)]"
    using new_HwCal_holds [OF assms(1,2), of K] assms(3,5) by auto
  have "getF0 (mHwCal V) = Some (uint f0)" "getRedc (mHwCal V) = Some (uint redc)"
    using getPersist_decimal [of "mHwCal V" _ f0] getPersist_decimal [of "mHwCal V" _ redc] by (simp_all add: getF0_def getRedc_def K)
  moreover have "getQ (mHwCal V) = 1015808" "getVersion (mHwCal V) = 1" "getVolLevels (mHwCal V) = [60, 70, 80, 90, 100, 100]"
    by (simp_all add: getQ_def getVersion_def getVolLevels_def Q_DEFAULT_def K getPersist_absent)
  ultimately show ?thesis
    using put_works assms(4) by (simp add: set_calibration_def set_levels_def default_levels Let_def) (simp add: put_ignored_frame)
qed

definition sample_ta :: miscta where
  "sample_ta = \<lparr>unit_size = \<lambda>u. Some 4, unit_data = \<lambda>u. Some (bytes32 (if u = 4733 then 2375680 else if u = 4732 then 0xFFFFFFFF else 1))\<rparr>"

theorem calibration_reaches_driver_witness:
  "\<exists>K. new_HwCal (Some sample_ta) (replicate 24 0) sample_cal = Some K \<and>
    sent (mHwApi (set_calibration (sample_vibrator\<lparr>mHwCal := K\<rparr>))) = [(mF0, decimal 2375680), (mRedc_node, decimal 4294967295), (mQ, decimal 1015808)]"
proof -
  have ta: "ta_holds sample_ta 2375680 0xFFFFFFFF" by (simp add: ta_holds_def sample_ta_def)
  obtain K where K: "new_HwCal (Some sample_ta) (replicate 24 0) sample_cal = Some K"
    using new_HwCal_holds [OF ta, of "replicate 24 0" sample_cal] by auto
  have "mCalData sample_cal = Map.empty" "hw_works (mHwApi (sample_vibrator\<lparr>mHwCal := K\<rparr>))" "sent (mHwApi (sample_vibrator\<lparr>mHwCal := K\<rparr>)) = []"
    by (simp_all add: sample_cal_def hw_works_def sample_vibrator_def sample_hw_def)
  then show ?thesis
    using calibration_reaches_driver [OF ta, of "replicate 24 0" sample_cal "sample_vibrator\<lparr>mHwCal := K\<rparr>"] K by simp
qed

end
