(* ===== verification/Vibrator_Envelope.thy ===== *)
theory Vibrator_Envelope
  imports Vibrator_Props
begin

text \<open>
  Piecewise linear envelopes: the segments a composition stands for and their text, the bounds of levels and indices, and the construction
  of the service, which skips the limits of levels.
\<close>

section \<open>Segments\<close>

datatype segment = ActiveSegment int flt rat | BrakingSegment int int rat

fun print_segment :: "nat \<Rightarrow> segment \<Rightarrow> string" where
  "print_segment i (ActiveSegment dur a f) = constructActiveSegment i dur a f"
| "print_segment i (BrakingSegment dur b f) = constructBrakingSegment i dur b f"

fun print_segments :: "nat \<Rightarrow> segment list \<Rightarrow> string" where
  "print_segments i [] = []"
| "print_segments i (s # ss) = print_segment i s @ print_segments (i + 1) ss"

lemma print_segments_append: "print_segments i (xs @ ys) = print_segments i xs @ print_segments (i + length xs) ys"
  by (induction xs arbitrary: i) simp_all

text \<open>The specification: the status of a composition, and its segments.\<close>

fun pwle_refused :: "PrimitivePwle \<Rightarrow> bool" where
  "pwle_refused (Active a) \<longleftrightarrow> active_refused a"
| "pwle_refused (BrakingPwle b dur) \<longleftrightarrow> 1 < b \<or> 999 < dur"

fun pwle_duration :: "PrimitivePwle \<Rightarrow> int" where
  "pwle_duration (Active a) = active_duration a"
| "pwle_duration (BrakingPwle b dur) = dur"

fun number_frequencies :: "PrimitivePwle \<Rightarrow> bool" where
  "number_frequencies (Active a) \<longleftrightarrow> startFrequency a \<noteq> NaN \<and> endFrequency a \<noteq> NaN"
| "number_frequencies (BrakingPwle b dur) \<longleftrightarrow> True"

definition hz :: "flt \<Rightarrow> rat" where
  "hz f = the (flt_num f)"

definition level :: "vibrator \<Rightarrow> flt \<Rightarrow> flt \<Rightarrow> flt" where
  "level V a f = the (clip_level V a f)"

definition jumps :: "vibrator \<Rightarrow> ActivePwle \<Rightarrow> flt \<Rightarrow> rat \<Rightarrow> bool" where
  "jumps V a prevA prevF \<longleftrightarrow>
     \<not> (level V (startAmplitude a) (startFrequency a) = prevA \<and> prevA \<noteq> NaN \<and> hz (startFrequency a) = prevF)"

fun segments :: "vibrator \<Rightarrow> PrimitivePwle list \<Rightarrow> flt \<Rightarrow> rat \<Rightarrow> segment list" where
  "segments V [] prevA prevF = []"
| "segments V (Active a # es) prevA prevF =
     (if jumps V a prevA prevF then [ActiveSegment 0 (level V (startAmplitude a) (startFrequency a)) (hz (startFrequency a))] else []) @
     ActiveSegment (active_duration a) (level V (endAmplitude a) (endFrequency a)) (hz (endFrequency a)) #
     segments V es (level V (endAmplitude a) (endFrequency a)) (hz (endFrequency a))"
| "segments V (BrakingPwle b dur # es) prevA prevF = BrakingSegment dur b prevF # segments V es (Num 0) prevF"

section \<open>Indices and levels\<close>

lemma level_limit_defined:
  assumes "\<not> frequency_outside f" and "f \<noteq> NaN" and "length (pwleMaxLevelLimitMap V) = 999"
  shows "\<exists>x l. f = Num x \<and> level_limit V f = Some l \<and> l \<in> set (pwleMaxLevelLimitMap V)"
proof -
  obtain x where x: "f = Num x" "1 \<le> x" "x \<le> 999"
    using assms(1,2) flt_between [of f 1 999] by (auto simp: frequency_outside_def PWLE_FREQUENCY_MIN_HZ_def PWLE_FREQUENCY_MAX_HZ_def)
  define i where "i = trunc (fl32 (x / 1 - 1))"
  have "\<bar>fl32 (x - 1) - (x - 1)\<bar> \<le> \<bar>x - 1\<bar> / 2 ^ 24 + 1 / 2 ^ 150" by (rule fl32_near)
  moreover have "\<bar>x - 1\<bar> / 2 ^ 24 \<le> 998 / 2 ^ 24" using x(2,3) by (intro divide_right_mono) simp_all
  moreover have "(998 :: rat) / 2 ^ 24 + 1 / 2 ^ 150 < 1" by simp
  ultimately have y: "- 1 < fl32 (x - 1)" "fl32 (x - 1) < 999" using x(2,3) by linarith+
  have "0 \<le> i \<and> i < 999"
  proof (cases "0 \<le> fl32 (x - 1)")
    case True
    then show ?thesis using y(2) by (simp add: i_def trunc_def floor_less_iff)
  next
    case False
    then have "\<lceil>fl32 (x - 1)\<rceil> = 0" using y(1) by (simp add: ceiling_eq_iff)
    then show ?thesis using False by (simp add: i_def trunc_def)
  qed
  then have "level_limit V f = Some (pwleMaxLevelLimitMap V ! nat i)" "nat i < length (pwleMaxLevelLimitMap V)"
    using x(1) assms(3) by (simp_all add: level_limit_def i_def nat_less_iff)
  then show ?thesis using x(1) by auto
qed

lemma level_bounded:
  assumes "\<not> level_outside a" and "\<not> frequency_outside f" and "f \<noteq> NaN" and "length (pwleMaxLevelLimitMap V) = 999"
  shows "clip_level V a f = Some (level V a f) \<and>
    (level V a f = NaN \<or> (\<exists>x. level V a f = Num x \<and> x \<le> CS40L2X_PWLE_LEVEL_MAX \<and> x \<le> the (level_limit V f)))"
proof -
  obtain l where l: "level_limit V f = Some l" using level_limit_defined [OF assms(2-4)] by blast
  show ?thesis
  proof (cases a)
    case NaN
    then show ?thesis using l by (simp add: level_def clip_level_def)
  next
    case (Num x)
    then show ?thesis using l assms(1) by (auto simp: level_def clip_level_def Let_def)
  next
    case (Infinite p)
    then show ?thesis using assms(1) by (cases p) (simp_all add: level_outside_def)
  qed
qed

section \<open>Compositions\<close>

lemma to_u32_add_left: "to_u32 (to_u32 a + b) = to_u32 (a + b)"
  by (simp add: to_u32_def mod_add_left_eq)

lemma pwle_text_spec:
  assumes "\<forall>e \<in> set es. number_frequencies e" and "length (pwleMaxLevelLimitMap V) = 999"
  shows "pwle_text V es i prevA prevF t = Some (if \<exists>e \<in> set es. pwle_refused e then Inl IllegalArgument
    else Inr (i + length (segments V es prevA prevF), if es = [] then t else to_u32 (t + sum_list (map pwle_duration es)),
      print_segments i (segments V es prevA prevF)))"
  using assms(1)
proof (induction es arbitrary: i prevA prevF t)
  case (Cons e es)
  show ?case
  proof (cases "pwle_refused e")
    case True
    then show ?thesis by (cases e) (auto simp: COMPOSE_PWLE_PRIMITIVE_DURATION_MAX_MS_def)
  next
    case False
    show ?thesis
    proof (cases e)
      case (BrakingPwle b dur)
      then show ?thesis
        using False Cons by (auto simp: COMPOSE_PWLE_PRIMITIVE_DURATION_MAX_MS_def to_u32_add_left add.assoc)
    next
      case (Active a)
      have ok: "\<not> level_outside (startAmplitude a)" "\<not> level_outside (endAmplitude a)"
          "\<not> frequency_outside (startFrequency a)" "\<not> frequency_outside (endFrequency a)" "startFrequency a \<noteq> NaN" "endFrequency a \<noteq> NaN"
        using False Active Cons.prems by (auto simp: active_refused_def)
      have clip: "clip_level V (startAmplitude a) (startFrequency a) = Some (level V (startAmplitude a) (startFrequency a))"
          "clip_level V (endAmplitude a) (endFrequency a) = Some (level V (endAmplitude a) (endFrequency a))"
        using level_bounded [OF ok(1,3,5) assms(2)] level_bounded [OF ok(2,4,6) assms(2)] by simp_all
      have num: "flt_num (startFrequency a) = Some (hz (startFrequency a))" "flt_num (endFrequency a) = Some (hz (endFrequency a))"
        using level_limit_defined [OF ok(3,5) assms(2)] level_limit_defined [OF ok(4,6) assms(2)] by (auto simp: hz_def)
      have "\<forall>e \<in> set es. number_frequencies e" using Cons.prems by simp
      note IH = Cons.IH [OF this]
      show ?thesis
        using False Active
        by (cases "jumps V a prevA prevF") (auto simp: clip num IH jumps_def to_u32_add_left add.assoc Let_def)
    qed
  qed
qed simp

lemma segments_length: "length es \<le> length (segments V es prevA prevF) \<and> length (segments V es prevA prevF) \<le> 2 * length es"
proof (induction es arbitrary: prevA prevF)
  case (Cons e es)
  then show ?case by (cases e) (simp_all add: le_SucI)
qed simp

fun level_ok :: "segment \<Rightarrow> bool" where
  "level_ok (ActiveSegment dur a f) \<longleftrightarrow> a = NaN \<or> (\<exists>x. a = Num x \<and> x \<le> CS40L2X_PWLE_LEVEL_MAX)"
| "level_ok (BrakingSegment dur b f) \<longleftrightarrow> True"

lemma segments_levels:
  assumes "\<forall>e \<in> set es. number_frequencies e \<and> \<not> pwle_refused e" and "length (pwleMaxLevelLimitMap V) = 999"
  shows "\<forall>s \<in> set (segments V es prevA prevF). level_ok s"
  using assms(1)
proof (induction es arbitrary: prevA prevF)
  case (Cons e es)
  then have IH: "\<forall>s \<in> set (segments V es prevA prevF). level_ok s" for prevA prevF by simp
  show ?case
  proof (cases e)
    case (BrakingPwle b dur)
    then show ?thesis using IH by simp
  next
    case (Active a)
    have ok: "\<not> level_outside (startAmplitude a)" "\<not> level_outside (endAmplitude a)"
        "\<not> frequency_outside (startFrequency a)" "\<not> frequency_outside (endFrequency a)" "startFrequency a \<noteq> NaN" "endFrequency a \<noteq> NaN"
      using Active Cons.prems by (auto simp: active_refused_def)
    show ?thesis
      using Active IH level_bounded [OF ok(1,3,5) assms(2)] level_bounded [OF ok(2,4,6) assms(2)] by auto
  qed
qed simp

lemma durations_small:
  assumes "\<forall>e \<in> set es. \<not> pwle_refused e \<and> 0 \<le> pwle_duration e"
  shows "0 \<le> sum_list (map pwle_duration es) \<and> sum_list (map pwle_duration es) \<le> 999 * int (length es)"
  using assms
proof (induction es)
  case (Cons e es)
  then show ?case by (cases e) (auto simp: active_refused_def COMPOSE_PWLE_PRIMITIVE_DURATION_MAX_MS_def)
qed simp

definition pwle_queue :: "vibrator \<Rightarrow> PrimitivePwle list \<Rightarrow> string" where
  "pwle_queue V es = ''S:0,WF:4,RP:0,WT:0'' @ print_segments 0 (segments V es (Num 0) (mResonantFrequency V))"


text \<open>A frequency that is not a number passes the checks and is then used as an index.\<close>

lemma nan_frequency_undefined:
  assumes "mIsChirpEnabled V" and "1 \<le> mCompositionSizeMax V" and "mCompositionSizeMax V \<le> 82"
    and "startFrequency a = NaN" and "\<not> active_refused a"
  shows "composePwle lg overtakes [Active a] callback V = None"
  using assms by (simp add: composePwle_def clip_level_def level_limit_def)

definition sample_envelope :: "PrimitivePwle list" where
  "sample_envelope =
     [Active \<lparr>startAmplitude = Num 0, startFrequency = Num 145, endAmplitude = Num 1, endFrequency = Num 200, active_duration = 400\<rparr>,
      BrakingPwle 1 100]"

lemma sample_envelope_ok: "\<forall>e \<in> set sample_envelope. number_frequencies e" "length (pwleMaxLevelLimitMap sample_vibrator) = 999"
  by (simp_all add: sample_envelope_def sample_vibrator_def)

lemma sample_envelope_accepted: "\<forall>e \<in> set sample_envelope. \<not> pwle_refused e \<and> 0 \<le> pwle_duration e"
  by (simp add: sample_envelope_def active_refused_def level_outside_def frequency_outside_def PWLE_FREQUENCY_MIN_HZ_def PWLE_FREQUENCY_MAX_HZ_def
      COMPOSE_PWLE_PRIMITIVE_DURATION_MAX_MS_def)


section \<open>Construction\<close>

text \<open>What the steps of the constructor keep.\<close>

definition same_config :: "vibrator \<Rightarrow> vibrator \<Rightarrow> bool" where
  "same_config V V' \<longleftrightarrow> mIsChirpEnabled V' = mIsChirpEnabled V \<and> pwleMaxLevelLimitMap V' = pwleMaxLevelLimitMap V \<and> mHwCal V' = mHwCal V"

interpretation config: kept same_config
  by unfold_locales (auto simp: same_config_def hasHapticAlsaDevice_def Let_def split: option.split)

lemma put_config: "same_config V (put_ignored nd s V)"
  by (simp add: same_config_def put_ignored_frame)

lemma calibration_config: "same_config V (set_calibration V)" "same_config V (set_levels V)"
  by (simp_all add: same_config_def set_calibration_def set_levels_def put_ignored_frame Let_def split: option.split)

lemma durations_config: "same_config V (read_durations i n V)"
proof (induction n arbitrary: i V)
  case 0
  then show ?case by (simp add: same_config_def)
next
  case (Suc n)
  obtain ok d W where W: "fetch mEffectDuration (put_ignored mEffectIndex (decimal (int i)) V) = (ok, d, W)"
    by (cases "fetch mEffectDuration (put_ignored mEffectIndex (decimal (int i)) V)")
  define U where "U = (case (ok, d) of
     (True, Some v) \<Rightarrow> W\<lparr>mEffectDurations := (mEffectDurations W)[i := \<lceil>fl32 (fl32 (of_int v) / 48)\<rceil>]\<rparr> | _ \<Rightarrow> W)"
  have "same_config V W" using config.trans [OF put_config config.kept_fetch [OF W]] by simp
  then have "same_config V U" by (simp add: U_def same_config_def split: bool.split option.split)
  moreover have "read_durations i (Suc n) V = read_durations (Suc i) n U" by (simp add: U_def W)
  ultimately show ?case using config.trans Suc.IH by metis
qed

lemma capabilities_spec:
  "\<exists>cs V'. getCapabilities V = (cs, V') \<and> same_config V V' \<and> mCompositionSizeMax V' = mCompositionSizeMax V \<and> (CAP_FREQUENCY_CONTROL \<in> set cs \<longrightarrow> mIsChirpEnabled V) \<and>
     (CAP_COMPOSE_PWLE_EFFECTS \<in> set cs \<longrightarrow> mIsChirpEnabled V)"
proof -
  obtain b W where W: "(if has mAspEnable (mHwApi V) then (True, V) else hasHapticAlsaDevice V) = (b, W)" by fastforce
  then have "mCompositionSizeMax W = mCompositionSizeMax V" by (auto simp: hasHapticAlsaDevice_def Let_def split: if_splits option.splits)
  moreover have "same_config V W" using W config.same config.sound_device [of V] by (auto split: if_splits)
  ultimately show ?thesis unfolding getCapabilities_def Let_def W by (auto simp: same_config_def)
qed

lemma limit_segment_defined:
  assumes "x1 + 2 \<le> k + int n" and "1 \<le> k" and "x1 \<le> int (length m)" and "int (length m) < 2 ^ 20" and "k \<le> x1 + 1"
  shows "\<exists>m'. limit_segment n x0 y0 (of_int x1) y1 (of_int k) (of_int (k - 1)) m = Some m' \<and> length m' = length m"
  using assms
proof (induction n arbitrary: k m)
  case (Suc n)
  have e: "fl32 (of_int x1 + 1) = of_int (x1 + 1)" "fl32 (of_int k + 1) = of_int (k + 1)" "fl32 (of_int (k - 1) + 1) = of_int k"
    using fl32_int [of "x1 + 1"] fl32_int [of "k + 1"] fl32_int [of k] Suc.prems by simp_all
  have c: "(of_int k :: rat) < of_int (x1 + 1) \<longleftrightarrow> k < x1 + 1" by (simp only: of_int_less_iff)
  have t: "trunc (of_int (k - 1)) = k - 1" using Suc.prems(2) by (simp add: trunc_def)
  show ?case
  proof (cases "k < x1 + 1")
    case True
    define yp where "yp = fl32 (y0 + fl32 (fl32 (fl32 (y1 - y0) / fl32 (of_int x1 - x0)) * fl32 (of_int k - x0)))"
    define m1 where "m1 = m[nat (k - 1) := yp]"
    have "set_limit (of_int (k - 1)) yp m = Some m1"
      unfolding set_limit_def t m1_def using True Suc.prems(2,3) by (simp add: nat_less_iff)
    moreover have "\<exists>m'. limit_segment n x0 y0 (of_int x1) y1 (of_int (k + 1)) (of_int (k + 1 - 1)) m1 = Some m' \<and> length m' = length m1"
      using Suc.prems True by (intro Suc.IH) (simp_all add: m1_def)
    ultimately show ?thesis using True by (simp add: e(1) c yp_def [symmetric] m1_def del: of_int_diff of_int_add) (simp add: e(2,3) [simplified])
  next
    case False
    then show ?thesis by (simp add: e(1) c del: of_int_add)
  qed
qed simp

definition table_ok :: "(rat \<times> rat) list \<Rightarrow> bool" where
  "table_ok ps \<longleftrightarrow> sorted_wrt (\<lambda>p q. fst p < fst q) ps \<and> (\<forall>p \<in> set ps. \<exists>x. fst p = of_int x \<and> 1 \<le> x \<and> x \<le> 999)"

lemma limit_segments_defined:
  assumes "table_ok ps" and "length m = 999"
  shows "\<exists>m'. limit_segments ps m = Some m' \<and> length m' = 999"
  using assms
proof (induction ps m rule: limit_segments.induct)
  case (3 x0 y0 x1 y1 ps m)
  obtain i0 i1 where i: "x0 = of_int i0" "x1 = of_int i1" "1 \<le> i0" "i1 \<le> 999" "i0 < i1" using "3.prems"(1) by (auto simp: table_ok_def)
  have f: "fl32 (x0 - PWLE_FREQUENCY_MIN_HZ) = of_int (i0 - 1)" using fl32_int [of "i0 - 1"] i by (simp add: PWLE_FREQUENCY_MIN_HZ_def)
  obtain m1 where m1: "limit_segment (PWLE_BW_MAP_SIZE + 1) x0 y0 x1 y1 x0 (fl32 (x0 - PWLE_FREQUENCY_MIN_HZ)) m = Some m1" "length m1 = 999"
    using limit_segment_defined [of i1 i0 "PWLE_BW_MAP_SIZE + 1" m x0 y0 y1] i "3.prems"(2) unfolding f by (auto simp: PWLE_BW_MAP_SIZE_def)
  have "table_ok ((x1, y1) # ps)" using "3.prems"(1) by (simp add: table_ok_def)
  then show ?case using "3.IH" [OF m1(1) _ m1(2)] m1(1) by simp
qed simp_all

lemma tables_ok: "table_ok (discretePwleMaxLevels act)"
  by (cases act) (simp_all add: table_ok_def)

lemma create_limits:
  assumes "length (pwleMaxLevelLimitMap V) = 999"
  shows "\<exists>V'. createPwleMaxLevelLimitMap act V = Some V' \<and> length (pwleMaxLevelLimitMap V') = 999 \<and> mHwCal V' = mHwCal V \<and> mCompositionSizeMax V' = mCompositionSizeMax V \<and>
    (\<not> mIsChirpEnabled V \<longrightarrow> pwleMaxLevelLimitMap V' = pwleMaxLevelLimitMap V)"
proof -
  obtain cs W where W: "getCapabilities V = (cs, W)" "same_config V W" "CAP_FREQUENCY_CONTROL \<in> set cs \<longrightarrow> mIsChirpEnabled V"
      "mCompositionSizeMax W = mCompositionSizeMax V"
    using capabilities_spec by blast
  have len: "length (pwleMaxLevelLimitMap W) = 999" using W(2) assms by (simp add: same_config_def)
  obtain m' where m': "limit_segments (discretePwleMaxLevels act) (pwleMaxLevelLimitMap W) = Some m'" "length m' = 999"
    using limit_segments_defined [OF tables_ok len] by blast
  have "\<exists>V'. createPwleMaxLevelLimitMap act V = Some V' \<and> (V' = W \<or> V' = W\<lparr>pwleMaxLevelLimitMap := m'\<rparr> \<and> mIsChirpEnabled V)"
    using W(3) m'(1) by (cases act) (simp_all add: createPwleMaxLevelLimitMap_def W(1))
  then show ?thesis using W(2,4) len m'(2) by (auto simp: same_config_def)
qed

lemma size_max_unsupported:
  assumes "getPwleCompositionSizeMax V = (sz, V')" and "\<not> mIsChirpEnabled V"
  shows "\<exists>st. sz = Inl st"
proof -
  obtain cs W where "getCapabilities V = (cs, W)" "CAP_COMPOSE_PWLE_EFFECTS \<in> set cs \<longrightarrow> mIsChirpEnabled V"
    using capabilities_spec by blast
  then show ?thesis using assms by (auto simp: getPwleCompositionSizeMax_def split: if_splits)
qed

text \<open>
  Claim C38. The constructor is defined whenever the frequency shift of the calibration is, and leaves a table of 999 limits. It reads whether
  envelopes are enabled before it sets that member: where the memory of the object held false, the limits of the actuator are not entered in the
  table and the size of compositions is 82 whatever the driver reports, also when envelopes are enabled in the end.
\<close>

theorem constructor_skips_limits:
  assumes "long_offset (getLongFrequencyShift (mHwCal mem)) \<noteq> None"
  shows "\<exists>V. new_Vibrator pw sq act junk mem = Some V \<and> length (pwleMaxLevelLimitMap V) = 999 \<and> mIsChirpEnabled V = isChirpEnabled (mHwCal mem) \<and>
    (\<not> mIsChirpEnabled mem \<longrightarrow> pwleMaxLevelLimitMap V = replicate 999 (default_level act) \<and> mCompositionSizeMax V = 82)"
proof -
  define V0 where "V0 = mem\<lparr>mAsyncHandle := None, mRedc := 0, mActiveId := -1, pwleMaxLevelLimitMap := replicate PWLE_BW_MAP_SIZE (default_level act)\<rparr>"
  define V1 where "V1 = set_calibration (put_ignored mState (bool_text True) V0)"
  obtain offset where off: "long_offset (getLongFrequencyShift (mHwCal mem)) = Some offset" using assms by blast
  define V2 where "V2 = set_levels (V1\<lparr>mF0Offset := offset\<rparr>)"
  obtain ok n V3 where V3: "fetch mEffectCount V2 = (ok, n, V3)" by (cases "fetch mEffectCount V2")
  define k where "k = nat (case n of Some k \<Rightarrow> k | None \<Rightarrow> junk)"
  define V4 where "V4 = put_ignored mClabEnable (bool_text True) (read_durations 0 k (V3\<lparr>mEffectDurations := replicate k 0\<rparr>))"
  obtain sz V5 where V5: "getPwleCompositionSizeMax V4 = (sz, V5)" by (cases "getPwleCompositionSizeMax V4")
  define V6 where "V6 = (case sz of Inr _ \<Rightarrow> V5 | Inl _ \<Rightarrow> V5\<lparr>mCompositionSizeMax := COMPOSE_PWLE_SIZE_LIMIT\<rparr>)"
  have c1: "same_config V0 V1" unfolding V1_def using config.trans [OF put_config calibration_config(1)] .
  have "same_config V1 (V1\<lparr>mF0Offset := offset\<rparr>)" by (simp add: same_config_def)
  then have c2: "same_config V0 V2" unfolding V2_def using config.trans [OF c1] config.trans [OF _ calibration_config(2)] by blast
  have "same_config V3 (V3\<lparr>mEffectDurations := replicate k 0\<rparr>)" by (simp add: same_config_def)
  then have c4: "same_config V0 V4"
    unfolding V4_def using config.trans [OF c2 config.kept_fetch [OF V3]] durations_config put_config config.trans node.distinct by metis
  have c6: "same_config V0 V6"
    using config.trans [OF c4 config.kept_getPwleCompositionSizeMax [OF V5]] by (simp add: V6_def same_config_def split: sum.split)
  have len: "length (pwleMaxLevelLimitMap V6) = 999" using c6 by (simp add: same_config_def V0_def PWLE_BW_MAP_SIZE_def)
  obtain V7 where V7: "createPwleMaxLevelLimitMap act V6 = Some V7" "length (pwleMaxLevelLimitMap V7) = 999" "mHwCal V7 = mHwCal V6"
      "mCompositionSizeMax V7 = mCompositionSizeMax V6" "\<not> mIsChirpEnabled V6 \<longrightarrow> pwleMaxLevelLimitMap V7 = pwleMaxLevelLimitMap V6"
    using create_limits [OF len] by blast
  define V8 where "V8 = generate_map pw sq (V7\<lparr>mGenerateBandwidthAmplitudeMapDone := False\<rparr>)"
  have V8: "mHwCal V8 = mHwCal V7" "pwleMaxLevelLimitMap V8 = pwleMaxLevelLimitMap V7" "mCompositionSizeMax V8 = mCompositionSizeMax V7"
    by (simp_all add: V8_def generate_map_def split: option.split)
  define V where "V = setPwleRampDown (V8\<lparr>mIsUnderExternalControl := False\<rparr>)"
  have "mHwCal V1 = mHwCal mem" using c1 by (simp add: same_config_def V0_def)
  then have "new_Vibrator pw sq act junk mem = Some (V\<lparr>mIsChirpEnabled := isChirpEnabled (mHwCal V)\<rparr>)"
    using off V3 V5 V7(1)
    by (simp add: new_Vibrator_def V0_def [symmetric] V1_def [symmetric] V2_def [symmetric] k_def [symmetric] V4_def [symmetric] V6_def [symmetric] V8_def [symmetric] V_def Let_def)
  moreover have "\<not> mIsChirpEnabled mem \<longrightarrow> mCompositionSizeMax V6 = 82"
    using size_max_unsupported [OF V5] c4 by (auto simp: V6_def same_config_def V0_def COMPOSE_PWLE_SIZE_LIMIT_def)
  ultimately show ?thesis
    using V7(2-5) V8 c6 by (auto simp: V_def setPwleRampDown_def put_ignored_frame same_config_def V0_def PWLE_BW_MAP_SIZE_def)
qed

theorem constructor_skips_limits_witness:
  "\<exists>V. new_Vibrator (\<lambda>x. fl (x * x)) fl32 LUXSHARE_ICT_081545 0 (sample_vibrator\<lparr>mIsChirpEnabled := False\<rparr>) = Some V \<and> mIsChirpEnabled V \<and>
     pwleMaxLevelLimitMap V = replicate 999 (default_level LUXSHARE_ICT_081545)"
proof -
  have "long_offset (getLongFrequencyShift (mHwCal (sample_vibrator\<lparr>mIsChirpEnabled := False\<rparr>))) \<noteq> None"
      "isChirpEnabled (mHwCal (sample_vibrator\<lparr>mIsChirpEnabled := False\<rparr>))" "\<not> mIsChirpEnabled (sample_vibrator\<lparr>mIsChirpEnabled := False\<rparr>)"
    by (simp_all add: sample_vibrator_def sample_cal_def getLongFrequencyShift_def getProperty_int_def long_offset_def isChirpEnabled_def getProperty_bool_def)
  then show ?thesis using constructor_skips_limits by blast
qed

end
