(* ===== verification/Vibrator_Supported.thy ===== *)
theory Vibrator_Supported
  imports Vibrator_Props
begin

text \<open>
  What the service lists as supported, compared with what its operations accept.
\<close>

lemma on_index_status: "on_index lg t ms i callback V = Some (st, V') \<Longrightarrow> st \<in> {VOk, IllegalState}"
  by (auto simp: on_index_def Let_def split: bind_splits if_splits)

lemma perform_index_status: "perform_index lg t i l q callback V = Some (st, V') \<Longrightarrow> st \<in> {VOk, IllegalState}"
  by (auto simp: perform_index_def setEffectQueue_def Let_def dest!: on_index_status split: bind_splits if_splits prod.splits)

lemma details_strength:
  assumes "strength \<in> {LIGHT, MEDIUM, STRONG}"
  shows "getSimpleDetails effect strength V = Some (Inl st) \<longleftrightarrow> simple_index effect = None \<and> st = Unsupported"
  using assms by (auto simp: getSimpleDetails_def strength_intensity_def split: option.splits bind_splits)

lemma simple_supported: "simple_index effect \<noteq> None \<longleftrightarrow> effect \<in> {E_TEXTURE_TICK, E_TICK, E_CLICK, E_HEAVY_CLICK, E_POP, E_THUD}"
  by (cases effect) (simp_all add: simple_index_def)

lemma performed_not_unsupported:
  "\<nexists>ms V'. (do { (st, V) \<leftarrow> perform_index lg t i l q callback V; Some (st, to_s32 time, V) }) = Some (Unsupported, ms, V')"
  using perform_index_status [of lg t i l q callback V] by (cases "perform_index lg t i l q callback V") auto

lemma perform_refuses_simple:
  assumes "strength \<in> {LIGHT, MEDIUM, STRONG}" and "simple_index effect \<noteq> None"
  shows "\<nexists>ms V'. perform lg t effect strength callback V = Some (Unsupported, ms, V')"
proof (cases "getSimpleDetails effect strength V")
  case None
  then show ?thesis using assms(2) by (simp add: perform_def)
next
  case (Some r)
  then obtain i time l where "r = Inr (i, time, l)"
    using details_strength [OF assms(1), of effect V] assms(2) by (cases r) auto
  then show ?thesis using performed_not_unsupported assms(2) Some by (simp add: perform_def)
qed

lemma compound_supported:
  assumes "strength \<in> {LIGHT, MEDIUM, STRONG}"
  shows "getCompoundDetails E_DOUBLE_CLICK strength V \<noteq> Some (Inl st)"
proof -
  have "simple_index E_CLICK \<noteq> None" "simple_index E_HEAVY_CLICK \<noteq> None" by (simp_all add: simple_index_def)
  then have "getSimpleDetails e strength V = None \<or> (\<exists>i ms l. getSimpleDetails e strength V = Some (Inr (i, ms, l)))"
    if "e \<in> {E_CLICK, E_HEAVY_CLICK}" for e
    using that details_strength [OF assms, of e V] by (metis (full_types) insertE not_None_eq prod_cases3 singletonD sum.exhaust)
  then have "getSimpleDetails E_CLICK strength V = None \<or> (\<exists>i ms l. getSimpleDetails E_CLICK strength V = Some (Inr (i, ms, l)))"
      "getSimpleDetails E_HEAVY_CLICK strength V = None \<or> (\<exists>i ms l. getSimpleDetails E_HEAVY_CLICK strength V = Some (Inr (i, ms, l)))"
    by blast+
  then show ?thesis unfolding getCompoundDetails_def by (elim disjE exE) (simp_all add: Let_def)
qed

lemma perform_refuses_compound:
  assumes "strength \<in> {LIGHT, MEDIUM, STRONG}"
  shows "\<nexists>ms V'. perform lg t E_DOUBLE_CLICK strength callback V = Some (Unsupported, ms, V')"
proof (cases "getCompoundDetails E_DOUBLE_CLICK strength V")
  case None
  then show ?thesis by (simp add: perform_def simple_index_def)
next
  case (Some r)
  then obtain time q where "r = Inr (time, q)" using compound_supported [OF assms] by (cases r) auto
  then show ?thesis using performed_not_unsupported Some by (simp add: perform_def simple_index_def)
qed

lemma perform_refuses:
  assumes "strength \<in> {LIGHT, MEDIUM, STRONG}"
  shows "(\<exists>ms V'. perform lg t effect strength callback V = Some (Unsupported, ms, V')) \<longleftrightarrow> effect \<notin> set getSupportedEffects"
proof (cases "simple_index effect = None \<and> effect \<noteq> E_DOUBLE_CLICK")
  case True
  then show ?thesis using simple_supported [of effect] by (auto simp: perform_def getSupportedEffects_def)
next
  case False
  then show ?thesis
    using perform_refuses_simple [OF assms, of effect] perform_refuses_compound [OF assms] simple_supported [of effect]
    by (auto simp: getSupportedEffects_def)
qed

lemma alwaysOn_refuses:
  assumes "strength \<in> {LIGHT, MEDIUM, STRONG}" and "gpio \<in> {0, 1}"
  shows "(\<exists>V'. alwaysOnEnable lg gpio effect strength V = Some (Unsupported, V')) \<longleftrightarrow> simple_index effect = None"
proof (cases "simple_index effect = None")
  case True
  then have "getSimpleDetails effect strength V = Some (Inl Unsupported)" using details_strength [OF assms(1)] by simp
  then show ?thesis using True by (simp add: alwaysOnEnable_def)
next
  case False
  have "\<not> (\<exists>V'. alwaysOnEnable lg gpio effect strength V = Some (Unsupported, V'))"
  proof (cases "getSimpleDetails effect strength V")
    case None
    then show ?thesis by (simp add: alwaysOnEnable_def)
  next
    case (Some r)
    then obtain i ms l where r: "r = Inr (i, ms, l)" using details_strength [OF assms(1), of effect V] False by (cases r) auto
    show ?thesis
      using assms(2) by (cases "amplitudeToScale lg (fl32 (of_int l)) (of_int VOLTAGE_SCALE_MAX)") (auto simp: alwaysOnEnable_def Some r)
  qed
  then show ?thesis using False by simp
qed

lemma compose_text_one:
  assumes "delay \<le> 10000"
  shows "compose_text V [\<lparr>delayMs = delay, primitive = p, scale = Num 1\<rparr>] = Some (Inl st) \<longleftrightarrow> p \<notin> set getSupportedPrimitives \<and> st = Unsupported"
  using assms
  by (cases p) (auto simp: COMPOSE_DELAY_MAX_MS_def getPrimitiveDetails_def getSupportedPrimitives_def split: bind_splits)

lemma compose_refuses:
  assumes "delay \<le> 10000"
  shows "(\<exists>V'. compose lg t [\<lparr>delayMs = delay, primitive = p, scale = Num 1\<rparr>] callback V = Some (Unsupported, V')) \<longleftrightarrow> p \<notin> set getSupportedPrimitives"
proof -
  define e where "e = \<lparr>delayMs = delay, primitive = p, scale = Num 1\<rparr>"
  have refused: "compose_text V [e] = Some (Inl st) \<longleftrightarrow> p \<notin> set getSupportedPrimitives \<and> st = Unsupported" for st
    unfolding e_def by (rule compose_text_one [OF assms])
  have run: "compose lg t [e] callback V = do {
      r \<leftarrow> compose_text V [e];
      case r of Inl st \<Rightarrow> Some (st, V)
      | Inr text \<Rightarrow> if text = [] then Some (IllegalArgument, V) else perform_index lg t 0 0 (text @ ''0'') callback V }"
    unfolding compose_def by (simp only: COMPOSE_SIZE_MAX_def list.size) simp
  have played: "\<nexists>V'. perform_index lg t 0 0 q callback V = Some (Unsupported, V')" for q using perform_index_status by fastforce
  show ?thesis
  proof (cases "p \<in> set getSupportedPrimitives")
    case False
    then have "compose_text V [e] = Some (Inl Unsupported)" using refused by blast
    then show ?thesis using False unfolding e_def [symmetric] run by (simp del: compose_text.simps)
  next
    case True
    then have "compose_text V [e] = None \<or> (\<exists>b. compose_text V [e] = Some (Inr b))" using refused by (metis not_None_eq sum.exhaust)
    then show ?thesis using True played unfolding e_def [symmetric] run by (auto simp del: compose_text.simps split: if_splits)
  qed
qed

text \<open>
  Claim C30. What is listed is what is accepted: with a known strength \<open>perform\<close> answers that an effect is unsupported exactly for the effects not listed, and
  \<open>compose\<close> and \<open>getPrimitiveDuration\<close> do so exactly for the primitives not listed. An always-on effect that is listed is not refused, but of the
  effects not listed \<open>POP\<close> and \<open>THUD\<close> are not refused either.
\<close>

theorem supported_exactly:
  assumes "strength \<in> {LIGHT, MEDIUM, STRONG}" and "gpio \<in> {0, 1}" and "delay \<le> getCompositionDelayMax"
  shows "((\<exists>ms V'. perform lg t effect strength callback V = Some (Unsupported, ms, V')) \<longleftrightarrow> effect \<notin> set getSupportedEffects) \<and>
    ((\<exists>V'. compose lg t [\<lparr>delayMs = delay, primitive = p, scale = Num 1\<rparr>] callback V = Some (Unsupported, V')) \<longleftrightarrow> p \<notin> set getSupportedPrimitives) \<and>
    (getPrimitiveDuration p V = Some (Inl Unsupported) \<longleftrightarrow> p \<notin> set getSupportedPrimitives) \<and>
    ((\<exists>V'. alwaysOnEnable lg gpio effect strength V = Some (Unsupported, V')) \<longleftrightarrow> effect \<notin> set getSupportedAlwaysOnEffects \<union> {E_POP, E_THUD})"
proof -
  have "delay \<le> 10000" using assms(3) by (simp add: getCompositionDelayMax_def COMPOSE_DELAY_MAX_MS_def)
  moreover have "getPrimitiveDuration p V = Some (Inl Unsupported) \<longleftrightarrow> p \<notin> set getSupportedPrimitives"
    by (cases p) (simp_all add: getPrimitiveDuration_def getPrimitiveDetails_def getSupportedPrimitives_def)
  moreover have "simple_index effect = None \<longleftrightarrow> effect \<notin> set getSupportedAlwaysOnEffects \<union> {E_POP, E_THUD}"
    using simple_supported [of effect] by (auto simp: getSupportedAlwaysOnEffects_def)
  ultimately show ?thesis
    using perform_refuses [OF assms(1)] compose_refuses alwaysOn_refuses [OF assms(1,2)] by simp
qed

theorem supported_exactly_witness:
  "(\<nexists>ms V'. perform (\<lambda>_. 0) True E_DOUBLE_CLICK MEDIUM None sample_vibrator = Some (Unsupported, ms, V')) \<and>
   (\<exists>V'. compose (\<lambda>_. 0) True [\<lparr>delayMs = 10, primitive = OtherPrimitive 9, scale = Num 1\<rparr>] None sample_vibrator = Some (Unsupported, V'))"
proof -
  have "MEDIUM \<in> {LIGHT, MEDIUM, STRONG}" "(0 :: int) \<in> {0, 1}" "10 \<le> getCompositionDelayMax"
    by (simp_all add: getCompositionDelayMax_def COMPOSE_DELAY_MAX_MS_def)
  from supported_exactly [OF this, of "\<lambda>_. 0" True E_DOUBLE_CLICK None sample_vibrator "OtherPrimitive 9"]
  show ?thesis by (simp add: getSupportedEffects_def getSupportedPrimitives_def)
qed

end
