(* ===== verification/Vibrator_Bandwidth.thy ===== *)
theory Vibrator_Bandwidth
  imports Vibrator_Props
begin

text \<open>
  The map of amplitudes that is reported to clients: in which range its entries are, and that it is computed once.
\<close>

section \<open>Rounding keeps the sign\<close>

lemma round_even_sign: "0 \<le> x \<Longrightarrow> 0 \<le> round_even x" "x \<le> 0 \<Longrightarrow> round_even x \<le> 0"
proof -
  show "0 \<le> round_even x" if "0 \<le> x" using that by (auto simp: round_even_def Let_def)
  show "round_even x \<le> 0" if "x \<le> 0"
  proof (cases "x = 0")
    case False
    then have "\<lfloor>x\<rfloor> < 0" using that by (simp add: floor_less_iff)
    then show ?thesis by (auto simp: round_even_def Let_def)
  qed (simp add: round_even_def)
qed

lemma rounded_sign:
  assumes "e = (2 :: rat) powi k"
  shows "0 \<le> x \<Longrightarrow> 0 \<le> of_int (round_even (x / e)) * e" "x \<le> 0 \<Longrightarrow> of_int (round_even (x / e)) * e \<le> 0"
  using round_even_sign [of "x / e"] assms by (simp_all add: divide_nonpos_pos mult_nonpos_nonneg)

lemma fl_sign [simp]: "0 \<le> x \<Longrightarrow> 0 \<le> fl x" "x \<le> 0 \<Longrightarrow> fl x \<le> 0"
  by (auto simp: fl_def Let_def rounded_sign [OF refl])

lemma fl32_sign [simp]: "0 \<le> x \<Longrightarrow> 0 \<le> fl32 x" "x \<le> 0 \<Longrightarrow> fl32 x \<le> 0"
  by (auto simp: fl32_def Let_def rounded_sign [OF refl])

text \<open>\<open>x\<close> has the sign \<open>s\<close> or is zero.\<close>

definition signed :: "rat \<Rightarrow> rat \<Rightarrow> bool" where
  "signed s x \<longleftrightarrow> (s = 1 \<and> 0 \<le> x) \<or> (s = -1 \<and> x \<le> 0)"

lemma signed_mult: "signed s x \<Longrightarrow> signed t y \<Longrightarrow> signed (s * t) (x * y)"
  by (auto simp: signed_def mult_nonneg_nonpos mult_nonpos_nonneg mult_nonpos_nonpos)

lemma signed_divide: "signed s x \<Longrightarrow> signed t y \<Longrightarrow> signed (s * t) (x / y)"
  by (auto simp: signed_def divide_nonneg_nonneg divide_nonneg_nonpos divide_nonpos_nonneg divide_nonpos_nonpos)

lemma signed_fl: "signed s x \<Longrightarrow> signed s (fl x)"
  by (auto simp: signed_def)

lemma signed_single: "single x = Some y \<Longrightarrow> signed s x \<Longrightarrow> signed s y"
  by (auto simp: single_def signed_def split: if_splits)

lemma signed_sgn: "x \<noteq> 0 \<Longrightarrow> signed (sgn x) x"
  by (auto simp: signed_def sgn_if)

lemma signed_one: "signed 1 x \<longleftrightarrow> 0 \<le> x"
  by (simp add: signed_def)

section \<open>Amplitudes\<close>

text \<open>What is used of \<open>pow(x, 2)\<close> and of \<open>sqrt\<close>.\<close>

definition pow_ok :: "(rat \<Rightarrow> rat) \<Rightarrow> bool" where
  "pow_ok pw \<longleftrightarrow> (\<forall>x. 0 \<le> pw x)"

definition sqrt_ok :: "(rat \<Rightarrow> rat) \<Rightarrow> bool" where
  "sqrt_ok sq \<longleftrightarrow> (\<forall>x. 0 \<le> x \<longrightarrow> 0 \<le> sq x)"

definition force_sign :: "vibrator \<Rightarrow> rat" where
  "force_sign V = sgn (getLocCoeff (mHwCal V)) * sgn (getDeviceMass (mHwCal V))"

definition calibrated :: "vibrator \<Rightarrow> bool" where
  "calibrated V \<longleftrightarrow> length (pwleMaxLevelLimitMap V) = 999 \<and> (\<forall>l \<in> set (pwleMaxLevelLimitMap V). 0 \<le> l) \<and> 0 \<le> snd (mLongEffectVol V) \<and> 0 \<le> mRedc V"

lemma voltage_signed:
  assumes "calibrated V" and "i < length (pwleMaxLevelLimitMap V)" and "voltage V (pwleMaxLevelLimitMap V ! i) = Some v"
  shows "signed 1 v"
proof -
  have "0 \<le> pwleMaxLevelLimitMap V ! i" "0 \<le> snd (mLongEffectVol V)" using assms(1,2) by (simp_all add: calibrated_def)
  then show ?thesis using assms(3) signed_single [of _ v 1] by (simp add: voltage_def signed_one)
qed

lemma force_signed:
  assumes "signed 1 v" and "0 \<le> redc" and "loc \<noteq> 0" and "mass \<noteq> 0"
    and "single (v * fl32 (11 / 10)) = Some f1" and "single (f1 * loc) = Some f2" and "single (f2 / redcToFloat redc) = Some f3" and "single (f3 / mass) = Some f4"
  shows "signed (sgn loc * sgn mass) f4"
proof -
  have bl: "signed 1 (fl32 (11 / 10))" and redc: "signed 1 (redcToFloat redc)" using assms(2) by (simp_all add: signed_one redcToFloat_def)
  have "signed 1 f1" using signed_single [OF assms(5)] signed_mult [OF assms(1) bl] by simp
  then have "signed (sgn loc) f2" using signed_single [OF assms(6)] signed_mult [OF _ signed_sgn [OF assms(3)], of 1] by simp
  then have "signed (sgn loc) f3" using signed_single [OF assms(7)] signed_divide [OF _ redc, of "sgn loc"] by simp
  then show ?thesis using signed_single [OF assms(8)] signed_divide [OF _ signed_sgn [OF assms(4)]] by blast
qed

lemma amplitude_signed:
  assumes "pow_ok pw" and "sqrt_ok sq" and "calibrated V" and "getLocCoeff (mHwCal V) \<noteq> 0" and "getDeviceMass (mHwCal V) \<noteq> 0"
    and "amplitudeSys pw sq V i = Some a"
  shows "signed (force_sign V) a"
proof -
  define fr where "fr = radians (PWLE_FREQUENCY_MIN_HZ + of_nat i * PWLE_FREQUENCY_RESOLUTION_HZ)"
  obtain v v1 pr v2 v12 psys f1 f2 f3 f4 where run: "i < length (pwleMaxLevelLimitMap V)" "voltage V (pwleMaxLevelLimitMap V ! i) = Some v"
      "single (pw (fl (pw (radians (mResonantFrequency V)) - pw fr))) = Some v1" "single (pw (fl32 (pr / 10))) = Some v2"
      "single (v1 + v2) = Some v12" "single (sq v12) = Some psys"
      "single (v * fl32 (11 / 10)) = Some f1" "single (f1 * getLocCoeff (mHwCal V)) = Some f2" "single (f2 / redcToFloat (mRedc V)) = Some f3"
      "single (f3 / getDeviceMass (mHwCal V)) = Some f4"
      "single (fl (fl (fl (f4 * pw fr) / psys) / fl32 (981 / 100))) = Some a"
    using assms(6) unfolding amplitudeSys_def Let_def fr_def [symmetric] by (auto split: if_splits bind_splits)
  have f4: "signed (force_sign V) f4"
    unfolding force_sign_def using force_signed [OF voltage_signed [OF assms(3) run(1,2)] _ assms(4,5) run(7-10)] assms(3) by (simp add: calibrated_def)
  have pw: "signed 1 (pw x)" for x using assms(1) by (simp add: pow_ok_def signed_one)
  have "signed 1 v1" "signed 1 v2" using signed_single [OF run(3)] signed_single [OF run(4)] pw by simp_all
  then have "signed 1 v12" using signed_single [OF run(5), of 1] by (simp add: signed_one)
  then have psys: "signed 1 psys" using signed_single [OF run(6), of 1] assms(2) by (simp add: signed_one sqrt_ok_def)
  have g: "signed 1 (fl32 (981 / 100))" by (simp add: signed_one)
  have "signed (force_sign V * 1 * 1 * 1) (fl (fl (fl (f4 * pw fr) / psys) / fl32 (981 / 100)))"
    by (intro signed_fl signed_divide signed_mult f4 pw psys g)
  then show ?thesis using signed_single [OF run(11)] by simp
qed

section \<open>The map\<close>

lemma those_Some: "those (map f xs) = Some ys \<Longrightarrow> length ys = length xs \<and> (\<forall>y \<in> set ys. \<exists>x \<in> set xs. f x = Some y)"
  by (induction xs arbitrary: ys) (fastforce split: option.splits)+

lemma fold_max: "m \<le> fold (\<lambda>a m. if m < a then a else m) xs m" "a \<in> set xs \<Longrightarrow> a \<le> fold (\<lambda>a m. if m < a then a else m) xs m"
    "fold (\<lambda>a m. if m < a then a else m) xs m = m \<or> fold (\<lambda>a m. if m < a then a else m) xs m \<in> set xs"
  for m :: "'a :: linorder"
proof -
  have eq: "fold (\<lambda>a m. if m < a then a else m) xs m = fold max xs m" by (intro fold_cong refl ext) (auto simp: max_def)
  show "m \<le> fold (\<lambda>a m. if m < a then a else m) xs m" "a \<in> set xs \<Longrightarrow> a \<le> fold (\<lambda>a m. if m < a then a else m) xs m"
      "fold (\<lambda>a m. if m < a then a else m) xs m = m \<or> fold (\<lambda>a m. if m < a then a else m) xs m \<in> set xs"
    unfolding eq Max.set_eq_fold [symmetric] using Max_in [of "set (m # xs)"] by auto
qed

definition hundredth :: "rat \<Rightarrow> bool" where
  "hundredth x \<longleftrightarrow> (\<exists>k. 0 \<le> k \<and> k \<le> 100 \<and> x = fl32 (of_int k / 100))"

lemma hundredths_range:
  assumes "0 \<le> a" and "a \<le> M" and "0 < M"
  shows "hundredth (hundredths M a)"
proof -
  define q where "q = a / M"
  have q: "0 \<le> q" "q \<le> 1" using assms by (simp_all add: q_def)
  then have "fl32 q \<le> 1 + 1 / 2 ^ 24 + 1 / 2 ^ 150" using fl32_near [of q] by (simp add: abs_le_iff)
  then have r: "fl32 q * 100 \<le> 100 + 1 / 2 ^ 10" by simp
  have "0 \<le> fl32 q * 100" using q by simp
  then have "fl32 (fl32 q * 100) < 101" using fl32_near [of "fl32 q * 100"] r by (simp add: abs_le_iff)
  moreover have "0 \<le> fl32 (fl32 q * 100)" using q by simp
  ultimately have "0 \<le> \<lfloor>fl32 (fl32 q * 100)\<rfloor>" "\<lfloor>fl32 (fl32 q * 100)\<rfloor> \<le> 100" by (simp_all add: floor_le_iff)
  then show ?thesis unfolding hundredth_def hundredths_def q_def [symmetric] by blast
qed

lemma hundredths_top: "0 < M \<Longrightarrow> hundredths M M = 1"
  using fl32_int [of 1] fl32_int [of 100] by (simp add: hundredths_def)

lemma generate_normal:
  assumes "pow_ok pw" and "sqrt_ok sq" and "calibrated V" and "generateBandwidthAmplitudeMap pw sq V = Some (m, whole)"
  shows "(whole \<longleftrightarrow> m \<noteq> []) \<and> (m \<noteq> [] \<longrightarrow> length m = 999 \<and> list_all hundredth m \<and> 1 \<in> set m)"
proof (cases "m = []")
  case True
  have "xs \<noteq> []" if "those (map f [0..<PWLE_BW_MAP_SIZE]) = Some xs" for f and xs :: "rat list"
    using those_Some [OF that] by (auto simp: PWLE_BW_MAP_SIZE_def)
  then show ?thesis using assms(4) True by (auto simp: generateBandwidthAmplitudeMap_def Let_def split: if_splits bind_splits)
next
  case False
  define M where "M xs = fold (\<lambda>a m. if m < a then a else m) xs (0 :: rat)" for xs
  from False obtain xs where xs: "those (map (amplitudeSys pw sq V) [0..<PWLE_BW_MAP_SIZE]) = Some xs" and M: "0 < M xs"
      and m: "m = map (hundredths (M xs)) xs" "whole" and nz: "getLocCoeff (mHwCal V) \<noteq> 0" "getDeviceMass (mHwCal V) \<noteq> 0"
    using assms(4) by (auto simp: generateBandwidthAmplitudeMap_def M_def Let_def split: if_splits bind_splits)
  have top: "M xs \<in> set xs" using fold_max(3) [of xs 0] M by (auto simp: M_def)
  have sgn: "signed (force_sign V) a" if "a \<in> set xs" for a
    using those_Some [OF xs] that amplitude_signed [OF assms(1-3) nz] by blast
  from sgn [OF top] have "force_sign V = 1" using M by (auto simp: signed_def)
  then have "0 \<le> a \<and> a \<le> M xs" if "a \<in> set xs" for a using sgn [OF that] fold_max(2) [OF that, of 0] by (simp add: signed_def M_def)
  then have "list_all hundredth m" using hundredths_range M by (auto simp: m list_all_iff)
  moreover have "1 \<in> set m" using hundredths_top [OF M] top unfolding m by (metis image_eqI set_map)
  ultimately show ?thesis using those_Some [OF xs] False m by (simp add: PWLE_BW_MAP_SIZE_def)
qed

lemma getCapabilities_frame:
  "\<exists>c d h f. snd (getCapabilities V) = V\<lparr>mCard := c, mDevice := d, mHasHapticAlsaDevice := h, configHapticAlsaDeviceDone := f\<rparr>"
proof -
  have same: "V = V\<lparr>mCard := mCard V, mDevice := mDevice V, mHasHapticAlsaDevice := mHasHapticAlsaDevice V, configHapticAlsaDeviceDone := configHapticAlsaDeviceDone V\<rparr>" by simp
  show ?thesis
    unfolding getCapabilities_def hasHapticAlsaDevice_def
    by (auto simp: Let_def split: prod.splits option.splits if_splits)
      (metis same vibrator.simps)+
qed

lemma frequency_capability: "CAP_FREQUENCY_CONTROL \<in> set (fst (getCapabilities V)) \<longleftrightarrow> has mPwle (mHwApi (snd (getCapabilities V))) \<and> mIsChirpEnabled (snd (getCapabilities V))"
  by (auto simp: getCapabilities_def Let_def split: prod.splits)


definition even_vibrator :: vibrator where
  "even_vibrator = sample_vibrator\<lparr>mRedc := 131072, mResonantFrequency := 0\<rparr>"

definition in_band :: "rat \<Rightarrow> rat \<Rightarrow> rat \<Rightarrow> bool" where
  "in_band a b x \<longleftrightarrow> 0 < a \<and> 1 / 2 ^ 40 \<le> a \<and> b \<le> 2 ^ 40 \<and> a \<le> x \<and> x \<le> b"

lemma near_half:
  fixes x y :: rat
  assumes "\<bar>y - x\<bar> \<le> \<bar>x\<bar> / 2 ^ 24 + 1 / 2 ^ 150" and "1 / 2 ^ 40 \<le> x"
  shows "x / 2 \<le> y \<and> y \<le> 2 * x"
  using assms by (simp add: abs_le_iff)

lemma fl32_half: "1 / 2 ^ 40 \<le> x \<Longrightarrow> x / 2 \<le> fl32 x \<and> fl32 x \<le> 2 * x"
  by (rule near_half [OF fl32_near])

lemma fl_half:
  assumes "1 / 2 ^ 40 \<le> x"
  shows "x / 2 \<le> fl x \<and> fl x \<le> 2 * x"
proof (rule near_half [OF _ assms])
  have "1 / 2 ^ 1075 \<le> (1 / 2 ^ 150 :: rat)" by (intro divide_left_mono power_increasing) simp_all
  moreover have "\<bar>x\<bar> / 2 ^ 53 \<le> \<bar>x\<bar> / 2 ^ 24" by (intro divide_left_mono power_increasing) simp_all
  ultimately show "\<bar>fl x - x\<bar> \<le> \<bar>x\<bar> / 2 ^ 24 + 1 / 2 ^ 150" using fl_near [of x] by linarith
qed

lemma in_band_mult: "in_band a b x \<Longrightarrow> in_band c d y \<Longrightarrow> 1 / 2 ^ 40 \<le> a * c \<Longrightarrow> b * d \<le> 2 ^ 40 \<Longrightarrow> in_band (a * c) (b * d) (x * y)"
  by (auto simp: in_band_def intro: mult_mono)

lemma in_band_divide: "in_band a b x \<Longrightarrow> in_band c d y \<Longrightarrow> 1 / 2 ^ 40 \<le> a / d \<Longrightarrow> b / c \<le> 2 ^ 40 \<Longrightarrow> in_band (a / d) (b / c) (x / y)"
  by (auto simp: in_band_def intro: frac_le)

lemma in_band_fl: "in_band a b x \<Longrightarrow> 1 / 2 ^ 40 \<le> a / 2 \<Longrightarrow> 2 * b \<le> 2 ^ 40 \<Longrightarrow> in_band (a / 2) (2 * b) (fl x)"
  using fl_half [of x] by (auto simp: in_band_def)

lemma in_band_fl32: "in_band a b x \<Longrightarrow> 1 / 2 ^ 40 \<le> a / 2 \<Longrightarrow> 2 * b \<le> 2 ^ 40 \<Longrightarrow> in_band (a / 2) (2 * b) (fl32 x)"
  using fl32_half [of x] by (auto simp: in_band_def)

lemma in_band_single:
  assumes "in_band a b x" and "1 / 2 ^ 40 \<le> a / 2" and "2 * b \<le> 2 ^ 40"
  shows "\<exists>y. single x = Some y \<and> in_band (a / 2) (2 * b) y"
proof -
  have w: "in_band (a / 2) (2 * b) (fl32 x)" by (rule in_band_fl32 [OF assms])
  then have "0 \<le> fl32 x" "fl32 x \<le> 2 ^ 40" by (simp_all add: in_band_def)
  then show ?thesis using w by (simp add: single_def)
qed

definition even_steps :: "rat \<Rightarrow> rat \<Rightarrow> rat \<Rightarrow> rat \<Rightarrow> rat \<Rightarrow> rat \<Rightarrow> bool" where
  "even_steps v f1 f2 f3 f4 a \<longleftrightarrow>
     single (fl (fl (fl (100 / 100) * fl32 (123 / 10)) * 1)) = Some v \<and> single (v * fl32 (11 / 10)) = Some f1 \<and> single (f1 * (1 / 2)) = Some f2 \<and>
     single (f2 / redcToFloat 131072) = Some f3 \<and> single (f3 / fl32 (21 / 100)) = Some f4 \<and>
     single (fl (fl (fl (f4 * 1) / 1) / fl32 (981 / 100))) = Some a \<and> 0 < a"

lemma in_band_number: "0 < x \<Longrightarrow> 1 / 2 ^ 40 \<le> x \<Longrightarrow> x \<le> 2 ^ 40 \<Longrightarrow> in_band x x x"
  by (simp add: in_band_def)

lemma even_numbers: "\<exists>v f1 f2 f3 f4 a. even_steps v f1 f2 f3 f4 a"
proof -
  have one: "in_band 1 1 1" and half: "in_band (1 / 2) (1 / 2) (1 / 2)" by (simp_all add: in_band_def)
  have n: "in_band 6 25 (fl32 (123 / 10))" "in_band (1 / 2) 3 (fl32 (11 / 10))" "in_band (1 / 10) 1 (fl32 (21 / 100))" "in_band 4 20 (fl32 (981 / 100))"
      "in_band (1 / 2) 2 (fl (100 / 100))" "in_band 2 12 (fl (5857 / 1000))"
    using fl32_half [of "123 / 10"] fl32_half [of "11 / 10"] fl32_half [of "21 / 100"] fl32_half [of "981 / 100"] fl_half [of 1] fl_half [of "5857 / 1000"]
    by (simp_all add: in_band_def)
  have r: "in_band (1 / 2) 48 (redcToFloat 131072)"
    using fl_half [of "131072 * fl (5857 / 1000)"] fl32_half [of "fl (131072 * fl (5857 / 1000)) / 131072"] n(6)
    by (simp add: redcToFloat_def in_band_def)
  obtain v where v: "single (fl (fl (fl (100 / 100) * fl32 (123 / 10)) * 1)) = Some v" "in_band (3 / 8) 400 v"
    using in_band_single [OF in_band_fl [OF in_band_mult [OF in_band_fl [OF in_band_mult [OF n(5) n(1)]] one]]] by auto
  obtain f1 where f1: "single (v * fl32 (11 / 10)) = Some f1" "in_band (3 / 32) 2400 f1" using in_band_single [OF in_band_mult [OF v(2) n(2)]] by auto
  obtain f2 where f2: "single (f1 * (1 / 2)) = Some f2" "in_band (3 / 128) 2400 f2" using in_band_single [OF in_band_mult [OF f1(2) half]] by auto
  obtain f3 where f3: "single (f2 / redcToFloat 131072) = Some f3" "in_band (3 / 12288) 9600 f3" using in_band_single [OF in_band_divide [OF f2(2) r]] by auto
  obtain f4 where f4: "single (f3 / fl32 (21 / 100)) = Some f4" "in_band (3 / 24576) 192000 f4" using in_band_single [OF in_band_divide [OF f3(2) n(3)]] by auto
  obtain a where a: "single (fl (fl (fl (f4 * 1) / 1) / fl32 (981 / 100))) = Some a" "in_band (3 / 7864320) 768000 a"
    using in_band_single [OF in_band_fl [OF in_band_divide [OF in_band_fl [OF in_band_divide [OF in_band_fl [OF in_band_mult [OF f4(2) one]] one]] n(4)]]] by auto
  have "even_steps v f1 f2 f3 f4 a" using v f1 f2 f3 f4 a by (simp add: even_steps_def in_band_def)
  then show ?thesis by blast
qed

lemma even_amplitude: "\<exists>c > 0. \<forall>i < 999. amplitudeSys (\<lambda>_. 1) (\<lambda>_. 1) even_vibrator i = Some c"
proof -
  obtain v f1 f2 f3 f4 c where e: "even_steps v f1 f2 f3 f4 c" using even_numbers by blast
  have W: "pwleMaxLevelLimitMap even_vibrator = replicate 999 1" "mLongEffectVol even_vibrator = (0, 100)" "mRedc even_vibrator = 131072"
      "mResonantFrequency even_vibrator = 0" "getDeviceMass (mHwCal even_vibrator) = fl32 (21 / 100)" "getLocCoeff (mHwCal even_vibrator) = 1 / 2"
    by (simp_all add: even_vibrator_def sample_vibrator_def sample_cal_def getDeviceMass_def getLocCoeff_def getProperty_float_def)
  have z: "radians 0 = 0" "single 0 = Some 0" "single 1 = Some 1" "single 2 = Some 2"
    using fl32_int [of 1] fl32_int [of 2] by (simp_all add: radians_def single_def fl_def [of 0] fl32_def [of 0])
  have "voltage even_vibrator 1 = Some v" using e by (simp add: voltage_def W even_steps_def)
  then have "amplitudeSys (\<lambda>_. 1) (\<lambda>_. 1) even_vibrator i = Some c" if "i < 999" for i
    using that e unfolding amplitudeSys_def even_steps_def by (simp add: W z Let_def)
  then show ?thesis using e by (auto simp: even_steps_def)
qed

lemma those_const: "(\<And>x. x \<in> set xs \<Longrightarrow> f x = Some c) \<Longrightarrow> those (map f xs) = Some (replicate (length xs) c)"
  by (induction xs) simp_all

lemma even_map: "generateBandwidthAmplitudeMap (\<lambda>_. 1) (\<lambda>_. 1) even_vibrator = Some (replicate 999 1, True)"
proof -
  obtain c where c: "0 < c" "\<forall>i < 999. amplitudeSys (\<lambda>_. 1) (\<lambda>_. 1) even_vibrator i = Some c" using even_amplitude by blast
  have "those (map (amplitudeSys (\<lambda>_. 1) (\<lambda>_. 1) even_vibrator) [0..<n]) = Some (replicate n c)" if "n \<le> 999" for n
    using those_const [of "[0..<n]" "amplitudeSys (\<lambda>_. 1) (\<lambda>_. 1) even_vibrator" c] c(2) that by simp
  then have "those (map (amplitudeSys (\<lambda>_. 1) (\<lambda>_. 1) even_vibrator) [0..<PWLE_BW_MAP_SIZE]) = Some (replicate 999 c)"
    unfolding PWLE_BW_MAP_SIZE_def by blast
  moreover have "fold (\<lambda>a m. if m < a then a else m) (replicate 999 c) 0 = c"
    using fold_max(2) [of c "replicate 999 c" 0] fold_max(3) [of "replicate 999 c" 0] c(1) by auto
  moreover have "getDeviceMass (mHwCal even_vibrator) \<noteq> 0" "getLocCoeff (mHwCal even_vibrator) \<noteq> 0" "mRedc even_vibrator \<noteq> 0"
    using fl32_near [of "21 / 100"]
    by (auto simp: even_vibrator_def sample_vibrator_def sample_cal_def getDeviceMass_def getLocCoeff_def getProperty_float_def)
  ultimately show ?thesis using c(1) hundredths_top [OF c(1)] by (simp add: generateBandwidthAmplitudeMap_def)
qed


end
