(* ===== verification/Spec2Isabelle.thy ===== *)
theory Spec2Isabelle
  imports Gpt_Disk Power_Hal Power_Dump Lights_Hal Vibrator_Scale Vibrator_External Vibrator_Calibration Vibrator_Envelope Vibrator_Supported Vibrator_Bandwidth
begin

text \<open>
  Verification of the native code of the device tree for the Sony Xperia 1 III (pdx215).

  \<^bold>\<open>The program.\<close> The repository holds four programs in C and C++, which share no code at run time.

  \<^item> \<open>src/gpt-utils\<close>, a library of the boot control: it edits the two copies of a GPT partition table on every disk with boot partitions, in
    an order that leaves one copy valid at any time, and tells a UFS device which of its LUNs to boot from.
  \<^item> \<open>src/aidl/power-libperfmgr\<close>, the power service: clients open hint sessions for their threads and report how long their work took, a
    controller turns that into a CPU boost, and touches hold a boost until the display is idle.
  \<^item> \<open>src/liblight\<close> and \<open>src/lights\<close>, the module that drives the backlight, the buttons and the LED, and the service on top of it.
  \<^item> \<open>src/aidl/vibrator\<close>, the vibrator service: effects, compositions and envelopes for the haptic driver, calibrated by data of the TA partition.

  Two small files stand beside them: \<open>src/configs/power/power-mode.cpp\<close> and \<open>src/configs/power/libqti-perfd-client/client.c\<close>.

  \<^bold>\<open>Conventions.\<close> A function of the source is a function on explicit state that returns an \<^typ>\<open>'a option\<close>: \<^const>\<open>None\<close> is undefined behaviour of C or C++
  (an access outside of a block, signed overflow, a dangling pointer, an impossible conversion) and, where it is said, an unspecified result. A
  theorem that gives a result as \<open>Some\<close> therefore also says that the code has no undefined behaviour there. Errors the code reports are values of its own status
  types. Whether a system call, an allocation or an access to a driver succeeds is decided by a schedule in the state, which theorems leave arbitrary, so
  every error path is a run of the model. Concurrency is interleaving: each section under a lock and each return of a blocking call is a step of
  an inductive relation, and properties of executions are proved by induction over it. Integers have their width where the code can reach it;
  a finite \<open>double\<close> or \<open>float\<close> is a rational number, and every operation rounds to 53 or 24 bits.

  \<^bold>\<open>The library.\<close>
  \<^item> \<open>Prelude\<close>: byte buffers, segments, C strings, and the collections of rules for them. \<open>Decimal\<close>: numbers as text, printing and reading inverse to each other.
    \<open>Cpp_Arith\<close>, \<open>Cpp_Float\<close>: checked and wrapping integers, rounding, conversions.
  \<^item> Locales carry what several proofs share: \<open>name_classes\<close> (the names of the swap list select disjoint entries; interpreted on the real list),
    \<open>frame\<close> (what the operations of the power service keep) and \<open>kept\<close> (relations between states that driver accesses of the vibrator keep; interpreted
    three times, for callbacks, for the sound device and for the configuration).

  \<^bold>\<open>Partition tables.\<close>
  \<^item> \<open>Gpt_Bytes\<close> (the byte macros and offsets of \<open>gpt-utils.h\<close>), \<open>Block_Device\<close> (\<open>blk_rw\<close> over a device with faults and short transfers),
    \<open>Gpt_Entries\<close> (\<open>gpt_pentry_seek\<close>, \<open>gpt_boot_chain_swap\<close>): the swap refines an exchange on a list of entries and is its own inverse.
  \<^item> \<open>Gpt_Header\<close> (\<open>gpt_get_state\<close>, \<open>gpt_set_state\<close>, \<open>gpt2_set_boot_chain\<close>): each returns exactly what the header says, and writes only what it should.
  \<^item> \<open>World\<close>, \<open>Ufs_Bsg\<close> (\<open>recovery-ufs-bsg.cpp\<close>): one well-formed request per switch of the LUN and no descriptor left open.
  \<^item> \<open>Boot_Update\<close> (\<open>prepare_boot_update\<close> and what it calls): under every schedule of faults one copy of the table stays valid, the three stages end
    where they began, and the list of LUNs is safe below 25 of them and overflows with the 27th.
  \<^item> \<open>Gpt_Disk\<close> (the \<open>gpt_disk\<close> handle, from \<open>gpt_disk_alloc\<close> to \<open>gpt_disk_free\<close>, and the map of partitions): reading, editing and committing keeps a valid
    copy; after success both copies hold the new entries. \<open>crc32\<close> is an argument of which nothing is assumed.

  \<^bold>\<open>Power.\<close>
  \<^item> \<open>Adpf_Pid\<close> (\<open>convertWorkDurationToBoostByPid\<close>): the loop computes a closed form, for inputs in range without overflow.
  \<^item> \<open>Power_Session\<close> (\<open>PowerHintSession.cpp\<close>, \<open>PowerSessionManager.cpp\<close>), \<open>Power_Invariant\<close>, \<open>Power_Safety\<close>, \<open>Power_Props\<close>: the tables agree with the sessions in
    every execution, a thread gets the largest boost its live sessions ask for, nothing is read after it is destroyed; two executions, one with a task profile that
    cannot be set and one with a race, where something is.
  \<^item> \<open>Interaction\<close>, \<open>Interaction_Props\<close> (\<open>InteractionHandler.cpp\<close>): hints in turn, no touch lost, the thread ends after \<open>Exit\<close>.
  \<^item> \<open>Power_Hal\<close> (\<open>Power.cpp\<close>, \<open>PowerExt.cpp\<close>): the composition keeps the invariants of both parts; sustained performance mode is never left.
  \<^item> \<open>Power_Dump\<close>: the dump changes nothing; the two small files.

  \<^bold>\<open>Lights.\<close> \<open>Liblight\<close>, \<open>Liblight_Props\<close> (\<open>lights.c\<close>) and \<open>Lights_Hal\<close> (\<open>Lights.cpp\<close>): what the nodes of the LED show after any calls of clients, the
  backlight on every branch, at most 82 system calls for a timer under any faults, the ids that are listed.

  \<^bold>\<open>Vibrator.\<close>
  \<^item> \<open>Vib_Hw\<close> (\<open>Hardware.h\<close>, \<open>HardwareBase.h\<close>, \<open>HardwareBase.cpp\<close>, \<open>utils.h\<close>): streams with their failure bits, the record of accesses, calibration.
  \<^item> \<open>Vibrator\<close>, \<open>Vibrator_Pwle\<close> (\<open>Vibrator.cpp\<close>): the whole interface and the constructor.
  \<^item> \<open>Vibrator_Props\<close>: every successful call is called back once; a failed write makes the service claim a capability. \<open>Vibrator_Compose\<close>,
    \<open>Vibrator_Envelope\<close>: the texts sent to the driver, and every refusal. \<open>Vibrator_External\<close>: at most one sound device, and when one is leaked.
    \<open>Vibrator_Calibration\<close>: from the TA partition to the driver. \<open>Vibrator_Scale\<close>, \<open>Vibrator_Bandwidth\<close>: ranges of the computed numbers.
    \<open>Vibrator_Supported\<close>: what is listed and what is accepted.

  \<^bold>\<open>Bounds.\<close> The loops of the source are structural recursions, except for three: the inner loop that interpolates limits (\<open>limit_segment\<close>) has
  a fuel of 1000, one more than the table has entries, and is shown to return for every table of the source; printing with one digit
  scales at most 50 times, enough for the smallest single; polling (\<open>poll_rounds\<close>) and the thread of the interaction handler follow the results of the
  system calls they are given. \<open>calm\<close> bounds times by \<open>2 ^ 61\<close> nanoseconds (73 years) and durations by \<open>2 ^ 40\<close>, where the arithmetic of the sessions cannot overflow.

  \<^bold>\<open>Not modelled.\<close> The three \<open>main\<close> functions, which only register services; the dump of the vibrator, which prints files named by the environment and
  the property list; logging and tracing; the variant of \<open>set_boot_lun\<close> for other kernel headers, which the build does not compile. Code outside of the
  repository is a parameter: \<open>crc32\<close>, \<open>libperfmgr\<close> (its requests are events), \<open>libmiscta\<close>, \<open>tinyalsa\<close>, the lookup of the hardware module, the
  properties, and \<open>log10\<close>, \<open>pow\<close> and \<open>sqrt\<close>, of which only accuracy or sign are assumed. Calls of the vibrator service are atomic; its clients are served by one thread. Values that
  leave the range of \<open>float\<close> are followed only where they come from a client. The configuration, policy and overlay files of the repository hold no program.
\<close>

end
